(* ===== verification/Prelude.thy ===== *)
theory Prelude
  imports Main "HOL-Library.Sublist" "HOL-Library.Word"
begin

text \<open>
  Shared vocabulary of the development.  A run of the C program can go wrong in ways its source
  does not check (a read of memory never written or already freed, a read outside an object, a
  NULL pointer handed to a function that follows it).  Such a run is the value \<open>Inl fault\<close>, and so is
  a run that stays for ever in a system call; a run that goes on is \<open>Inr\<close> of its result.  The theory also holds the collections of rewrite rules and the generic
  list lemmas the component theories share.
\<close>

section \<open>Faults\<close>

datatype fault =
    Uninit_read    \<comment> \<open>a pointer read from \<open>malloc\<close>ed memory that was never written\<close>
  | Out_of_bounds  \<comment> \<open>an access outside its object\<close>
  | Null_deref     \<comment> \<open>a NULL pointer followed\<close>
  | Use_after_free \<comment> \<open>memory read after it was given back\<close>
  | Bad_free       \<comment> \<open>\<open>free\<close> of something that is not the start of a live block\<close>
  | Blocked        \<comment> \<open>no error of the program: a system call that never returns\<close>

type_synonym 'a result = "fault + 'a"

named_theorems libc "defining equations of the modelled C library"
named_theorems ftp_defs "definitions of small static helpers, unfolded by the component proofs"
named_theorems frame "what an operation leaves unchanged"

section \<open>Lists\<close>

lemma takeWhile_neq_mem: "c \<notin> set (takeWhile (\<lambda>x. x \<noteq> c) xs)"
  by (induction xs) auto

lemma takeWhile_neq_id [simp]: "c \<notin> set xs \<Longrightarrow> takeWhile (\<lambda>x. x \<noteq> c) xs = xs"
  by (induction xs) auto

lemma dropWhile_Nil_iff: "dropWhile P xs = [] \<longleftrightarrow> (\<forall>x\<in>set xs. P x)"
  by (induction xs) auto

lemma dropWhile_hd: "dropWhile P xs \<noteq> [] \<Longrightarrow> \<not> P (hd (dropWhile P xs))"
  by (induction xs) auto

lemma length_dropWhile_tl: "xs \<noteq> [] \<Longrightarrow> length (dropWhile P (tl xs)) < length xs"
  by (cases xs) (auto simp: length_dropWhile_le less_Suc_eq_le)

lemma list_update_last: "xs \<noteq> [] \<Longrightarrow> xs[length xs - 1 := y] = butlast xs @ [y]"
  by (induction xs rule: rev_induct) auto

lemma nth_length_pred: "xs \<noteq> [] \<Longrightarrow> xs ! (length xs - 1) = last xs"
  by (simp add: last_conv_nth)

end
