(* ===== verification/CLib.thy ===== *)
theory CLib
  imports Prelude
begin

text \<open>
  The part of the C standard library the program computes with: strings (\<open>strcmp\<close>, \<open>strncmp\<close>,
  \<open>strtok\<close>, \<open>isspace\<close>), conversions (\<open>atoi\<close>, the \<open>%d\<close> of \<open>printf\<close>, \<open>inet_ntoa\<close>) and line input
  (\<open>fgets\<close>, \<open>getline\<close>).  A C string is the list of its characters before the terminating NUL;
  \<open>c_str\<close> reads a byte buffer as a C string.  The conversions follow glibc on a 64-bit Linux,
  where \<open>int\<close> has 32 bits and \<open>long\<close> 64.
\<close>

section \<open>Characters and strings\<close>

abbreviation NUL :: char where "NUL \<equiv> CHR 0x00"
abbreviation TAB :: char where "TAB \<equiv> CHR 0x09"
abbreviation LF :: char where "LF \<equiv> CHR 0x0A"
abbreviation CR :: char where "CR \<equiv> CHR 0x0D"
abbreviation SP :: char where "SP \<equiv> CHR '' ''"
abbreviation crlf :: string where "crlf \<equiv> [CR, LF]"

definition c_str :: "string \<Rightarrow> string" where
  "c_str s = takeWhile (\<lambda>c. c \<noteq> NUL) s"

definition isspace :: "char \<Rightarrow> bool" where
  "isspace c \<longleftrightarrow> c \<in> {SP, TAB, LF, CHR 0x0B, CHR 0x0C, CR}"

fun strcmp :: "string \<Rightarrow> string \<Rightarrow> int" where
  "strcmp [] [] = 0"
| "strcmp [] (b # bs) = - int (of_char b)"
| "strcmp (a # as) [] = int (of_char a)"
| "strcmp (a # as) (b # bs) =
     (if a = b then strcmp as bs else int (of_char a) - int (of_char b))"

fun strncmp :: "string \<Rightarrow> string \<Rightarrow> nat \<Rightarrow> int" where
  "strncmp as bs 0 = 0"
| "strncmp [] [] (Suc n) = 0"
| "strncmp [] (b # bs) (Suc n) = - int (of_char b)"
| "strncmp (a # as) [] (Suc n) = int (of_char a)"
| "strncmp (a # as) (b # bs) (Suc n) =
     (if a = b then strncmp as bs n else int (of_char a) - int (of_char b))"

lemma of_char_pos: "c \<noteq> NUL \<Longrightarrow> 0 < (of_char c :: nat)"
proof -
  assume "c \<noteq> NUL"
  then have "(of_char c :: nat) \<noteq> of_char NUL" using of_char_eq_iff by blast
  then show ?thesis by simp
qed

lemma of_char_pos' [simp]: "NUL \<noteq> c \<Longrightarrow> 0 < (of_char c :: nat)"
  by (rule of_char_pos) simp

lemma of_char_neq_int: "a \<noteq> b \<Longrightarrow> int (of_char a) - int (of_char b) \<noteq> 0"
  by simp

lemma strcmp_0_iff:
  assumes "NUL \<notin> set a" "NUL \<notin> set b"
  shows "strcmp a b = 0 \<longleftrightarrow> a = b"
  using assms by (induction a b rule: strcmp.induct) auto

text \<open>
  \<open>strncmp(a, b, strlen(b)) == 0\<close> is the program's test for "\<open>a\<close> starts with \<open>b\<close>".
\<close>

lemma strncmp_prefix:
  assumes "NUL \<notin> set b"
  shows "strncmp a b (length b) = 0 \<longleftrightarrow> prefix b a"
  using assms
proof (induction a b "length b" rule: strncmp.induct)
  case (3 b bs n)
  then show ?case by auto
qed auto

lemma c_str_no_NUL [simp]: "NUL \<notin> set (c_str s)"
  unfolding c_str_def by (rule takeWhile_neq_mem)

lemma c_str_id: "NUL \<notin> set s \<Longrightarrow> c_str s = s"
  by (simp add: c_str_def)

section \<open>Tokens\<close>

text \<open>
  \<open>strtok d s\<close> is one call of \<open>strtok\<close> with the delimiter string \<open>d\<close> of one character: the token
  and what the library keeps for the next call with NULL; \<open>None\<close> when no token is left.
\<close>

definition strtok :: "char \<Rightarrow> string \<Rightarrow> (string \<times> string) option" where
  "strtok d s =
     (let s' = dropWhile (\<lambda>c. c = d) s
      in if s' = [] then None
         else Some (takeWhile (\<lambda>c. c \<noteq> d) s', tl (dropWhile (\<lambda>c. c \<noteq> d) s')))"

lemma strtok_decr: "strtok d s = Some (t, r) \<Longrightarrow> length r < length s"
proof -
  assume a: "strtok d s = Some (t, r)"
  let ?s' = "dropWhile (\<lambda>c. c = d) s"
  from a have ne: "?s' \<noteq> []" and r: "r = tl (dropWhile (\<lambda>c. c \<noteq> d) ?s')"
    by (auto simp: strtok_def Let_def split: if_splits)
  have "length r < length ?s'"
  proof (cases ?s')
    case Nil
    then show ?thesis using ne by simp
  next
    case (Cons x xs)
    with dropWhile_hd [OF ne] have "x \<noteq> d" by simp
    then have "r = tl (dropWhile (\<lambda>c. c \<noteq> d) xs)" using r Cons by simp
    then have "length r \<le> length (dropWhile (\<lambda>c. c \<noteq> d) xs)" by simp
    also have "\<dots> \<le> length xs" by (rule length_dropWhile_le)
    finally show ?thesis using Cons by simp
  qed
  also have "\<dots> \<le> length s" by (rule length_dropWhile_le)
  finally show ?thesis .
qed

lemma strtok_token:
  "strtok d s = Some (t, r) \<Longrightarrow> t \<noteq> [] \<and> d \<notin> set t"
  using dropWhile_hd [of "\<lambda>c. c = d" s]
  by (auto simp: strtok_def Let_def takeWhile_neq_mem takeWhile_eq_Nil_iff split: if_splits)

text \<open>
  \<open>pieces d s\<close> is the reference notion of splitting: the pieces of \<open>s\<close> between consecutive
  delimiters, empty pieces included.  Calling \<open>strtok\<close> until it returns NULL gives its non-empty
  pieces.
\<close>

fun pieces :: "char \<Rightarrow> string \<Rightarrow> string list" where
  "pieces d [] = [[]]"
| "pieces d (c # cs) =
     (if c = d then [] # pieces d cs
      else (case pieces d cs of [] \<Rightarrow> [[c]] | f # fs \<Rightarrow> (c # f) # fs))"

fun join :: "char \<Rightarrow> string list \<Rightarrow> string" where
  "join d [] = []"
| "join d [t] = t"
| "join d (t # ts) = t @ d # join d ts"

lemma pieces_not_Nil [simp]: "pieces d s \<noteq> []"
  by (induction s) (auto split: list.splits)

lemma join_Cons: "ts \<noteq> [] \<Longrightarrow> join d (t # ts) = t @ d # join d ts"
  by (cases ts) auto

lemma join_pieces: "join d (pieces d s) = s"
proof (induction s)
  case (Cons c cs)
  then show ?case
    by (cases "pieces d cs"; cases "tl (pieces d cs)") (auto simp: join_Cons)
qed simp

lemma length_pieces: "length (pieces d s) = count_list s d + 1"
proof (induction s)
  case (Cons c cs)
  then show ?case by (cases "pieces d cs") auto
qed simp

lemma pieces_no_delim: "t \<in> set (pieces d s) \<Longrightarrow> d \<notin> set t"
proof (induction s arbitrary: t)
  case (Cons c cs)
  then show ?case by (cases "pieces d cs") (auto split: if_splits)
qed simp

lemma pieces_takeWhile:
  "pieces d s = takeWhile (\<lambda>c. c \<noteq> d) s #
     (case dropWhile (\<lambda>c. c \<noteq> d) s of [] \<Rightarrow> [] | x # r \<Rightarrow> pieces d r)"
  by (induction s) (auto split: list.splits)

lemma pieces_append:
  "d \<notin> set t \<Longrightarrow> pieces d (t @ d # r) = t # pieces d r"
  by (induction t) auto

lemma pieces_single: "d \<notin> set t \<Longrightarrow> pieces d t = [t]"
  by (induction t) auto

lemma pieces_join:
  "ts \<noteq> [] \<Longrightarrow> \<forall>t\<in>set ts. d \<notin> set t \<Longrightarrow> pieces d (join d ts) = ts"
  by (induction d ts rule: join.induct) (auto simp: pieces_append pieces_single)

lemma filter_pieces_dropWhile:
  "filter (\<lambda>t. t \<noteq> []) (pieces d (dropWhile (\<lambda>c. c = d) s)) = filter (\<lambda>t. t \<noteq> []) (pieces d s)"
  by (induction s) auto

lemma filter_pieces_tl:
  "filter (\<lambda>t. t \<noteq> []) (case ys of [] \<Rightarrow> [] | y # r \<Rightarrow> pieces d r) =
   filter (\<lambda>t. t \<noteq> []) (pieces d (tl ys))"
  by (cases ys) auto

lemma filter_pieces_strtok:
  "filter (\<lambda>t. t \<noteq> []) (pieces d s) =
     (case strtok d s of None \<Rightarrow> [] | Some (t, r) \<Rightarrow> t # filter (\<lambda>t. t \<noteq> []) (pieces d r))"
proof (cases "dropWhile (\<lambda>c. c = d) s")
  case Nil
  have "filter (\<lambda>t. t \<noteq> []) (pieces d s) = []"
    by (subst filter_pieces_dropWhile [symmetric]) (simp only: Nil pieces.simps filter.simps simp_thms if_False)
  with Nil show ?thesis by (simp add: strtok_def)
next
  case (Cons x xs)
  then have "x \<noteq> d" using dropWhile_hd [of "\<lambda>c. c = d" s] by simp
  have "filter (\<lambda>t. t \<noteq> []) (pieces d s) = filter (\<lambda>t. t \<noteq> []) (pieces d (x # xs))"
    using Cons by (subst filter_pieces_dropWhile [symmetric]) simp
  also have "\<dots> = (x # takeWhile (\<lambda>c. c \<noteq> d) xs) #
      filter (\<lambda>t. t \<noteq> []) (pieces d (tl (dropWhile (\<lambda>c. c \<noteq> d) xs)))"
    using \<open>x \<noteq> d\<close> by (subst pieces_takeWhile) (simp add: filter_pieces_tl)
  finally show ?thesis
    using Cons \<open>x \<noteq> d\<close> by (simp add: strtok_def)
qed

section \<open>Conversions\<close>

text \<open>\<open>int32\<close> is the conversion to a 32-bit two's complement \<open>int\<close>.\<close>

definition int32 :: "int \<Rightarrow> int" where
  "int32 x = signed_take_bit 31 x"

lemma int32_id: "- (2 ^ 31) \<le> x \<Longrightarrow> x < 2 ^ 31 \<Longrightarrow> int32 x = x"
  by (simp add: int32_def signed_take_bit_int_eq_self)

lemma int32_range: "- (2 ^ 31) \<le> int32 x \<and> int32 x < 2 ^ 31"
  unfolding int32_def
  using signed_take_bit_int_greater_eq_minus_exp [of 31 x] signed_take_bit_int_less_exp [of 31 x]
  by simp

definition isdigit :: "char \<Rightarrow> bool" where
  "isdigit c \<longleftrightarrow> 48 \<le> (of_char c :: nat) \<and> (of_char c :: nat) \<le> 57"

fun digits_value :: "int \<Rightarrow> string \<Rightarrow> int" where
  "digits_value acc [] = acc"
| "digits_value acc (c # cs) =
     (if isdigit c then digits_value (10 * acc + (int (of_char c) - 48)) cs else acc)"

text \<open>\<open>strtol\<close> in base 10: blanks, one sign, digits; the value is clamped to the range of \<open>long\<close>.\<close>

definition strtol10 :: "string \<Rightarrow> int" where
  "strtol10 s =
     (let s = dropWhile isspace s;
          v = (case s of
                 [] \<Rightarrow> 0
               | c # cs \<Rightarrow> if c = CHR ''-'' then - digits_value 0 cs
                           else if c = CHR ''+'' then digits_value 0 cs
                           else digits_value 0 s)
      in max (- (2 ^ 63)) (min (2 ^ 63 - 1) v))"

definition atoi :: "string \<Rightarrow> int" where
  "atoi s = int32 (strtol10 s)"

definition digit :: "nat \<Rightarrow> char" where
  "digit n = char_of (48 + n)"

fun show_nat :: "nat \<Rightarrow> string" where
  "show_nat n = (if n < 10 then [digit n] else show_nat (n div 10) @ [digit (n mod 10)])"

declare show_nat.simps [simp del]

definition show_int :: "int \<Rightarrow> string" where
  "show_int i = (if i < 0 then CHR ''-'' # show_nat (nat (- i)) else show_nat (nat i))"

text \<open>
  The \<open>%d\<close> of \<open>scanf\<close>: the value as \<open>strtol\<close> computes it, and the input after the digits.
\<close>

definition scan_int :: "string \<Rightarrow> (int \<times> string) option" where
  "scan_int s =
     (let s = dropWhile isspace s;
          t = (if s \<noteq> [] \<and> hd s \<in> {CHR ''-'', CHR ''+''} then tl s else s);
          ds = takeWhile isdigit t
      in if ds = [] then None else Some (atoi s, dropWhile isdigit t))"

text \<open>
  \<open>sscanf\<close> for formats of \<open>%d\<close>, blanks and ordinary characters: the values converted before the
  first character or number that does not match.
\<close>

function sscanf :: "string \<Rightarrow> string \<Rightarrow> int list" where
  "sscanf f s =
     (case f of
        [] \<Rightarrow> []
      | c # f' \<Rightarrow>
          if c = CHR ''%'' then
            (case scan_int s of None \<Rightarrow> [] | Some (v, r) \<Rightarrow> v # sscanf (tl f') r)
          else if isspace c then sscanf f' (dropWhile isspace s)
          else
            (case s of
               [] \<Rightarrow> []
             | x # r \<Rightarrow> if x = c then sscanf f' r else []))"
  by pat_completeness auto
termination
  by (relation "measure (\<lambda>(f, s). length f)") auto

declare sscanf.simps [simp del]

text \<open>The decimal digits of an IPv4 address, most significant octet first.\<close>

definition octet :: "nat \<Rightarrow> 32 word \<Rightarrow> nat" where
  "octet k a = unat (take_bit 8 (drop_bit k a))"

definition inet_ntoa :: "32 word \<Rightarrow> string" where
  "inet_ntoa a = show_nat (octet 24 a) @ ''.'' @ show_nat (octet 16 a) @ ''.'' @
     show_nat (octet 8 a) @ ''.'' @ show_nat (octet 0 a)"

lemma of_char_digit: "n < 10 \<Longrightarrow> (of_char (digit n) :: nat) = 48 + n"
  by (simp add: digit_def)

lemma isdigit_digit [simp]: "n < 10 \<Longrightarrow> isdigit (digit n)"
  by (simp add: isdigit_def of_char_digit)

lemma show_nat_digits: "c \<in> set (show_nat n) \<Longrightarrow> isdigit c"
proof (induction n rule: show_nat.induct)
  case (1 n)
  then show ?case by (subst (asm) (2) show_nat.simps) (auto split: if_splits)
qed

lemma show_nat_not_Nil [simp]: "show_nat n \<noteq> []"
  by (subst show_nat.simps) simp

lemma isdigit_not_space: "isdigit c \<Longrightarrow> \<not> isspace c"
  by (auto simp: isdigit_def isspace_def)

lemma isdigit_neq: "isdigit c \<Longrightarrow> c \<noteq> CHR ''-'' \<and> c \<noteq> CHR ''+'' \<and> c \<noteq> CHR '','' \<and> c \<noteq> CHR ''.''
    \<and> c \<noteq> NUL \<and> c \<noteq> SP \<and> c \<noteq> LF \<and> c \<noteq> CR"
  by (auto simp: isdigit_def)

lemma digits_value_append:
  "\<forall>c\<in>set s. isdigit c \<Longrightarrow> digits_value acc (s @ t) = digits_value (digits_value acc s) t"
  by (induction s arbitrary: acc) auto

lemma digits_value_show_nat: "digits_value 0 (show_nat n) = int n"
proof (induction n rule: show_nat.induct)
  case (1 n)
  show ?case
  proof (cases "n < 10")
    case True
    then show ?thesis by (subst show_nat.simps) (simp add: of_char_digit)
  next
    case False
    have "digits_value 0 (show_nat n) =
        digits_value (digits_value 0 (show_nat (n div 10))) [digit (n mod 10)]"
      using False show_nat_digits by (subst show_nat.simps) (simp add: digits_value_append)
    also have "\<dots> = 10 * int (n div 10) + int (n mod 10)"
      using False 1 by (simp add: of_char_digit)
    also have "\<dots> = int n" by presburger
    finally show ?thesis .
  qed
qed

lemma atoi_show_nat:
  assumes "n < 2 ^ 31"
  shows "atoi (show_nat n) = int n"
proof -
  obtain c cs where s: "show_nat n = c # cs" by (cases "show_nat n") auto
  have d: "isdigit c" using show_nat_digits [of c n] s by simp
  have "strtol10 (show_nat n) = int n"
    using assms d digits_value_show_nat [of n] isdigit_neq [OF d] isdigit_not_space [OF d]
    by (simp add: strtol10_def s Let_def)
  then show ?thesis using assms by (simp add: atoi_def int32_id)
qed

text \<open>\<open>printf\<close> of glibc prints a NULL string argument as \<open>(null)\<close>.\<close>

definition percent_s :: "string option \<Rightarrow> string" where
  "percent_s s = (case s of None \<Rightarrow> ''(null)'' | Some s \<Rightarrow> s)"

section \<open>Addresses\<close>

text \<open>
  \<open>inet_pton(AF_INET, s, ...)\<close>: four numbers below 256 between dots, written without leading
  zeros.
\<close>

definition is_octet_text :: "string \<Rightarrow> bool" where
  "is_octet_text t \<longleftrightarrow>
     t \<noteq> [] \<and> list_all isdigit t \<and> (hd t = CHR ''0'' \<longrightarrow> length t = 1) \<and> digits_value 0 t \<le> 255"

definition inet_pton :: "string \<Rightarrow> 32 word option" where
  "inet_pton s =
     (let ps = pieces CHR ''.'' s
      in if length ps = 4 \<and> list_all is_octet_text ps
         then (let v = map (digits_value 0) ps
               in Some (word_of_int (v ! 0 * 2 ^ 24 + v ! 1 * 2 ^ 16 + v ! 2 * 2 ^ 8 + v ! 3)))
         else None)"

end
