(* ===== verification/Utils.thy ===== *)
theory Utils
  imports CLib
begin

text \<open>
  \<open>src/utils.c\<close>: case conversion, the two-octet form of port numbers, the comma form of
  addresses, and trimming.  The functions that work in place return the new contents.
\<close>

section \<open>Definitions\<close>

definition touppercase :: "string \<Rightarrow> string" where
  "touppercase str =
     map (\<lambda>c. if of_char (CHR ''a'') \<le> (of_char c :: nat) \<and> (of_char c :: nat) \<le> of_char (CHR ''z'')
              then char_of (of_char c - 32 :: nat) else c) str"

text \<open>
  The argument is \<open>None\<close> for a NULL array.  The sum stays below \<open>2 ^ 16\<close>, so no wrap-around
  is involved.
\<close>

definition merge_port :: "(int \<times> int) option \<Rightarrow> int" where
  "merge_port ports =
     (case ports of
        None \<Rightarrow> -1
      | Some (p0, p1) \<Rightarrow>
          if p0 < 0 \<or> p0 > 255 \<or> p1 < 0 \<or> p1 > 255 then -1 else p0 * 256 + p1)"

text \<open>
  \<open>alloc\<close> says whether \<open>malloc\<close> succeeds.  The port is not negative where it is divided, so
  truncating and flooring division agree.
\<close>

definition split_port :: "bool \<Rightarrow> int \<Rightarrow> (int \<times> int) option" where
  "split_port alloc port =
     (if port < 0 \<or> port > 65535 then None
      else if \<not> alloc then None
      else Some (port div 256, port mod 256))"

definition replace_dots_with_commas :: "string \<Rightarrow> string" where
  "replace_dots_with_commas s = map (\<lambda>c. if c = CHR ''.'' then CHR '','' else c) s"

fun trim_start :: "string \<Rightarrow> string" where
  "trim_start [] = []"
| "trim_start (c # cs) = (if isspace c then trim_start cs else c # cs)"

text \<open>The loop from the end stops at the first character (\<open>end > start\<close>).\<close>

function trim_end :: "string \<Rightarrow> string" where
  "trim_end s = (if length s > 1 \<and> isspace (last s) then trim_end (butlast s) else s)"
  by pat_completeness auto
termination
  by (relation "measure length") auto

declare trim_end.simps [simp del]

definition trim :: "string \<Rightarrow> string" where
  "trim str =
     (if str = [] then str
      else let start = trim_start str
           in if start = [] then [] else trim_end start)"

section \<open>Ports\<close>

lemma merge_port_range: "-1 \<le> merge_port p \<and> merge_port p \<le> 65535"
  by (auto simp: merge_port_def split: option.splits)

lemma split_port_octets:
  "split_port a port = Some (p0, p1) \<Longrightarrow> 0 \<le> p0 \<and> p0 \<le> 255 \<and> 0 \<le> p1 \<and> p1 \<le> 255"
  by (auto simp: split_port_def split: if_splits)

lemma merge_split_port:
  "0 \<le> port \<Longrightarrow> port \<le> 65535 \<Longrightarrow> merge_port (split_port True port) = port"
  by (simp add: merge_port_def split_port_def) presburger

lemma split_merge_port:
  "0 \<le> p0 \<Longrightarrow> p0 \<le> 255 \<Longrightarrow> 0 \<le> p1 \<Longrightarrow> p1 \<le> 255 \<Longrightarrow>
   split_port True (merge_port (Some (p0, p1))) = Some (p0, p1)"
  by (simp add: merge_port_def split_port_def)

section \<open>Case conversion\<close>

definition upper_char :: "char \<Rightarrow> bool" where
  "upper_char c \<longleftrightarrow> \<not> (97 \<le> (of_char c :: nat) \<and> (of_char c :: nat) \<le> 122)"

lemma touppercase_length [simp]: "length (touppercase s) = length s"
  by (simp add: touppercase_def)

lemma touppercase_upper: "\<forall>c\<in>set (touppercase s). upper_char c"
  by (auto simp: touppercase_def upper_char_def)

lemma touppercase_id: "\<forall>c\<in>set s. upper_char c \<Longrightarrow> touppercase s = s"
  by (auto simp: touppercase_def upper_char_def intro!: map_idI)

lemma touppercase_idem: "touppercase (touppercase s) = touppercase s"
  by (rule touppercase_id) (rule touppercase_upper)

section \<open>Trimming\<close>

lemma trim_start_dropWhile: "trim_start s = dropWhile isspace s"
  by (induction s) auto

lemma trim_end_snoc: "trim_end (s @ [c]) = (if s \<noteq> [] \<and> isspace c then trim_end s else s @ [c])"
  by (subst trim_end.simps) (cases s, auto)

lemma trim_end_prefix: "prefix (trim_end s) s"
proof (induction s rule: rev_induct)
  case (snoc c s)
  then show ?case by (auto simp: trim_end_snoc)
qed (subst trim_end.simps, simp)

lemma trim_end_ne: "s \<noteq> [] \<Longrightarrow> trim_end s \<noteq> [] \<and> hd (trim_end s) = hd s"
  by (induction s rule: rev_induct) (auto simp: trim_end_snoc hd_append)

lemma trim_end_last:
  "s \<noteq> [] \<Longrightarrow> \<not> isspace (hd s) \<Longrightarrow> \<not> isspace (last (trim_end s))"
  by (induction s rule: rev_induct) (auto simp: trim_end_snoc hd_append split: if_splits)

lemma trim_Nil_iff: "trim s = [] \<longleftrightarrow> (\<forall>c\<in>set s. isspace c)"
  by (auto simp: trim_def Let_def trim_start_dropWhile trim_end_ne dropWhile_eq_Nil_conv)

lemma trim_ends:
  assumes "trim s \<noteq> []"
  shows "\<not> isspace (hd (trim s)) \<and> \<not> isspace (last (trim s))"
proof -
  let ?t = "dropWhile isspace s"
  from assms have t: "trim s = trim_end ?t" "?t \<noteq> []"
    by (auto simp: trim_def Let_def trim_start_dropWhile split: if_splits)
  from dropWhile_hd [OF t(2)] trim_end_ne [OF t(2)] trim_end_last [OF t(2)] t(1)
  show ?thesis by simp
qed

lemma trim_id: "s \<noteq> [] \<Longrightarrow> \<not> isspace (hd s) \<Longrightarrow> \<not> isspace (last s) \<Longrightarrow> trim s = s"
  by (cases s) (auto simp: trim_def trim_end.simps)

lemma trim_idem: "trim (trim s) = trim s"
proof (cases "trim s = []")
  case True
  then show ?thesis by (simp add: trim_def)
next
  case False
  then show ?thesis by (intro trim_id) (auto dest: trim_ends)
qed

lemma trim_set: "set (trim s) \<subseteq> set s"
  by (auto simp: trim_def Let_def trim_start_dropWhile
      dest!: set_mono_prefix [OF trim_end_prefix, THEN subsetD] set_dropWhileD split: if_splits)

lemma trim_end_blanks: "s \<noteq> [] \<Longrightarrow> \<not> isspace (last s) \<Longrightarrow> \<forall>c\<in>set b. isspace c \<Longrightarrow>
    trim_end (s @ b) = s"
proof (induction b rule: rev_induct)
  case Nil
  then show ?case by (subst trim_end.simps) simp
next
  case (snoc c b)
  then show ?case using trim_end_snoc [of "s @ b" c] by simp
qed

lemma trim_append_blanks:
  assumes "s \<noteq> []" "\<not> isspace (hd s)" "\<not> isspace (last s)" "\<forall>c\<in>set b. isspace c"
  shows "trim (s @ b) = s"
proof -
  from assms obtain c cs where s: "s = c # cs" by (cases s) auto
  have "trim (s @ b) = trim_end (s @ b)" using s assms by (simp add: trim_def)
  also have "\<dots> = s" using assms by (intro trim_end_blanks)
  finally show ?thesis .
qed

lemma trim_end_split: "\<exists>b. s = trim_end s @ b \<and> list_all isspace b"
proof (induction s rule: rev_induct)
  case (snoc c s)
  then show ?case
    by (auto simp: trim_end_snoc) (metis append_assoc list_all_append list.pred_inject)
qed (simp add: trim_end.simps)

lemma trim_split: "\<exists>a b. s = a @ trim s @ b \<and> list_all isspace a \<and> list_all isspace b"
proof (cases "dropWhile isspace s = []")
  case True
  then have "trim s = []" by (auto simp: trim_def trim_start_dropWhile)
  then show ?thesis using True by (intro exI [of _ s] exI [of _ "[]"]) (simp add: list_all_iff)
next
  case False
  then have "s \<noteq> []" by auto
  have t: "trim s = trim_end (dropWhile isspace s)"
    using False \<open>s \<noteq> []\<close> by (simp only: trim_def trim_start_dropWhile Let_def if_False)
  obtain b where b: "dropWhile isspace s = trim s @ b" "list_all isspace b"
    using trim_end_split [of "dropWhile isspace s"] unfolding t by blast
  have "s = takeWhile isspace s @ dropWhile isspace s" by simp
  moreover have "list_all isspace (takeWhile isspace s)" by (auto simp: list_all_iff dest: set_takeWhileD)
  ultimately show ?thesis using b by (metis)
qed

section \<open>In short\<close>

text \<open>The two-octet form of a port is exact in both directions.  Every port splits
  into two octets that merge back to it, two octets merge to the port that splits into them, and
  anything that is not two octets is rejected with -1.\<close>

lemma port_octets_roundtrip:
  "merge_port (split_port True port) = (if 0 \<le> port \<and> port \<le> 65535 then port else -1) \<and>
   split_port True (merge_port (Some (p0, p1))) =
     (if p0 \<in> {0..255} \<and> p1 \<in> {0..255} then Some (p0, p1) else None)"
  using merge_split_port [of port] split_merge_port [of p0 p1]
  by (auto simp: split_port_def merge_port_def)

text \<open>Trimming takes blanks from both ends and nothing else, and leaves no blank at
  either end; a line of blanks becomes empty.\<close>

lemma trim_takes_blanks:
  "(\<exists>a b. s = a @ trim s @ b \<and> list_all isspace a \<and> list_all isspace b) \<and>
   (trim s = [] \<longleftrightarrow> list_all isspace s) \<and> trim (trim s) = trim s"
proof (intro conjI)
  show "\<exists>a b. s = a @ trim s @ b \<and> list_all isspace a \<and> list_all isspace b"
    by (rule trim_split)
  show "trim s = [] \<longleftrightarrow> list_all isspace s" by (simp add: trim_Nil_iff list_all_iff)
  show "trim (trim s) = trim s" by (rule trim_idem)
qed

end
