(* ===== verification/Command_Parser.thy ===== *)
theory Command_Parser
  imports Utils
begin

text \<open>
  \<open>src/command_parser.c\<close>: from the text of a line to a \<open>command_t\<close>.  The token array is
  modelled as the memory it is: \<open>malloc\<close> returns cells that hold nothing (\<open>None\<close>) until a
  pointer is stored, and reading such a cell is the fault \<open>Uninit_read\<close>.
\<close>

section \<open>Definitions\<close>

text \<open>
  The places the program calls \<open>malloc\<close> and tests the result.  Which of them succeed is up to
  the environment.
\<close>

datatype alloc_site =
    Alloc_command | Alloc_tokens | Alloc_data_socket | Alloc_address | Alloc_host_port
  | Alloc_ports | Alloc_client_addr | Alloc_client | Alloc_filename

text \<open>\<open>argv\<close> holds the pointers before the closing NULL, so \<open>argv[argc]\<close> is NULL.\<close>

record command_t =
  name :: string
  argc :: int
  argv :: "string list"

definition count_args :: "string \<Rightarrow> nat" where
  "count_args buffer = count_list buffer SP + 1"

text \<open>The loop over \<open>strtok\<close>: the tokens in the order they are stored.\<close>

function strtok_loop :: "string \<Rightarrow> string list" where
  "strtok_loop s =
     (case strtok SP s of None \<Rightarrow> [] | Some (token, rest) \<Rightarrow> token # strtok_loop rest)"
  by pat_completeness auto
termination
  by (relation "measure length") (auto dest: strtok_decr)

declare strtok_loop.simps [simp del]

text \<open>
  The \<open>token_count + 1\<close> cells of the array after the loop stored its tokens at 0, 1, \<dots>.
\<close>

definition store_tokens :: "string list \<Rightarrow> nat \<Rightarrow> string option list result" where
  "store_tokens tokens cells =
     (if length tokens > cells then Inl Out_of_bounds
      else Inr (map Some tokens @ replicate (cells - length tokens) None))"

definition read_cell :: "string option list \<Rightarrow> nat \<Rightarrow> string result" where
  "read_cell a i =
     (if i \<ge> length a then Inl Out_of_bounds
      else case a ! i of None \<Rightarrow> Inl Uninit_read | Some t \<Rightarrow> Inr t)"

text \<open>
  \<open>if (t[strlen(t) - 1] == c) t[strlen(t) - 1] = '\0'\<close> on the token in cell \<open>i\<close>.
\<close>

definition strip_char :: "char \<Rightarrow> nat \<Rightarrow> string option list \<Rightarrow> string option list result" where
  "strip_char c i a =
     (case read_cell a i of
        Inl e \<Rightarrow> Inl e
      | Inr t \<Rightarrow>
          if t = [] then Inl Out_of_bounds
          else if last t = c then Inr (a[i := Some (butlast t)])
          else Inr a)"

text \<open>
  The result is the array up to the closing NULL, \<open>None\<close> for a NULL result.
\<close>

definition tokenize_buffer :: "(alloc_site \<Rightarrow> bool) \<Rightarrow> string \<Rightarrow> nat \<Rightarrow>
    string option list option result" where
  "tokenize_buffer alloc buffer token_count =
     (if \<not> alloc Alloc_tokens then Inr None
      else case store_tokens (strtok_loop buffer) (token_count + 1) of
        Inl e \<Rightarrow> Inl e
      | Inr tokens \<Rightarrow>
          (case strip_char CR (token_count - 1) tokens of
             Inl e \<Rightarrow> Inl e
           | Inr tokens \<Rightarrow>
               (case strip_char LF (token_count - 1) tokens of
                  Inl e \<Rightarrow> Inl e
                | Inr tokens \<Rightarrow> Inr (Some (take token_count tokens)))))"

text \<open>
  \<open>command->name = tokens[0]\<close> and \<open>command->argv = tokens + 1\<close>.  Every cell before the NULL
  is read when the command is executed or destroyed, so a cell that was never written is a
  fault here.
\<close>

definition setup_command :: "string option list \<Rightarrow> nat \<Rightarrow> command_t result" where
  "setup_command tokens token_count =
     (if None \<in> set tokens then Inl Uninit_read
      else case map the tokens of
        [] \<Rightarrow> Inl Out_of_bounds
      | t # ts \<Rightarrow> Inr \<lparr>name = t, argc = int token_count - 1, argv = ts\<rparr>)"

definition parse_buffer :: "(alloc_site \<Rightarrow> bool) \<Rightarrow> string \<Rightarrow> command_t option result" where
  "parse_buffer alloc buffer =
     (if \<not> alloc Alloc_command then Inr None
      else let buffer = trim buffer
           in if buffer = [] then Inr None
              else let token_count = count_args buffer
                   in case tokenize_buffer alloc buffer token_count of
                        Inl e \<Rightarrow> Inl e
                      | Inr None \<Rightarrow> Inr None
                      | Inr (Some tokens) \<Rightarrow>
                          (case setup_command tokens token_count of
                             Inl e \<Rightarrow> Inl e
                           | Inr command \<Rightarrow> Inr (Some command)))"

section \<open>The tokens\<close>

text \<open>The loop gives the non-empty pieces of the buffer, never more of them than cells.\<close>

lemma strtok_loop_pieces: "strtok_loop s = filter (\<lambda>t. t \<noteq> []) (pieces SP s)"
proof (induction s rule: strtok_loop.induct)
  case (1 s)
  then show ?case
    by (subst strtok_loop.simps, subst filter_pieces_strtok) (auto split: option.splits)
qed

lemma count_args_pieces: "count_args s = length (pieces SP s)"
  by (simp add: count_args_def length_pieces)

lemma strtok_loop_length: "length (strtok_loop s) \<le> count_args s"
  by (simp add: strtok_loop_pieces count_args_pieces)

text \<open>
  A blank field is two spaces in a row (or a space at an end, which trimming excludes).
\<close>

definition single_spaced :: "string \<Rightarrow> bool" where
  "single_spaced s \<longleftrightarrow> [] \<notin> set (pieces SP s)"

lemma single_spaced_loop: "single_spaced s \<longleftrightarrow> length (strtok_loop s) = count_args s"
proof -
  have "length (filter (\<lambda>t. t \<noteq> []) ts) = length ts \<longleftrightarrow> [] \<notin> set ts" for ts :: "string list"
    by (metis (mono_tags, lifting) filter_True filter_id_conv length_filter_less less_irrefl)
  then show ?thesis by (simp add: single_spaced_def strtok_loop_pieces count_args_pieces)
qed

lemma single_spaced_tokens: "single_spaced s \<Longrightarrow> strtok_loop s = pieces SP s"
  by (auto simp: single_spaced_def strtok_loop_pieces intro!: filter_True)

lemma blank_piece_tl:
  "[] \<in> set (tl (pieces SP s)) \<longleftrightarrow> (s \<noteq> [] \<and> last s = SP) \<or> sublist [SP, SP] s"
proof (induction s)
  case (Cons c cs)
  have hd: "hd (pieces SP cs) = [] \<longleftrightarrow> cs = [] \<or> hd cs = SP"
    by (subst pieces_takeWhile) (auto simp: takeWhile_eq_Nil_iff)
  show ?case
  proof (cases "c = SP")
    case True
    have "[] \<in> set (pieces SP cs) \<longleftrightarrow> hd (pieces SP cs) = [] \<or> [] \<in> set (tl (pieces SP cs))"
      by (cases "pieces SP cs") auto
    with True hd Cons show ?thesis
      by (cases cs) (auto simp: sublist_Cons_right)
  next
    case False
    then have "tl (pieces SP (c # cs)) = tl (pieces SP cs)"
      by (cases "pieces SP cs") auto
    with False Cons show ?thesis by (auto simp: sublist_Cons_right)
  qed
qed simp

lemma single_spaced_iff:
  assumes "s \<noteq> []" "hd s \<noteq> SP" "last s \<noteq> SP"
  shows "single_spaced s \<longleftrightarrow> \<not> sublist [SP, SP] s"
proof -
  have "pieces SP s = hd (pieces SP s) # tl (pieces SP s)" by simp
  moreover have "hd (pieces SP s) \<noteq> []"
    using assms by (subst pieces_takeWhile) (cases s, auto)
  ultimately show ?thesis
    using blank_piece_tl [of s] assms unfolding single_spaced_def by (metis set_ConsD list.set_intros(2))
qed

section \<open>What the parser does\<close>

lemma last_piece_ne: "single_spaced s \<Longrightarrow> last (pieces SP s) \<noteq> []"
  unfolding single_spaced_def by (metis last_in_set pieces_not_Nil)

text \<open>A last token that ends in a visible character: the two strips change nothing.\<close>

lemma strip_char_other:
  assumes "i < length a" "a ! i = Some t" "t \<noteq> []" "last t \<noteq> c"
  shows "strip_char c i a = Inr a"
  using assms by (simp add: strip_char_def read_cell_def)

lemma last_piece_last:
  assumes "s \<noteq> []" "single_spaced s"
  shows "last (last (pieces SP s)) = last s"
proof -
  let ?ts = "pieces SP s"
  have "last ?ts \<noteq> []" by (rule last_piece_ne) fact
  moreover have "join SP ts \<noteq> [] \<and> last (join SP ts) = last (last ts)"
    if "ts \<noteq> []" "last ts \<noteq> []" for ts
    using that by (induction SP ts rule: join.induct) auto
  ultimately have "last (join SP ?ts) = last (last ?ts)" by simp
  then show ?thesis by (simp add: join_pieces)
qed

text \<open>
  On a trimmed, single-spaced buffer the tokens are its fields; the two carriage-return and
  line-feed tests never fire, because trimming has removed those characters.
\<close>

lemma tokenize_single_spaced:
  assumes alloc: "alloc Alloc_tokens" and s: "s \<noteq> []" "single_spaced s" "\<not> isspace (last s)"
  shows "tokenize_buffer alloc s (count_args s) = Inr (Some (map Some (pieces SP s)))"
proof -
  let ?ts = "pieces SP s" and ?n = "count_args s"
  let ?a = "map Some ?ts @ [None]"
  have n: "?n = length ?ts" by (rule count_args_pieces)
  have store: "store_tokens (strtok_loop s) (?n + 1) = Inr ?a"
    using s(2) n by (simp add: store_tokens_def single_spaced_tokens)
  have i: "?n - 1 < length ?ts" using n by (simp add: count_args_def)
  then have cell: "?a ! (?n - 1) = Some (last ?ts)"
    using n by (simp add: nth_append last_conv_nth)
  have ne: "last ?ts \<noteq> []" by (rule last_piece_ne) fact
  have "last (last ?ts) \<noteq> CR" "last (last ?ts) \<noteq> LF"
    using s last_piece_last [OF s(1,2)] by (auto simp: isspace_def)
  then have "strip_char CR (?n - 1) ?a = Inr ?a" "strip_char LF (?n - 1) ?a = Inr ?a"
    using i cell ne by (auto intro!: strip_char_other)
  with alloc store n show ?thesis by (simp add: tokenize_buffer_def)
qed

text \<open>Two spaces in a row: the last cell was never written when the strips read it.\<close>

lemma tokenize_double_spaced:
  assumes "alloc Alloc_tokens" "\<not> single_spaced s"
  shows "tokenize_buffer alloc s (count_args s) = Inl Uninit_read"
proof -
  let ?k = "length (strtok_loop s)" and ?n = "count_args s"
  have k: "?k < ?n"
    using assms(2) strtok_loop_length [of s] single_spaced_loop [of s] by simp
  let ?a = "map Some (strtok_loop s) @ replicate (?n + 1 - ?k) None"
  have "read_cell ?a (?n - 1) = Inl Uninit_read"
    using k by (auto simp: read_cell_def nth_append)
  with assms(1) k show ?thesis
    by (simp add: tokenize_buffer_def store_tokens_def strip_char_def)
qed

text \<open>Every outcome of the parser on every line, when \<open>malloc\<close> succeeds.\<close>

definition parsed :: "string \<Rightarrow> command_t" where
  "parsed s = \<lparr>name = hd (pieces SP s), argc = int (length (tl (pieces SP s))),
     argv = tl (pieces SP s)\<rparr>"

lemma parse_buffer_cases:
  assumes alloc: "alloc Alloc_command" "alloc Alloc_tokens"
  shows "parse_buffer alloc buffer =
    (if \<forall>c\<in>set buffer. isspace c then Inr None
     else if sublist [SP, SP] (trim buffer) then Inl Uninit_read
     else Inr (Some (parsed (trim buffer))))"
proof (cases "trim buffer = []")
  case True
  then show ?thesis using alloc trim_Nil_iff [of buffer] by (simp add: parse_buffer_def)
next
  case False
  let ?s = "trim buffer"
  from trim_ends [OF False] have ends: "hd ?s \<noteq> SP" "last ?s \<noteq> SP" "\<not> isspace (last ?s)"
    by (auto simp: isspace_def)
  have single: "single_spaced ?s \<longleftrightarrow> \<not> sublist [SP, SP] ?s"
    using single_spaced_iff [OF False ends(1,2)] .
  show ?thesis
  proof (cases "single_spaced ?s")
    case True
    have "setup_command (map Some (pieces SP ?s)) (count_args ?s) = Inr (parsed ?s)"
      using pieces_not_Nil [of SP ?s]
      by (cases "pieces SP ?s") (auto simp: setup_command_def parsed_def count_args_pieces comp_def)
    with True False single alloc ends(3) show ?thesis
      by (simp add: parse_buffer_def tokenize_single_spaced trim_Nil_iff [symmetric])
  next
    case F: False
    with False single alloc show ?thesis
      by (simp add: parse_buffer_def tokenize_double_spaced trim_Nil_iff [symmetric])
  qed
qed

lemma parse_buffer_outcome_cases:
  "parse_buffer alloc buffer =
    (if \<not> alloc Alloc_command \<or> trim buffer = [] \<or> \<not> alloc Alloc_tokens then Inr None
     else if single_spaced (trim buffer) then Inr (Some (parsed (trim buffer)))
     else Inl Uninit_read)"
proof (cases "alloc Alloc_command \<and> trim buffer \<noteq> [] \<and> alloc Alloc_tokens")
  case True
  then have "hd (trim buffer) \<noteq> SP" "last (trim buffer) \<noteq> SP"
    using trim_ends [of buffer] by (auto simp: isspace_def)
  with True show ?thesis
    by (simp add: parse_buffer_cases single_spaced_iff trim_Nil_iff [symmetric])
next
  case False
  then show ?thesis by (auto simp: parse_buffer_def tokenize_buffer_def Let_def)
qed

text \<open>What a handler may rely on: \<open>argc\<close> is the number of arguments and none of them is empty.\<close>

definition wf_command :: "command_t \<Rightarrow> bool" where
  "wf_command cmd \<longleftrightarrow>
     argc cmd = int (length (argv cmd)) \<and> name cmd \<noteq> [] \<and> [] \<notin> set (argv cmd) \<and>
     (\<forall>t\<in>set (name cmd # argv cmd). SP \<notin> set t)"

lemma parsed_wf:
  assumes "single_spaced s"
  shows "wf_command (parsed s)"
proof -
  have "[] \<notin> set (pieces SP s)" using assms by (simp add: single_spaced_def)
  moreover have "set (pieces SP s) = insert (hd (pieces SP s)) (set (tl (pieces SP s)))"
    by (cases "pieces SP s") auto
  ultimately show ?thesis
    using pieces_no_delim [of _ SP s] by (auto simp: wf_command_def parsed_def)
qed

lemma parse_buffer_cases_wf:
  assumes "parse_buffer alloc buffer = Inr (Some cmd)"
  shows "wf_command cmd"
  using assms by (auto simp: parse_buffer_outcome_cases parsed_wf split: if_splits)

text \<open>Printing a command and parsing it gives it back.\<close>

definition print_command :: "command_t \<Rightarrow> string" where
  "print_command cmd = join SP (name cmd # argv cmd) @ crlf"

lemma parsed_join: "wf_command cmd \<Longrightarrow> parsed (join SP (name cmd # argv cmd)) = cmd"
  by (simp add: parsed_def wf_command_def pieces_join)

lemma hd_join: "t \<noteq> [] \<Longrightarrow> hd (join d (t # ts)) = hd t"
  by (cases ts) auto

lemma join_ne: "t \<noteq> [] \<Longrightarrow> join d (t # ts) \<noteq> []"
  by (cases ts) auto

lemma parse_line:
  assumes alloc: "alloc Alloc_command" "alloc Alloc_tokens"
    and wf: "wf_command cmd" and blanks: "\<forall>t\<in>set (name cmd # argv cmd). \<forall>c\<in>set t. \<not> isspace c"
    and b: "\<forall>c\<in>set b. isspace c"
  shows "parse_buffer alloc (join SP (name cmd # argv cmd) @ b) = Inr (Some cmd)"
proof -
  let ?ts = "name cmd # argv cmd" and ?s = "join SP (name cmd # argv cmd)"
  have ts: "[] \<notin> set ?ts" using wf by (auto simp: wf_command_def)
  have ne: "?s \<noteq> []" using ts by (intro join_ne) auto
  have pieces: "pieces SP ?s = ?ts" using wf by (intro pieces_join) (auto simp: wf_command_def)
  then have single: "single_spaced ?s" using ts by (simp add: single_spaced_def)
  have "hd ?s = hd (name cmd)" using ts by (intro hd_join) auto
  then have hd: "\<not> isspace (hd ?s)" using blanks ts by (cases "name cmd") auto
  have "last ?s = last (last ?ts)" using last_piece_last [OF ne single] pieces by simp
  moreover have "last ?ts \<in> set ?ts" by (rule last_in_set) simp
  moreover from this have "last ?ts \<noteq> []" using ts by metis
  ultimately have last: "\<not> isspace (last ?s)" using blanks by (metis last_in_set)
  have trim: "trim (?s @ b) = ?s" using ne hd last b by (intro trim_append_blanks) auto
  have "hd ?s \<noteq> SP" "last ?s \<noteq> SP" using hd last by (auto simp: isspace_def)
  then have "\<not> sublist [SP, SP] ?s" using single single_spaced_iff [OF ne] by simp
  moreover have "\<not> (\<forall>c\<in>set (?s @ b). isspace c)"
    using trim ne trim_Nil_iff [of "?s @ b"] by simp
  ultimately show ?thesis
    using alloc wf by (simp add: parse_buffer_cases trim parsed_join)
qed

lemmas parse_print = parse_line [where b = crlf, folded print_command_def]

section \<open>Properties\<close>

text \<open>Property C7: every outcome of the parser.  Blank lines and failing allocations give NULL.
  A line with two spaces in a row between its ends makes the code read a token pointer it never
  wrote.  Every other line becomes the command whose name and arguments are its pieces between
  spaces; carriage return and line feed at the end are never part of them.\<close>

theorem parse_buffer_outcome:
  "parse_buffer alloc buffer =
     (if alloc Alloc_command \<and> alloc Alloc_tokens \<and> \<not> list_all isspace buffer then
        (if sublist [SP, SP] (trim buffer) then Inl Uninit_read
         else Inr (Some (parsed (trim buffer))))
      else Inr None)"
proof (cases "alloc Alloc_command \<and> alloc Alloc_tokens")
  case True
  then show ?thesis by (auto simp: parse_buffer_cases list_all_iff)
next
  case False
  then show ?thesis
    by (auto simp: parse_buffer_def tokenize_buffer_def trim_Nil_iff list_all_iff Let_def)
qed

text \<open>a command written on a line, as the protocol documents it, parses to itself.\<close>

lemma parse_print_roundtrip:
  assumes "alloc Alloc_command" "alloc Alloc_tokens" "wf_command cmd"
    and "list_all (list_all (\<lambda>c. \<not> isspace c)) (name cmd # argv cmd)"
  shows "parse_buffer alloc (print_command cmd) = Inr (Some cmd)"
  using assms by (intro parse_print) (auto simp: list_all_iff isspace_def)

lemma parse_print_roundtrip_witness:
  "parse_buffer (\<lambda>_. True) (print_command \<lparr>name = ''USER'', argc = 1, argv = [''anonymous'']\<rparr>) =
     Inr (Some \<lparr>name = ''USER'', argc = 1, argv = [''anonymous'']\<rparr>)"
  by (rule parse_print_roundtrip) (simp_all add: wf_command_def isspace_def)

text \<open>Property C36: what a handler may rely on.  A parsed command has as many arguments as \<open>argc\<close>
  says, no empty name or argument, and no space in them.\<close>

theorem parse_buffer_wf:
  assumes "parse_buffer alloc buffer = Inr (Some cmd)"
  shows "wf_command cmd"
  using assms by (rule parse_buffer_cases_wf)

theorem parse_buffer_wf_witness:
  "wf_command \<lparr>name = ''PASS'', argc = 0, argv = []\<rparr>"
proof (rule parse_buffer_wf)
  show "parse_buffer (\<lambda>_. True) (''PASS'' @ crlf) = Inr (Some \<lparr>name = ''PASS'', argc = 0, argv = []\<rparr>)"
    using parse_print [of "\<lambda>_. True" "\<lparr>name = ''PASS'', argc = 0, argv = []\<rparr>"]
    by (simp add: print_command_def wf_command_def isspace_def)
qed

end
