(* ===== verification/Filesys.thy ===== *)
theory Filesys
  imports CLib
begin

text \<open>
  The part of the kernel the server talks to through path names.  A file system is an
  association list from absolute paths (lists of names, the root is \<open>[]\<close>) to nodes; path names
  are strings, resolved component by component against a working directory, with \<open>.\<close>, \<open>..\<close>
  and symbolic links, at most 40 of them as on Linux.  Permissions are those of the user the
  server runs as: read, write and (for directories) search.
\<close>

section \<open>Nodes and paths\<close>

type_synonym path = "string list"

datatype node =
    Dir bool bool bool     \<comment> \<open>readable, writable, searchable\<close>
  | File bool bool string  \<comment> \<open>readable, writable, contents\<close>
  | Link string            \<comment> \<open>target of a symbolic link\<close>

type_synonym filesys = "(path \<times> node) list"

abbreviation SLASH :: char where "SLASH \<equiv> CHR ''/''"

definition lookup :: "filesys \<Rightarrow> path \<Rightarrow> node option" where
  "lookup fs p = map_of fs p"

definition absolute :: "string \<Rightarrow> bool" where
  "absolute s \<longleftrightarrow> s \<noteq> [] \<and> hd s = SLASH"

text \<open>
  The components of a path name; repeated slashes count once, and a slash at the end stands for
  a final \<open>.\<close>, so that the name before it has to be a directory.
\<close>

definition names_of :: "string \<Rightarrow> string list" where
  "names_of s = filter (\<lambda>t. t \<noteq> []) (pieces SLASH s)"

definition components :: "string \<Rightarrow> string list" where
  "components s = names_of s @ (if s \<noteq> [] \<and> last s = SLASH then [''.''] else [])"

text \<open>
  A directory that was removed while a process was in it has no node; it can still be left with
  \<open>..\<close> and named with \<open>.\<close>, and holds no other name.
\<close>

definition searchable :: "filesys \<Rightarrow> path \<Rightarrow> bool" where
  "searchable fs p =
     (case lookup fs p of Some (Dir r w x) \<Rightarrow> x | Some _ \<Rightarrow> False | None \<Rightarrow> True)"

datatype walked =
    Found path    \<comment> \<open>an existing object\<close>
  | Missing path  \<comment> \<open>only the last name does not exist\<close>
  | Failed

fun walk :: "nat \<Rightarrow> filesys \<Rightarrow> path \<Rightarrow> string list \<Rightarrow> walked" where
  "walk n fs cur [] = Found cur"
| "walk n fs cur (c # cs) =
     (if \<not> searchable fs cur then Failed
      else if c = ''.'' then walk n fs cur cs
      else if c = ''..'' then walk n fs (butlast cur) cs
      else case lookup fs (cur @ [c]) of
             None \<Rightarrow> if cs = [] then Missing (cur @ [c]) else Failed
           | Some (Link t) \<Rightarrow>
               (case n of
                  0 \<Rightarrow> Failed
                | Suc m \<Rightarrow> walk m fs (if absolute t then [] else cur) (components t @ cs))
           | Some _ \<Rightarrow> walk n fs (cur @ [c]) cs)"

definition resolve :: "filesys \<Rightarrow> path \<Rightarrow> string \<Rightarrow> walked" where
  "resolve fs cwd s =
     (if s = [] then Failed
      else walk 40 fs (if absolute s then [] else cwd) (components s))"

fun string_of_path :: "path \<Rightarrow> string" where
  "string_of_path [] = [SLASH]"
| "string_of_path p = concat (map (\<lambda>c. SLASH # c) p)"

section \<open>The calls\<close>

text \<open>Each takes the file system and the working directory of the calling process.\<close>

definition fs_access :: "filesys \<Rightarrow> path \<Rightarrow> string \<Rightarrow> bool" where
  "fs_access fs cwd s = (case resolve fs cwd s of Found p \<Rightarrow> True | _ \<Rightarrow> False)"

definition readable :: "filesys \<Rightarrow> path \<Rightarrow> bool" where
  "readable fs p =
     (case lookup fs p of
        Some (Dir r w x) \<Rightarrow> r | Some (File r w d) \<Rightarrow> r | Some (Link t) \<Rightarrow> False | None \<Rightarrow> True)"

definition fs_access_read :: "filesys \<Rightarrow> path \<Rightarrow> string \<Rightarrow> bool" where
  "fs_access_read fs cwd s =
     (case resolve fs cwd s of Found p \<Rightarrow> readable fs p | _ \<Rightarrow> False)"

definition is_directory :: "filesys \<Rightarrow> path \<Rightarrow> bool" where
  "is_directory fs p =
     (case lookup fs p of Some (Dir r w x) \<Rightarrow> True | Some _ \<Rightarrow> False | None \<Rightarrow> True)"

definition fs_opendir :: "filesys \<Rightarrow> path \<Rightarrow> string \<Rightarrow> bool" where
  "fs_opendir fs cwd s =
     (case resolve fs cwd s of Found p \<Rightarrow> is_directory fs p \<and> readable fs p | _ \<Rightarrow> False)"

definition fs_chdir :: "filesys \<Rightarrow> path \<Rightarrow> string \<Rightarrow> path option" where
  "fs_chdir fs cwd s =
     (case resolve fs cwd s of
        Found p \<Rightarrow> if searchable fs p then Some p else None
      | _ \<Rightarrow> None)"

definition fs_getcwd :: "filesys \<Rightarrow> path \<Rightarrow> string option" where
  "fs_getcwd fs cwd =
     (case lookup fs cwd of Some (Dir r w x) \<Rightarrow> Some (string_of_path cwd) | _ \<Rightarrow> None)"

text \<open>
  \<open>fopen(s, "r")\<close>: the bytes the stream delivers.  Opening a directory for reading succeeds on
  Linux; reading from it fails, so the stream is at its end at once.
\<close>

definition fs_fopen_r :: "filesys \<Rightarrow> path \<Rightarrow> string \<Rightarrow> string option" where
  "fs_fopen_r fs cwd s =
     (case resolve fs cwd s of
        Found p \<Rightarrow>
          if \<not> readable fs p then None
          else (case lookup fs p of Some (File r w d) \<Rightarrow> Some d | _ \<Rightarrow> Some [])
      | _ \<Rightarrow> None)"

text \<open>\<open>fopen(s, "wb")\<close>: the file that will be written, and the file system with it emptied.\<close>

definition writable_dir :: "filesys \<Rightarrow> path \<Rightarrow> bool" where
  "writable_dir fs p = (case lookup fs p of Some (Dir r w x) \<Rightarrow> w \<and> x | _ \<Rightarrow> False)"

definition write_file :: "filesys \<Rightarrow> path \<Rightarrow> string \<Rightarrow> filesys" where
  "write_file fs p d =
     (case lookup fs p of
        Some (File r w old) \<Rightarrow> (p, File r w d) # fs
      | _ \<Rightarrow> (p, File True True d) # fs)"

definition fs_fopen_w :: "filesys \<Rightarrow> path \<Rightarrow> string \<Rightarrow> (path \<times> filesys) option" where
  "fs_fopen_w fs cwd s =
     (case resolve fs cwd s of
        Found p \<Rightarrow>
          (case lookup fs p of
             Some (File r w d) \<Rightarrow> if w then Some (p, write_file fs p []) else None
           | _ \<Rightarrow> None)
      | Missing p \<Rightarrow>
          if writable_dir fs (butlast p) then Some (p, write_file fs p []) else None
      | Failed \<Rightarrow> None)"

text \<open>
  \<open>remove(s)\<close>: unlinks a file or a symbolic link, and removes an empty directory.  The last name
  is not followed when it is a link.
\<close>

definition remove_node :: "filesys \<Rightarrow> path \<Rightarrow> filesys" where
  "remove_node fs p = filter (\<lambda>(q, n). q \<noteq> p) fs"

definition empty_dir :: "filesys \<Rightarrow> path \<Rightarrow> bool" where
  "empty_dir fs p \<longleftrightarrow> list_all (\<lambda>(q, n). \<not> strict_prefix p q) fs"

text \<open>
  The entry a name denotes, found from the working directory \<open>cwd\<close>, and whether it may be removed.
\<close>

definition entry_of :: "filesys \<Rightarrow> path \<Rightarrow> string \<Rightarrow> path option" where
  "entry_of fs cwd s =
     (let ns = names_of s
      in if ns = [] \<or> last ns \<in> {''.'', ''..''} then None
         else case walk 40 fs (if absolute s then [] else cwd) (butlast ns) of
                Found d \<Rightarrow> Some (d @ [last ns])
              | _ \<Rightarrow> None)"

definition removable :: "filesys \<Rightarrow> string \<Rightarrow> path \<Rightarrow> bool" where
  "removable fs s p \<longleftrightarrow>
     writable_dir fs (butlast p) \<and>
     (case lookup fs p of
        None \<Rightarrow> False
      | Some (Dir r w x) \<Rightarrow> empty_dir fs p
      | Some _ \<Rightarrow> last s \<noteq> SLASH)"

definition fs_remove :: "filesys \<Rightarrow> path \<Rightarrow> string \<Rightarrow> filesys option" where
  "fs_remove fs cwd s =
     (let ns = names_of s
      in if ns = [] \<or> last ns \<in> {''.'', ''..''} then None
         else case walk 40 fs (if absolute s then [] else cwd) (butlast ns) of
                Found d \<Rightarrow>
                  (let p = d @ [last ns]
                   in if \<not> writable_dir fs d then None
                      else case lookup fs p of
                             None \<Rightarrow> None
                           | Some (Dir r w x) \<Rightarrow>
                               if empty_dir fs p then Some (remove_node fs p) else None
                           | Some _ \<Rightarrow> if last s = SLASH then None else Some (remove_node fs p))
              | _ \<Rightarrow> None)"

section \<open>Names and canonical paths\<close>

definition valid_name :: "string \<Rightarrow> bool" where
  "valid_name c \<longleftrightarrow> c \<noteq> [] \<and> SLASH \<notin> set c \<and> NUL \<notin> set c \<and> c \<noteq> ''.'' \<and> c \<noteq> ''..''"

text \<open>All directories from the root to \<open>p\<close> exist, can be searched, and have proper names.\<close>

definition is_open_dir :: "filesys \<Rightarrow> path \<Rightarrow> bool" where
  "is_open_dir fs p = (case lookup fs p of Some (Dir r w x) \<Rightarrow> x | _ \<Rightarrow> False)"

definition dir_path :: "filesys \<Rightarrow> path \<Rightarrow> bool" where
  "dir_path fs p \<longleftrightarrow> list_all valid_name p \<and> list_all (is_open_dir fs) (prefixes p)"

lemma is_open_dirD: "is_open_dir fs p \<Longrightarrow> \<exists>r w. lookup fs p = Some (Dir r w True)"
  by (auto simp: is_open_dir_def split: option.splits node.splits)

lemma string_of_path_ne [simp]: "string_of_path p \<noteq> []"
  by (cases p) auto

lemma absolute_string_of_path [simp]: "absolute (string_of_path p)"
  by (cases p) (auto simp: absolute_def)

lemma names_of_Cons: "SLASH \<notin> set c \<Longrightarrow> c \<noteq> [] \<Longrightarrow>
    names_of (SLASH # c @ (if s = [] then [] else SLASH # s)) =
    c # (if s = [] then [] else names_of (SLASH # s))"
  by (simp add: names_of_def pieces_append pieces_single)

lemma names_of_concat:
  "list_all valid_name p \<Longrightarrow> names_of (concat (map (\<lambda>c. SLASH # c) p)) = p"
proof (induction p)
  case (Cons c p)
  then have "valid_name c" by simp
  then show ?case
    using Cons by (cases p) (simp_all add: valid_name_def names_of_def pieces_append pieces_single)
qed (simp add: names_of_def)

lemma components_string_of_path:
  assumes "list_all valid_name p" "p \<noteq> []"
  shows "components (string_of_path p) = p"
proof -
  obtain a q where p: "p = q @ [a]" using assms(2) by (cases p rule: rev_cases) auto
  have "valid_name a" using assms(1) p by simp
  then have "a \<noteq> []" "last a \<noteq> SLASH" by (auto simp: valid_name_def dest: last_in_set)
  then have "last (string_of_path p) \<noteq> SLASH"
    using p by (cases q) auto
  then show ?thesis
    using assms names_of_concat [of p] by (cases p) (auto simp: components_def)
qed

lemma walk_along:
  assumes "list_all valid_name q"
    and "\<And>i. i \<le> length q \<Longrightarrow> \<exists>r w. lookup fs (cur @ take i q) = Some (Dir r w True)"
  shows "walk n fs cur (q @ cs) = walk n fs (cur @ q) cs"
  using assms
proof (induction q arbitrary: cur)
  case (Cons c q)
  from Cons.prems(2) [of 0] have "searchable fs cur" by (auto simp: searchable_def)
  moreover from Cons.prems(2) [of 1] obtain r w where "lookup fs (cur @ [c]) = Some (Dir r w True)"
    by auto
  moreover have "walk n fs (cur @ [c]) (q @ cs) = walk n fs ((cur @ [c]) @ q) cs"
  proof (rule Cons.IH)
    show "\<exists>r w. lookup fs ((cur @ [c]) @ take i q) = Some (Dir r w True)" if "i \<le> length q" for i
      using Cons.prems(2) [of "Suc i"] that by simp
  qed (use Cons.prems(1) in simp)
  ultimately show ?case using Cons.prems(1) by (simp add: valid_name_def)
qed simp

lemma walk_down:
  assumes "list_all valid_name q"
    and "\<And>i. i \<le> length q \<Longrightarrow> \<exists>r w. lookup fs (cur @ take i q) = Some (Dir r w True)"
  shows "walk n fs cur q = Found (cur @ q)"
  using walk_along [OF assms, of n "[]"] by simp

lemma dir_path_take:
  assumes "dir_path fs p" "i \<le> length p"
  shows "\<exists>r w. lookup fs (take i p) = Some (Dir r w True)"
proof -
  have "take i p \<in> set (prefixes p)" by (simp add: take_is_prefix)
  then show ?thesis
    using assms(1) is_open_dirD unfolding dir_path_def list_all_iff by blast
qed

lemma resolve_canonical:
  assumes "dir_path fs p"
  shows "resolve fs cwd (string_of_path p) = Found p"
proof (cases "p = []")
  case True
  have "searchable fs []" using dir_path_take [OF assms, of 0] by (auto simp: searchable_def)
  with True show ?thesis
    by (simp add: resolve_def components_def names_of_def absolute_def)
next
  case False
  have "list_all valid_name p" using assms by (simp add: dir_path_def)
  moreover have "walk 40 fs [] p = Found ([] @ p)"
    using assms dir_path_take by (intro walk_down) (auto simp: dir_path_def)
  ultimately show ?thesis
    using False by (simp add: resolve_def components_string_of_path)
qed

text \<open>The path of a directory that has gone, below directories that are still there.\<close>

lemma chdir_gone:
  assumes "list_all valid_name (d @ [x])" "dir_path fs d" "lookup fs (d @ [x]) = None"
  shows "fs_chdir fs cwd (string_of_path (d @ [x])) = None"
proof -
  have "walk 40 fs [] (d @ [x]) = walk 40 fs ([] @ d) [x]"
    using assms(1,2) dir_path_take by (intro walk_along) auto
  also have "\<dots> = Missing (d @ [x])"
    using assms(1,3) dir_path_take [OF assms(2), of "length d"]
    by (auto simp: valid_name_def searchable_def)
  finally have "resolve fs cwd (string_of_path (d @ [x])) = Missing (d @ [x])"
    using assms(1) by (simp add: resolve_def components_string_of_path)
  then show ?thesis by (simp add: fs_chdir_def)
qed

text \<open>
  \<open>chdir\<close> to what \<open>getcwd\<close> returned leads back, from any working directory.
\<close>

lemma chdir_canonical: "dir_path fs p \<Longrightarrow> fs_chdir fs cwd (string_of_path p) = Some p"
  using dir_path_take [of fs p "length p"]
  by (auto simp: fs_chdir_def resolve_canonical searchable_def)

lemma getcwd_canonical: "dir_path fs p \<Longrightarrow> fs_getcwd fs p = Some (string_of_path p)"
  using dir_path_take [of fs p "length p"] by (auto simp: fs_getcwd_def)

lemma string_of_path_no_NUL: "list_all valid_name p \<Longrightarrow> NUL \<notin> set (string_of_path p)"
  by (cases p) (auto simp: list_all_iff valid_name_def)

section \<open>What the writing calls change\<close>

lemma lookup_write_file:
  "lookup (write_file fs p d) q =
     (if q = p then (case lookup fs p of
        Some (File r w old) \<Rightarrow> Some (File r w d) | _ \<Rightarrow> Some (File True True d))
      else lookup fs q)"
  by (auto simp: write_file_def lookup_def split: option.splits node.splits)

lemma lookup_remove_node: "lookup (remove_node fs p) q = (if q = p then None else lookup fs q)"
  by (induction fs) (auto simp: remove_node_def lookup_def)

text \<open>
  \<open>remove\<close> takes away exactly one node, from a directory that can be written, and no directory
  unless it is empty.
\<close>

lemma fs_remove_entry:
  "fs_remove fs cwd s =
     (case entry_of fs cwd s of
        None \<Rightarrow> None
      | Some p \<Rightarrow> if removable fs s p then Some (remove_node fs p) else None)"
  by (auto simp: fs_remove_def entry_of_def removable_def Let_def
      split: walked.splits option.splits node.splits)

lemma fs_remove_one:
  assumes "fs_remove fs cwd s = Some fs'"
  shows "\<exists>p. lookup fs p \<noteq> None \<and> fs' = remove_node fs p \<and>
    (is_directory fs p \<longrightarrow> empty_dir fs p) \<and> p \<noteq> [] \<and> writable_dir fs (butlast p)"
proof -
  from assms obtain d where d: "walk 40 fs (if absolute s then [] else cwd) (butlast (names_of s)) = Found d"
    by (auto simp: fs_remove_def Let_def split: if_splits walked.splits)
  let ?p = "d @ [last (names_of s)]"
  have "lookup fs ?p \<noteq> None \<and> fs' = remove_node fs ?p \<and> (is_directory fs ?p \<longrightarrow> empty_dir fs ?p) \<and>
      ?p \<noteq> [] \<and> writable_dir fs (butlast ?p)"
    using assms d
    by (auto simp: fs_remove_def Let_def is_directory_def
        split: if_splits option.splits node.splits)
  then show ?thesis ..
qed

section \<open>Directories that cannot go away\<close>

text \<open>
  A directory that is reached through directories the server cannot write cannot be removed or
  replaced by it, whatever a client asks for.
\<close>

definition root_safe :: "filesys \<Rightarrow> path \<Rightarrow> bool" where
  "root_safe fs p \<longleftrightarrow>
     dir_path fs p \<and> list_all (\<lambda>q. q = p \<or> \<not> writable_dir fs q) (prefixes p)"

lemma root_safe_cong:
  assumes "\<And>q. prefix q p \<Longrightarrow> lookup fs' q = lookup fs q"
  shows "root_safe fs' p = root_safe fs p"
proof -
  have "is_open_dir fs' q = is_open_dir fs q" "writable_dir fs' q = writable_dir fs q"
    if "q \<in> set (prefixes p)" for q
    using assms that by (simp_all add: is_open_dir_def writable_dir_def)
  then show ?thesis by (simp add: root_safe_def dir_path_def list_all_iff)
qed

lemma root_safe_not_writable:
  assumes "root_safe fs p" "prefix (q @ [x]) p"
  shows "\<not> writable_dir fs q"
proof -
  have "prefix q p" using assms(2) by (rule append_prefixD)
  moreover have "q \<noteq> p" using prefix_length_le [OF assms(2)] by auto
  ultimately show ?thesis using assms(1) by (auto simp: root_safe_def list_all_iff)
qed

lemma root_safe_dir:
  assumes "root_safe fs p" "prefix q p"
  shows "\<exists>r w. lookup fs q = Some (Dir r w True)"
proof -
  have "is_open_dir fs q" using assms by (simp add: root_safe_def dir_path_def list_all_iff)
  then show ?thesis by (rule is_open_dirD)
qed

lemma root_safe_remove:
  assumes "fs_remove fs cwd s = Some fs'" "root_safe fs p"
  shows "root_safe fs' p"
proof -
  from fs_remove_one [OF assms(1)] obtain q where q: "fs' = remove_node fs q" "q \<noteq> []"
    "writable_dir fs (butlast q)" by blast
  have "\<not> prefix q p"
    using root_safe_not_writable [OF assms(2), of "butlast q" "last q"] q by auto
  then have "root_safe fs' p = root_safe fs p"
    unfolding q(1) by (intro root_safe_cong) (auto simp: lookup_remove_node)
  with assms(2) show ?thesis by simp
qed

lemma root_safe_write_file:
  assumes "root_safe fs p" "lookup fs q = None \<or> (\<exists>r w d. lookup fs q = Some (File r w d))"
  shows "root_safe (write_file fs q d) p"
proof -
  have "\<not> prefix q p" using assms root_safe_dir by fastforce
  then have "root_safe (write_file fs q d) p = root_safe fs p"
    by (intro root_safe_cong) (auto simp: lookup_write_file)
  with assms(1) show ?thesis by simp
qed

lemma walk_Missing: "walk n fs cur cs = Missing p \<Longrightarrow> lookup fs p = None"
  by (induction n fs cur cs rule: walk.induct)
    (auto split: if_splits option.splits node.splits nat.splits)

lemma fs_fopen_w_target:
  assumes "fs_fopen_w fs cwd s = Some (p, fs')"
  shows "fs' = write_file fs p [] \<and>
    (lookup fs p = None \<or> (\<exists>r d. lookup fs p = Some (File r True d)))"
  using assms
  by (auto simp: fs_fopen_w_def resolve_def dest: walk_Missing
      split: walked.splits option.splits node.splits if_splits)

lemma root_safe_fopen_w:
  "fs_fopen_w fs cwd s = Some (q, fs') \<Longrightarrow> root_safe fs p \<Longrightarrow> root_safe fs' p"
  using fs_fopen_w_target [of fs cwd s q fs'] by (auto intro: root_safe_write_file)

end
