(* ===== verification/Line_IO.thy ===== *)
theory Line_IO
  imports CLib
begin

text \<open>
  Line input.  \<open>fgets\<close> and \<open>getline\<close> are modelled as one read from the bytes a stream still
  delivers: the bytes read and the bytes left, or \<open>None\<close> at the end of the stream.  The locale
  \<open>line_reader\<close> is what the transfer loops of the server rely on; both readers satisfy it.
\<close>

section \<open>The readers\<close>

fun take_line :: "nat \<Rightarrow> string \<Rightarrow> string" where
  "take_line 0 s = []"
| "take_line (Suc k) [] = []"
| "take_line (Suc k) (c # cs) = (if c = LF then [c] else c # take_line k cs)"

definition fgets :: "nat \<Rightarrow> string \<Rightarrow> (string \<times> string) option" where
  "fgets n s =
     (let l = take_line (n - 1) s in if l = [] then None else Some (l, drop (length l) s))"

definition getline :: "string \<Rightarrow> (string \<times> string) option" where
  "getline s =
     (let l = take_line (length s) s in if l = [] then None else Some (l, drop (length l) s))"

text \<open>
  The loop \<open>while (read(...)) use(...)\<close> of the program as the list of the pieces it uses.  The
  fuel bounds the iterations; \<open>read_lines_concat\<close> shows that the length of the input is enough.
\<close>

fun read_lines :: "(string \<Rightarrow> (string \<times> string) option) \<Rightarrow> nat \<Rightarrow> string \<Rightarrow> string list" where
  "read_lines next 0 s = []"
| "read_lines next (Suc n) s =
     (case next s of None \<Rightarrow> [] | Some (l, r) \<Rightarrow> l # read_lines next n r)"

lemma take_line_prefix: "prefix (take_line k s) s"
  by (induction k s rule: take_line.induct) auto

lemma take_line_Nil_iff: "take_line k s = [] \<longleftrightarrow> k = 0 \<or> s = []"
  by (induction k s rule: take_line.induct) auto

lemma take_line_split: "take_line k s @ drop (length (take_line k s)) s = s"
  using take_line_prefix [of k s] by (metis append_eq_conv_conj prefix_def)

lemma length_take_line: "length (take_line k s) \<le> k"
  by (induction k s rule: take_line.induct) auto

section \<open>The interface the transfer loops rely on\<close>

locale line_reader =
  fixes read_line :: "string \<Rightarrow> (string \<times> string) option"
  assumes at_eof: "read_line s = None \<longleftrightarrow> s = []"
    and piece: "read_line s = Some (l, r) \<Longrightarrow> l \<noteq> [] \<and> s = l @ r"
begin

text \<open>Enough fuel: the loop ends, and the pieces put together are the input.\<close>

lemma read_lines_concat: "length s \<le> n \<Longrightarrow> concat (read_lines read_line n s) = s"
proof (induction n arbitrary: s)
  case (Suc n)
  show ?case
  proof (cases "read_line s")
    case None
    then show ?thesis using at_eof [of s] by simp
  next
    case (Some lr)
    then obtain l r where "read_line s = Some (l, r)" by (cases lr) auto
    with piece [OF this] Suc show ?thesis by (cases l) auto
  qed
qed simp

lemma read_lines_fuel:
  "length s \<le> n \<Longrightarrow> length s \<le> m \<Longrightarrow> read_lines read_line n s = read_lines read_line m s"
proof (induction n arbitrary: s m)
  case 0
  then show ?case using at_eof [of "[]"] by (cases m) auto
next
  case (Suc n)
  show ?case
  proof (cases "read_line s")
    case None
    then show ?thesis by (cases m) auto
  next
    case (Some lr)
    then obtain l r where lr: "read_line s = Some (l, r)" by (cases lr) auto
    from piece [OF lr] Suc.prems obtain m' where m: "m = Suc m'" "length r \<le> n" "length r \<le> m'"
      by (cases m; cases l) auto
    then show ?thesis using Suc.IH [of r m'] lr by simp
  qed
qed

end

interpretation fgets_reader: line_reader "fgets 1024"
  by unfold_locales
    (auto simp: fgets_def Let_def take_line_Nil_iff take_line_split [symmetric] split: if_splits)

interpretation getline_reader: line_reader getline
  by unfold_locales
    (auto simp: getline_def Let_def take_line_Nil_iff take_line_split [symmetric] split: if_splits)

section \<open>Lines from a connection\<close>

text \<open>
  \<open>getline\<close> on the stream of a connection: it takes a line from what the stream has read
  ahead, reading packets from the socket until there is a line feed or the end.  With neither it
  does not return until the peer sends more.
\<close>

datatype line_input = Line string | At_eof | Would_block

fun stream_getline :: "string \<Rightarrow> string list \<Rightarrow> bool \<Rightarrow> line_input \<times> string \<times> string list" where
  "stream_getline buf chunks eof =
     (if LF \<in> set buf
      then (Line (takeWhile (\<lambda>c. c \<noteq> LF) buf @ [LF]), tl (dropWhile (\<lambda>c. c \<noteq> LF) buf), chunks)
      else case chunks of
             c # cs \<Rightarrow> stream_getline (buf @ c) cs eof
           | [] \<Rightarrow> if \<not> eof then (Would_block, buf, [])
                   else if buf = [] then (At_eof, [], [])
                   else (Line buf, [], []))"

declare stream_getline.simps [simp del]

text \<open>What \<open>getline\<close> returns and leaves, as functions of the bytes received so far.\<close>

definition line_of :: "string \<Rightarrow> bool \<Rightarrow> line_input" where
  "line_of s eof =
     (if LF \<in> set s then Line (takeWhile (\<lambda>c. c \<noteq> LF) s @ [LF])
      else if \<not> eof then Would_block
      else if s = [] then At_eof
      else Line s)"

definition rest_of :: "string \<Rightarrow> bool \<Rightarrow> string" where
  "rest_of s eof =
     (if LF \<in> set s then tl (dropWhile (\<lambda>c. c \<noteq> LF) s) else if \<not> eof then s else [])"

lemma takeWhile_LF: "LF \<in> set s \<Longrightarrow> takeWhile (\<lambda>c. c \<noteq> LF) (s @ t) = takeWhile (\<lambda>c. c \<noteq> LF) s"
  by (induction s) auto

lemma dropWhile_LF: "LF \<in> set s \<Longrightarrow> tl (dropWhile (\<lambda>c. c \<noteq> LF) (s @ t)) = tl (dropWhile (\<lambda>c. c \<noteq> LF) s) @ t"
  by (induction s) auto

lemma stream_getline_eq:
  "\<exists>rest cs. stream_getline buf chunks eof = (line_of (buf @ concat chunks) eof, rest, cs) \<and>
     rest @ concat cs = rest_of (buf @ concat chunks) eof"
proof (induction buf chunks eof rule: stream_getline.induct)
  case (1 buf chunks eof)
  show ?case
  proof (cases "LF \<in> set buf")
    case True
    then show ?thesis
      by (simp add: stream_getline.simps [of buf] line_of_def rest_of_def takeWhile_LF dropWhile_LF)
  next
    case False
    show ?thesis
    proof (cases chunks)
      case Nil
      with False show ?thesis
        by (auto simp: stream_getline.simps [of buf] line_of_def rest_of_def)
    next
      case (Cons c cs)
      with False 1 have "\<exists>rest cs'. stream_getline (buf @ c) cs eof =
          (line_of ((buf @ c) @ concat cs) eof, rest, cs') \<and>
          rest @ concat cs' = rest_of ((buf @ c) @ concat cs) eof" by simp
      with False Cons show ?thesis by (simp add: stream_getline.simps [of buf])
    qed
  qed
qed

end
