(* ===== verification/World.thy ===== *)
theory World
  imports Command_Parser Filesys Line_IO
begin

text \<open>
  The data types of \<open>include/myftp.h\<close>, the state of the process and of the part of the system it
  can see, and the system calls the handlers use.  What a call returns that the file system model
  does not determine (descriptors, connection attempts, \<open>fork\<close>, \<open>malloc\<close>, the output of \<open>ls\<close>,
  the bytes a peer sends) is a field of the record \<open>os\<close>, a parameter of every definition that
  depends on it.  Its fields are functions of the whole state, which includes the history of the
  run, so an \<open>os\<close> can answer every call differently.
\<close>

section \<open>The data types of myftp.h\<close>

text \<open>\<open>struct sockaddr_in\<close> in host byte order: \<open>htonl\<close>/\<open>htons\<close> and their inverses cancel out.\<close>

record sockaddr =
  sin_addr :: "32 word"
  sin_port :: "16 word"

definition INADDR_LOOPBACK :: "32 word" where
  "INADDR_LOOPBACK = 0x7F000001"

definition zero_sockaddr :: sockaddr where
  "zero_sockaddr = \<lparr>sin_addr = 0, sin_port = 0\<rparr>"

record server_t =
  srv_sockfd :: int
  srv_addr :: sockaddr
  srv_port :: int
  srv_path :: string

datatype data_socket_mode_t = PASSIVE | ACTIVE

datatype transfer_mode_t = BINARY | ASCII

text \<open>\<open>ds_address\<close> is \<open>None\<close> for the NULL pointer of a passive socket.\<close>

record data_socket_t =
  data_socket_mode :: data_socket_mode_t
  data_sockfd :: int
  ds_addr :: sockaddr
  ds_address :: "int list option"
  ds_port :: int
  ds_client_sockfd :: int

text \<open>A \<open>FILE *\<close> opened for reading: its descriptor and the bytes it has read ahead.\<close>

record stream_t =
  fileno :: int
  read_ahead :: string

text \<open>Pointers that may be NULL are options.\<close>

record connection_t =
  server :: server_t
  client_sockfd :: int
  client_addr :: "sockaddr option"
  stream :: "stream_t option"
  logged_in :: bool
  user :: "string option"
  working_directory :: "string option"
  data_socket :: "data_socket_t option"
  transfer_mode :: transfer_mode_t

datatype command_status_t =
  COMMAND_SUCCESS | COMMAND_FAILURE | COMMAND_NOT_FOUND | COMMAND_QUIT

text \<open>The values of the enumeration, and the order C gives its constants.\<close>

fun status_value :: "command_status_t \<Rightarrow> nat" where
  "status_value COMMAND_SUCCESS = 0"
| "status_value COMMAND_FAILURE = 1"
| "status_value COMMAND_NOT_FOUND = 2"
| "status_value COMMAND_QUIT = 3"

instantiation command_status_t :: linorder
begin

definition less_eq_command_status_t :: "command_status_t \<Rightarrow> command_status_t \<Rightarrow> bool" where
  "a \<le> b \<longleftrightarrow> status_value a \<le> status_value b"

definition less_command_status_t :: "command_status_t \<Rightarrow> command_status_t \<Rightarrow> bool" where
  "a < b \<longleftrightarrow> status_value a < status_value b"

instance
proof
  fix a b :: command_status_t
  show "a \<le> b \<Longrightarrow> b \<le> a \<Longrightarrow> a = b"
    by (cases a; cases b) (simp_all add: less_eq_command_status_t_def)
qed (auto simp: less_eq_command_status_t_def less_command_status_t_def)

end

text \<open>The three function pointers that are passed to \<open>execute_data_socket_command\<close>.\<close>

datatype command_execution = Execute_ls_command | Execute_retr_command | Execute_stor_command

section \<open>The state\<close>

text \<open>What a process does that others can see: bytes written to a descriptor, lines logged.\<close>

datatype event =
    Sent int int string   \<comment> \<open>process, descriptor, bytes\<close>
  | Printed string        \<comment> \<open>standard output\<close>
  | Perror string         \<comment> \<open>standard error: the prefix given to \<open>perror\<close>\<close>
  | Eprinted string       \<comment> \<open>standard error: \<open>fprintf(stderr, \<dots>)\<close>\<close>

text \<open>
  A forked child that has not run yet, with its own copies of what \<open>fork\<close> copies: the heap
  objects it uses, the working directory and the open descriptors.
\<close>

record job =
  job_pid :: int
  job_connection :: connection_t
  job_command :: command_t
  job_execution :: command_execution
  job_cwd :: path
  job_fds :: "int set"

record world =
  self_pid :: int              \<comment> \<open>the running process\<close>
  fsys :: filesys
  cwd :: path                  \<comment> \<open>its working directory\<close>
  open_fds :: "int set"        \<comment> \<open>its open sockets\<close>
  net_in :: "int \<Rightarrow> string list"  \<comment> \<open>packets received on a control socket, not read yet\<close>
  net_eof :: "int \<Rightarrow> bool"        \<comment> \<open>the peer closed its end after them\<close>
  jobs :: "job list"
  trace :: "event list"

text \<open>
  What the kernel and the peers decide.  \<open>os_peer w fd\<close>: an \<open>accept\<close> on \<open>fd\<close> comes back, because
  somebody connects or because it fails; where nobody ever connects it waits for ever.  \<open>os_recv w fd\<close>:
  all that the peer of a data connection sends until it closes it, or \<open>None\<close> when the peer never does,
  so that a loop that reads to the end waits for ever.
\<close>

record os =
  os_malloc :: "world \<Rightarrow> alloc_site \<Rightarrow> bool"
  os_socket :: "world \<Rightarrow> int"
  os_bind :: "world \<Rightarrow> int \<Rightarrow> sockaddr \<Rightarrow> bool"
  os_listen :: "world \<Rightarrow> int \<Rightarrow> bool"
  os_getsockname :: "world \<Rightarrow> int \<Rightarrow> sockaddr"
  os_accept :: "world \<Rightarrow> int \<Rightarrow> (int \<times> sockaddr) option"
  os_peer :: "world \<Rightarrow> int \<Rightarrow> bool"
  os_connect :: "world \<Rightarrow> int \<Rightarrow> sockaddr \<Rightarrow> bool"
  os_fork :: "world \<Rightarrow> int"
  os_fdopen :: "world \<Rightarrow> int \<Rightarrow> bool"
  os_ls :: "world \<Rightarrow> string option"
  os_recv :: "world \<Rightarrow> int \<Rightarrow> string option"

type_synonym outcome = "(command_status_t \<times> connection_t \<times> world) result"

type_synonym handler = "command_t \<Rightarrow> connection_t \<Rightarrow> world \<Rightarrow> outcome"

section \<open>System calls\<close>

definition emit :: "event \<Rightarrow> world \<Rightarrow> world" where
  "emit e w = w\<lparr>trace := trace w @ [e]\<rparr>"

definition dprintf :: "int \<Rightarrow> string \<Rightarrow> world \<Rightarrow> world" where
  "dprintf fd s w = emit (Sent (self_pid w) fd s) w"

definition printf :: "string \<Rightarrow> world \<Rightarrow> world" where
  "printf s w = emit (Printed s) w"

definition perror :: "string \<Rightarrow> world \<Rightarrow> world" where
  "perror s w = emit (Perror s) w"

definition eprintf :: "string \<Rightarrow> world \<Rightarrow> world" where
  "eprintf s w = emit (Eprinted s) w"

text \<open>\<open>chdir\<close> and \<open>close\<close> of the process; the result -1 is an error.\<close>

definition chdir :: "string \<Rightarrow> world \<Rightarrow> int \<times> world" where
  "chdir s w =
     (case fs_chdir (fsys w) (cwd w) s of
        None \<Rightarrow> (-1, w) | Some p \<Rightarrow> (0, w\<lparr>cwd := p\<rparr>))"

text \<open>A NULL path name is the error \<open>EFAULT\<close>.\<close>

definition chdir_ptr :: "string option \<Rightarrow> world \<Rightarrow> int \<times> world" where
  "chdir_ptr s w = (case s of None \<Rightarrow> (-1, w) | Some s \<Rightarrow> chdir s w)"

definition getcwd :: "world \<Rightarrow> string option" where
  "getcwd w = fs_getcwd (fsys w) (cwd w)"

definition close :: "int \<Rightarrow> world \<Rightarrow> world" where
  "close fd w = w\<lparr>open_fds := open_fds w - {fd}\<rparr>"

definition socket :: "os \<Rightarrow> world \<Rightarrow> int \<times> world" where
  "socket os w =
     (let fd = os_socket os w
      in (fd, if fd = -1 then w else w\<lparr>open_fds := insert fd (open_fds w)\<rparr>))"

definition accept :: "os \<Rightarrow> int \<Rightarrow> world \<Rightarrow> (int \<times> sockaddr) option \<times> world" where
  "accept os fd w =
     (case os_accept os w fd of
        None \<Rightarrow> (None, w)
      | Some (c, a) \<Rightarrow> (Some (c, a), w\<lparr>open_fds := insert c (open_fds w)\<rparr>))"

lemma dprintf_simps [simp]:
  "self_pid (dprintf fd s w) = self_pid w" "fsys (dprintf fd s w) = fsys w"
  "cwd (dprintf fd s w) = cwd w" "open_fds (dprintf fd s w) = open_fds w"
  "net_in (dprintf fd s w) = net_in w" "net_eof (dprintf fd s w) = net_eof w"
  "jobs (dprintf fd s w) = jobs w"
  "trace (dprintf fd s w) = trace w @ [Sent (self_pid w) fd s]"
  by (simp_all add: dprintf_def emit_def)

lemma printf_simps [simp]:
  "self_pid (printf s w) = self_pid w" "fsys (printf s w) = fsys w"
  "cwd (printf s w) = cwd w" "open_fds (printf s w) = open_fds w"
  "net_in (printf s w) = net_in w" "net_eof (printf s w) = net_eof w"
  "jobs (printf s w) = jobs w"
  "trace (printf s w) = trace w @ [Printed s]"
  by (simp_all add: printf_def emit_def)

lemma perror_simps [simp]:
  "self_pid (perror s w) = self_pid w" "fsys (perror s w) = fsys w"
  "cwd (perror s w) = cwd w" "open_fds (perror s w) = open_fds w"
  "net_in (perror s w) = net_in w" "net_eof (perror s w) = net_eof w"
  "jobs (perror s w) = jobs w"
  "trace (perror s w) = trace w @ [Perror s]"
  by (simp_all add: perror_def emit_def)

lemma eprintf_simps [simp]:
  "self_pid (eprintf s w) = self_pid w" "fsys (eprintf s w) = fsys w"
  "cwd (eprintf s w) = cwd w" "open_fds (eprintf s w) = open_fds w"
  "net_in (eprintf s w) = net_in w" "net_eof (eprintf s w) = net_eof w"
  "jobs (eprintf s w) = jobs w"
  "trace (eprintf s w) = trace w @ [Eprinted s]"
  by (simp_all add: eprintf_def emit_def)

lemma chdir_simps [simp]:
  "self_pid (snd (chdir s w)) = self_pid w" "fsys (snd (chdir s w)) = fsys w"
  "open_fds (snd (chdir s w)) = open_fds w" "net_in (snd (chdir s w)) = net_in w"
  "net_eof (snd (chdir s w)) = net_eof w"
  "jobs (snd (chdir s w)) = jobs w" "trace (snd (chdir s w)) = trace w"
  by (simp_all add: chdir_def split: option.splits)

lemma chdir_ptr_simps [simp]:
  "self_pid (snd (chdir_ptr s w)) = self_pid w" "fsys (snd (chdir_ptr s w)) = fsys w"
  "open_fds (snd (chdir_ptr s w)) = open_fds w" "net_in (snd (chdir_ptr s w)) = net_in w"
  "net_eof (snd (chdir_ptr s w)) = net_eof w"
  "jobs (snd (chdir_ptr s w)) = jobs w" "trace (snd (chdir_ptr s w)) = trace w"
  by (simp_all add: chdir_ptr_def split: option.splits)

lemma close_simps [simp]:
  "self_pid (close fd w) = self_pid w" "fsys (close fd w) = fsys w" "cwd (close fd w) = cwd w"
  "open_fds (close fd w) = open_fds w - {fd}" "net_in (close fd w) = net_in w"
  "net_eof (close fd w) = net_eof w" "jobs (close fd w) = jobs w" "trace (close fd w) = trace w"
  by (simp_all add: close_def)

lemma socket_simps [simp]:
  "self_pid (snd (socket os w)) = self_pid w" "fsys (snd (socket os w)) = fsys w"
  "cwd (snd (socket os w)) = cwd w" "net_in (snd (socket os w)) = net_in w"
  "net_eof (snd (socket os w)) = net_eof w"
  "jobs (snd (socket os w)) = jobs w" "trace (snd (socket os w)) = trace w"
  by (simp_all add: socket_def Let_def)

lemma accept_simps [simp]:
  "self_pid (snd (accept os fd w)) = self_pid w" "fsys (snd (accept os fd w)) = fsys w"
  "cwd (snd (accept os fd w)) = cwd w" "net_in (snd (accept os fd w)) = net_in w"
  "net_eof (snd (accept os fd w)) = net_eof w"
  "jobs (snd (accept os fd w)) = jobs w" "trace (snd (accept os fd w)) = trace w"
  by (simp_all add: accept_def split: option.splits)

section \<open>Signals\<close>

text \<open>
  What a process has asked \<open>sigaction\<close> for: its own handler, or the default action, which ends the
  process for every signal of interest but \<open>SIGCHLD\<close>.  \<open>deliver h sigs sig s\<close> is the state after
  the signal \<open>sig\<close>, with \<open>h\<close> the handler; \<open>None\<close> when the process is ended.
\<close>

datatype disposition = Sig_default | Sig_handler

type_synonym signals = "int \<Rightarrow> disposition"

definition SIGINT :: int where "SIGINT = 2"
definition SIGPIPE :: int where "SIGPIPE = 13"
definition SIGTERM :: int where "SIGTERM = 15"
definition SIGCHLD :: int where "SIGCHLD = 17"

definition deliver :: "(int \<Rightarrow> 's \<Rightarrow> 's) \<Rightarrow> signals \<Rightarrow> int \<Rightarrow> 's \<Rightarrow> 's option" where
  "deliver h sigs sig s =
     (case sigs sig of
        Sig_handler \<Rightarrow> Some (h sig s)
      | Sig_default \<Rightarrow> if sig = SIGCHLD then Some s else None)"

section \<open>What is sent\<close>

text \<open>The bytes a process has written to a descriptor.\<close>

fun bytes_sent :: "int \<Rightarrow> int \<Rightarrow> event list \<Rightarrow> string" where
  "bytes_sent p fd [] = []"
| "bytes_sent p fd (Sent q g s # es) = (if q = p \<and> g = fd then s @ bytes_sent p fd es else bytes_sent p fd es)"
| "bytes_sent p fd (e # es) = bytes_sent p fd es"

lemma bytes_sent_append [simp]: "bytes_sent p fd (es @ es') = bytes_sent p fd es @ bytes_sent p fd es'"
  by (induction p fd es rule: bytes_sent.induct) auto

text \<open>
  \<open>replies_to fd w w'\<close>: from \<open>w\<close> to \<open>w'\<close> the running process wrote to no descriptor but \<open>fd\<close>.
\<close>

fun writes_only :: "int \<Rightarrow> int \<Rightarrow> event \<Rightarrow> bool" where
  "writes_only p fd (Sent q g s) \<longleftrightarrow> q = p \<and> g = fd"
| "writes_only p fd e \<longleftrightarrow> True"

definition replies_to :: "int \<Rightarrow> world \<Rightarrow> world \<Rightarrow> bool" where
  "replies_to fd w w' \<longleftrightarrow>
     self_pid w' = self_pid w \<and>
     (\<exists>es. trace w' = trace w @ es \<and> list_all (writes_only (self_pid w) fd) es)"

lemma replies_to_refl [intro, simp]: "replies_to fd w w"
  by (simp add: replies_to_def)

lemma replies_to_trans [trans]:
  "replies_to fd w w' \<Longrightarrow> replies_to fd w' w'' \<Longrightarrow> replies_to fd w w''"
  by (force simp: replies_to_def)

lemma replies_to_emit:
  assumes "self_pid w' = self_pid w" "trace w' = trace w @ es"
    and "list_all (writes_only (self_pid w) fd) es"
  shows "replies_to fd w w'"
  using assms by (auto simp: replies_to_def)

lemma replies_to_quiet: "self_pid w' = self_pid w \<Longrightarrow> trace w' = trace w \<Longrightarrow> replies_to fd w w'"
  by (auto simp: replies_to_def)

lemma bytes_sent_other:
  assumes "replies_to fd w w'" "g \<noteq> fd \<or> p \<noteq> self_pid w"
  shows "bytes_sent p g (trace w') = bytes_sent p g (trace w)"
proof -
  from assms(1) obtain es where es: "trace w' = trace w @ es"
    "list_all (writes_only (self_pid w) fd) es" by (auto simp: replies_to_def)
  have "bytes_sent p g es = []"
    using es(2) assms(2) by (induction p g es rule: bytes_sent.induct) auto
  with es(1) show ?thesis by simp
qed

text \<open>
  \<open>quiet w w'\<close>: from \<open>w\<close> to \<open>w'\<close> at most descriptors were opened or closed and lines logged.
\<close>

fun is_log :: "event \<Rightarrow> bool" where
  "is_log (Sent p fd s) \<longleftrightarrow> False"
| "is_log e \<longleftrightarrow> True"

definition quiet :: "world \<Rightarrow> world \<Rightarrow> bool" where
  "quiet w w' \<longleftrightarrow>
     self_pid w' = self_pid w \<and> fsys w' = fsys w \<and> cwd w' = cwd w \<and> net_in w' = net_in w \<and>
     net_eof w' = net_eof w \<and> jobs w' = jobs w \<and>
     (\<exists>es. trace w' = trace w @ es \<and> list_all is_log es)"

lemma quiet_refl [simp]: "quiet w w"
  by (simp add: quiet_def)

lemma quiet_trans [trans]: "quiet w w' \<Longrightarrow> quiet w' w'' \<Longrightarrow> quiet w w''"
  by (force simp: quiet_def)

lemma quiet_replies_to: "quiet w w' \<Longrightarrow> replies_to fd w w'"
proof -
  have "is_log e \<Longrightarrow> writes_only p fd e" for e p by (cases e) auto
  then show "quiet w w' \<Longrightarrow> replies_to fd w w'"
    unfolding quiet_def replies_to_def by (metis list.pred_mono_strong)
qed

lemma quiet_bytes_sent: "quiet w w' \<Longrightarrow> bytes_sent p fd (trace w') = bytes_sent p fd (trace w)"
proof -
  have "list_all is_log es \<Longrightarrow> bytes_sent p fd es = []" for es
    by (induction p fd es rule: bytes_sent.induct) auto
  then show "quiet w w' \<Longrightarrow> bytes_sent p fd (trace w') = bytes_sent p fd (trace w)"
    by (auto simp: quiet_def)
qed

lemma quiet_steps [simp]:
  "quiet w (printf s w)" "quiet w (perror s w)" "quiet w (close fd w)"
  "quiet w (snd (socket os w))" "quiet w (snd (accept os fd w))"
  by (simp_all add: quiet_def)

lemma quiet_log [intro]:
  "quiet w w1 \<Longrightarrow> quiet w (printf s w1)" "quiet w w1 \<Longrightarrow> quiet w (perror s w1)"
  "quiet w w1 \<Longrightarrow> quiet w (close fd w1)"
  by (rule quiet_trans, assumption, simp)+

lemma quietD:
  assumes "quiet w w'"
  shows "self_pid w' = self_pid w" "fsys w' = fsys w" "cwd w' = cwd w" "net_in w' = net_in w"
    "net_eof w' = net_eof w" "jobs w' = jobs w"
  using assms by (simp_all add: quiet_def)

end
