(* ===== verification/Directories.thy ===== *)
theory Directories
  imports World
begin

text \<open>
  Excursions.  A handler that works in the directory of its client changes into it, does its
  work, and changes back to the root of the server.  The locale \<open>directory_calls\<close> is what the
  handlers rely on for the way back; the calls of the model provide it.
\<close>

section \<open>Excursions from the server's root\<close>

locale directory_calls =
  fixes change :: "string \<Rightarrow> 'w \<Rightarrow> int \<times> 'w"
    and current :: "'w \<Rightarrow> string option"
    and canonical :: "'w \<Rightarrow> string \<Rightarrow> bool"
  assumes enter: "canonical w p \<Longrightarrow> fst (change p w) = 0 \<and> current (snd (change p w)) = Some p"
    and keeps: "canonical (snd (change s w)) p \<longleftrightarrow> canonical w p"
begin

text \<open>Wherever the calls in between lead, and whether they succeed or not, the last one returns.\<close>

lemma excursion:
  "canonical w p \<Longrightarrow> current (snd (change p (snd (change b (snd (change a w)))))) = Some p"
  using enter keeps by simp

lemma enter_twice:
  "canonical w p \<Longrightarrow> canonical w q \<Longrightarrow> current (snd (change p (snd (change q w)))) = Some p"
  using enter keeps by simp

end

text \<open>A path name as \<open>getcwd\<close> returns it, of a directory that is still there.\<close>

definition canonical_dir :: "world \<Rightarrow> string \<Rightarrow> bool" where
  "canonical_dir w s \<longleftrightarrow> (\<exists>p. s = string_of_path p \<and> dir_path (fsys w) p)"

lemma canonical_dirI: "dir_path (fsys w) p \<Longrightarrow> canonical_dir w (string_of_path p)"
  by (auto simp: canonical_dir_def)

lemma canonical_dir_no_NUL: "canonical_dir w s \<Longrightarrow> NUL \<notin> set s"
  by (auto simp: canonical_dir_def dir_path_def dest: string_of_path_no_NUL)

lemma canonical_dir_fsys: "fsys w' = fsys w \<Longrightarrow> canonical_dir w' s = canonical_dir w s"
  by (simp add: canonical_dir_def)

interpretation world_dirs: directory_calls chdir getcwd canonical_dir
  by unfold_locales
    (auto simp: canonical_dir_def chdir_def getcwd_def chdir_canonical getcwd_canonical
      split: option.splits)

lemma chdir_ptr_Some [simp]: "chdir_ptr (Some s) w = chdir s w"
  by (simp add: chdir_ptr_def)

end
