(* ===== verification/Demo.thy ===== *)
theory Demo
  imports Directories
begin

text \<open>
  A small installation the witnesses run on: a server whose root is \<open>/srv/ftp\<close>, with a file in a
  subdirectory, a sibling directory \<open>/srv/ftp2\<close> whose name begins like the root's, and one
  connected client on descriptor 4.  The directories above the root are not writable.
\<close>

definition demo_fs :: filesys where
  "demo_fs =
     [([], Dir True False True),
      ([''srv''], Dir True False True),
      ([''srv'', ''ftp''], Dir True True True),
      ([''srv'', ''ftp'', ''pub''], Dir True True True),
      ([''srv'', ''ftp'', ''pub'', ''a''], File True True ''hello''),
      ([''srv'', ''ftp2''], Dir True True True),
      ([''srv'', ''ftp2'', ''key''], File True False ''secret'')]"

definition demo_root :: string where
  "demo_root = ''/srv/ftp''"

definition demo_server :: server_t where
  "demo_server =
     \<lparr>srv_sockfd = 3, srv_addr = \<lparr>sin_addr = INADDR_LOOPBACK, sin_port = 4242\<rparr>, srv_port = 4242,
      srv_path = demo_root\<rparr>"

definition demo_world :: world where
  "demo_world =
     \<lparr>self_pid = 1, fsys = demo_fs, cwd = [''srv'', ''ftp''], open_fds = {3, 4},
      net_in = (\<lambda>_. []), net_eof = (\<lambda>_. False), jobs = [], trace = []\<rparr>"

definition demo_conn :: connection_t where
  "demo_conn =
     \<lparr>server = demo_server, client_sockfd = 4,
      client_addr = Some \<lparr>sin_addr = INADDR_LOOPBACK, sin_port = 50000\<rparr>,
      stream = Some \<lparr>fileno = 4, read_ahead = []\<rparr>, logged_in = False, user = None,
      working_directory = Some demo_root, data_socket = None, transfer_mode = BINARY\<rparr>"

text \<open>The client after the login.\<close>

definition demo_user :: connection_t where
  "demo_user = demo_conn\<lparr>logged_in := True, user := Some ''anonymous''\<rparr>"

definition demo_os :: os where
  "demo_os =
     \<lparr>os_malloc = (\<lambda>w a. True), os_socket = (\<lambda>w. 5), os_bind = (\<lambda>w fd a. True),
      os_listen = (\<lambda>w fd. True),
      os_getsockname = (\<lambda>w fd. \<lparr>sin_addr = INADDR_LOOPBACK, sin_port = 40000\<rparr>),
      os_accept = (\<lambda>w fd. Some (7, \<lparr>sin_addr = INADDR_LOOPBACK, sin_port = 50001\<rparr>)),
      os_peer = (\<lambda>w fd. True), os_connect = (\<lambda>w fd a. True), os_fork = (\<lambda>w. 100), os_fdopen = (\<lambda>w fd. True),
      os_ls = (\<lambda>w. Some ''total 0''), os_recv = (\<lambda>w fd. Some ''data'')\<rparr>"

definition demo_command :: "string \<Rightarrow> string list \<Rightarrow> command_t" where
  "demo_command n as = \<lparr>name = n, argc = int (length as), argv = as\<rparr>"

text \<open>The client after a PASV.\<close>

definition demo_ds :: data_socket_t where
  "demo_ds =
     \<lparr>data_socket_mode = PASSIVE, data_sockfd = 5,
      ds_addr = \<lparr>sin_addr = INADDR_LOOPBACK, sin_port = 0\<rparr>, ds_address = None, ds_port = 40000,
      ds_client_sockfd = -1\<rparr>"

definition demo_passive :: connection_t where
  "demo_passive = demo_user\<lparr>data_socket := Some demo_ds\<rparr>"

lemmas demo_defs = demo_fs_def demo_root_def demo_server_def demo_world_def demo_conn_def
  demo_user_def demo_os_def demo_command_def

lemma demo_root_path: "demo_root = string_of_path [''srv'', ''ftp'']"
  by (simp add: demo_root_def)

lemma demo_dir_path: "dir_path demo_fs [''srv'', ''ftp'']"
  by (simp add: dir_path_def is_open_dir_def lookup_def demo_fs_def valid_name_def)

lemma demo_canonical: "canonical_dir demo_world demo_root"
  unfolding demo_root_path by (rule canonical_dirI) (simp add: demo_world_def demo_dir_path)

end
