(* ===== verification/Handler.thy ===== *)
theory Handler
  imports Demo
begin

text \<open>
  The contract between the command table and the fifteen command handlers.  \<open>ftp_handler\<close> is
  what the dispatcher and the connection loop rely on for every handler; \<open>guarded_handler\<close> adds
  the login check with which all handlers but USER, PASS and QUIT start.  Each handler's theory
  interprets the locales on its definitions.
\<close>

section \<open>Replies more than one handler sends\<close>

definition msg_please_login :: string where
  "msg_please_login = ''530 Please login with USER and PASS.'' @ crlf"

definition msg_local_error :: string where
  "msg_local_error = ''451 Requested action aborted: local error in processing.'' @ crlf"

definition msg_no_data_socket :: string where
  "msg_no_data_socket = ''425 Use PASV or PORT first.'' @ crlf"

definition msg_closing :: string where
  "msg_closing = ''221 Service closing control connection.'' @ crlf"

text \<open>A reply to the client of a connection.\<close>

definition reply :: "connection_t \<Rightarrow> string \<Rightarrow> world \<Rightarrow> world" where
  "reply conn s w = dprintf (client_sockfd conn) s w"

lemma reply_simps [simp]:
  "self_pid (reply c s w) = self_pid w" "fsys (reply c s w) = fsys w"
  "cwd (reply c s w) = cwd w" "open_fds (reply c s w) = open_fds w"
  "net_in (reply c s w) = net_in w" "net_eof (reply c s w) = net_eof w"
  "jobs (reply c s w) = jobs w"
  "trace (reply c s w) = trace w @ [Sent (self_pid w) (client_sockfd c) s]"
  by (simp_all add: reply_def)

lemma replies_to_reply [intro, simp]: "replies_to (client_sockfd c) w (reply c s w)"
  by (rule replies_to_emit, simp, simp, simp)

lemma replies_to_printf [intro, simp]: "replies_to fd w (printf s w)"
  by (rule replies_to_emit, simp, simp, simp)

lemma replies_to_perror [intro, simp]: "replies_to fd w (perror s w)"
  by (rule replies_to_emit, simp, simp, simp)

text \<open>The first argument, \<open>argv[0]\<close>; \<open>None\<close> is the NULL that closes an empty \<open>argv\<close>.\<close>

definition argv0 :: "command_t \<Rightarrow> string option" where
  "argv0 cmd = (case argv cmd of [] \<Rightarrow> None | a # as \<Rightarrow> Some a)"

section \<open>The contract\<close>

definition same_peer :: "connection_t \<Rightarrow> connection_t \<Rightarrow> bool" where
  "same_peer c c' \<longleftrightarrow>
     server c' = server c \<and> client_sockfd c' = client_sockfd c \<and>
     client_addr c' = client_addr c \<and> stream c' = stream c"

lemma same_peer_refl [simp]: "same_peer c c"
  by (simp add: same_peer_def)

lemma same_peer_trans [trans]: "same_peer c c' \<Longrightarrow> same_peer c' c'' \<Longrightarrow> same_peer c c''"
  by (simp add: same_peer_def)

text \<open>What \<open>printf\<close> and \<open>free\<close> follow: an active socket has its octets.\<close>

definition wf_data_socket :: "data_socket_t \<Rightarrow> bool" where
  "wf_data_socket ds \<longleftrightarrow>
     (data_socket_mode ds = ACTIVE \<longrightarrow> ds_address ds \<noteq> None)"

definition wf_sockets :: "connection_t \<Rightarrow> bool" where
  "wf_sockets c \<longleftrightarrow> (\<forall>ds. data_socket c = Some ds \<longrightarrow> wf_data_socket ds)"

lemma wf_sockets_update [simp]:
  "wf_sockets (c\<lparr>data_socket := None\<rparr>)"
  "wf_sockets (c\<lparr>data_socket := Some ds\<rparr>) = wf_data_socket ds"
  by (simp_all add: wf_sockets_def)

text \<open>
  The invariant of a connection: its data socket is well formed, and the path of its working
  directory begins with the path of the server's root, which is what the code checks.
\<close>

definition wd_inside :: "connection_t \<Rightarrow> bool" where
  "wd_inside c \<longleftrightarrow>
     map_option (prefix (srv_path (server c))) (working_directory c) = Some True"

lemma wd_insideD: "wd_inside c \<Longrightarrow> \<exists>wd. working_directory c = Some wd \<and> prefix (srv_path (server c)) wd"
  by (auto simp: wd_inside_def)

definition conn_inv :: "connection_t \<Rightarrow> bool" where
  "conn_inv c \<longleftrightarrow> wf_sockets c \<and> wd_inside c"

locale ftp_handler =
  fixes handle :: handler
  assumes peer: "handle cmd c w = Inr (st, c', w') \<Longrightarrow> same_peer c c'"
    and answers_client:
      "handle cmd c w = Inr (st, c', w') \<Longrightarrow> replies_to (client_sockfd c) w w'"
    and known: "handle cmd c w = Inr (st, c', w') \<Longrightarrow> st \<noteq> COMMAND_NOT_FOUND"
    and input_kept:
      "handle cmd c w = Inr (st, c', w') \<Longrightarrow> net_in w' = net_in w \<and> net_eof w' = net_eof w"
    and invariant:
      "handle cmd c w = Inr (st, c', w') \<Longrightarrow> canonical_dir w (srv_path (server c)) \<Longrightarrow>
       conn_inv c \<Longrightarrow> conn_inv c'"
    and root_kept:
      "handle cmd c w = Inr (st, c', w') \<Longrightarrow> root_safe (fsys w) p \<Longrightarrow> root_safe (fsys w') p"
    and child:
      "handle cmd c w = Inr (st, c', w') \<Longrightarrow>
       jobs w' = jobs w \<or>
       (\<exists>j. jobs w' = jobs w @ [j] \<and> same_peer c (job_connection j) \<and> st = COMMAND_SUCCESS)"
begin

text \<open>No other client sees anything of a command.\<close>

lemma other_clients:
  "handle cmd c w = Inr (st, c', w') \<Longrightarrow> fd \<noteq> client_sockfd c \<Longrightarrow>
   bytes_sent p fd (trace w') = bytes_sent p fd (trace w)"
  using answers_client by (rule bytes_sent_other) auto

end

locale guarded_handler = ftp_handler +
  assumes guard: "\<not> logged_in c \<Longrightarrow>
    handle cmd c w = Inr (COMMAND_FAILURE, c, reply c msg_please_login w)"
    and login_kept:
      "handle cmd c w = Inr (st, c', w') \<Longrightarrow> logged_in c' = logged_in c \<and> user c' = user c"
    and stays: "handle cmd c w = Inr (st, c', w') \<Longrightarrow> st \<noteq> COMMAND_QUIT"
begin

text \<open>Before the login nothing of the server's state is reachable.\<close>

lemma guarded_world:
  assumes "\<not> logged_in c" "handle cmd c w = Inr (st, c', w')"
  shows "st = COMMAND_FAILURE \<and> c' = c \<and> fsys w' = fsys w \<and> cwd w' = cwd w \<and>
    open_fds w' = open_fds w \<and> jobs w' = jobs w"
  using guard [OF assms(1), of cmd w] assms(2) by auto

lemma guarded_no_fault: "\<not> logged_in c \<Longrightarrow> handle cmd c w \<noteq> Inl e"
  using guard [of c cmd w] by simp

end

section \<open>Establishing the contract\<close>

lemma same_peer_data_socket [simp]: "same_peer c (c\<lparr>data_socket := d\<rparr>)"
  by (simp add: same_peer_def)

lemma reply_data_socket [simp]: "reply (c\<lparr>data_socket := d\<rparr>) s w = reply c s w"
  by (simp add: reply_def)

text \<open>What all guarded handlers but CWD and CDUP do to a connection.\<close>

definition command_contract ::
    "connection_t \<Rightarrow> world \<Rightarrow> command_status_t \<Rightarrow> connection_t \<Rightarrow> world \<Rightarrow> bool" where
  "command_contract c w st c' w' \<longleftrightarrow>
     same_peer c c' \<and> replies_to (client_sockfd c) w w' \<and>
     (st = COMMAND_SUCCESS \<or> st = COMMAND_FAILURE) \<and> net_in w' = net_in w \<and> net_eof w' = net_eof w \<and>
     logged_in c' = logged_in c \<and> user c' = user c \<and>
     working_directory c' = working_directory c \<and> (wf_sockets c \<longrightarrow> wf_sockets c') \<and>
     fsys w' = fsys w \<and>
     (jobs w' = jobs w \<or>
      (\<exists>j. jobs w' = jobs w @ [j] \<and> same_peer c (job_connection j) \<and> st = COMMAND_SUCCESS))"

lemma contract_invariant: "command_contract c w st c' w' \<Longrightarrow> conn_inv c \<Longrightarrow> conn_inv c'"
  by (simp add: command_contract_def conn_inv_def wd_inside_def same_peer_def)

lemma contract_quiet_reply:
  assumes "quiet w w1" "same_peer c c'" "logged_in c' = logged_in c" "user c' = user c"
    "working_directory c' = working_directory c" "wf_sockets c \<Longrightarrow> wf_sockets c'"
    "st = COMMAND_SUCCESS \<or> st = COMMAND_FAILURE"
  shows "command_contract c w st c' (reply c s w1)"
  using assms quietD [OF assms(1)]
    replies_to_trans [OF quiet_replies_to [OF assms(1)] replies_to_reply [of c w1 s]]
  by (simp add: command_contract_def)

lemmas contract_reply = contract_quiet_reply [OF quiet_refl]

lemma guarded_handlerI:
  assumes guard: "\<And>cmd c w. \<not> logged_in c \<Longrightarrow>
      h cmd c w = Inr (COMMAND_FAILURE, c, reply c msg_please_login w)"
    and logged: "\<And>cmd c w st c' w'. logged_in c \<Longrightarrow> h cmd c w = Inr (st, c', w') \<Longrightarrow>
      command_contract c w st c' w'"
  shows "guarded_handler h"
proof -
  have contract: "command_contract c w st c' w'" if "h cmd c w = Inr (st, c', w')" for cmd c w st c' w'
    using guard logged that by (cases "logged_in c") (auto intro: contract_reply)
  show ?thesis
  proof unfold_locales
    fix cmd c w st c' w'
    assume "h cmd c w = Inr (st, c', w')"
    from contract [OF this] show "jobs w' = jobs w \<or>
        (\<exists>j. jobs w' = jobs w @ [j] \<and> same_peer c (job_connection j) \<and> st = COMMAND_SUCCESS)"
      by (simp only: command_contract_def)
  qed (auto simp: command_contract_def guard dest: contract intro: contract_invariant [OF contract])
qed

end
