(* ===== verification/Session_Commands.thy ===== *)
theory Session_Commands
  imports Handler
begin

text \<open>
  The commands that only touch the connection: \<open>commands/user.c\<close>, \<open>pass.c\<close>, \<open>quit.c\<close>,
  \<open>noop.c\<close>, \<open>help.c\<close>, \<open>pwd.c\<close> and \<open>type.c\<close>.
\<close>

section \<open>USER\<close>

definition msg_user_fixed :: string where
  "msg_user_fixed = ''530 Can't change to another user.'' @ crlf"

definition msg_need_password :: string where
  "msg_need_password = ''331 Please specify the password.'' @ crlf"

definition user_command :: handler where
  "user_command command connection w =
     (if logged_in connection
      then Inr (COMMAND_FAILURE, connection, reply connection msg_user_fixed w)
      else
        let connection =
              (if argc command = 0 then connection\<lparr>user := None\<rparr>
               else connection\<lparr>user := argv0 command\<rparr>)
        in Inr (COMMAND_SUCCESS, connection, reply connection msg_need_password w))"

interpretation user_handler: ftp_handler user_command
  by unfold_locales (auto simp: user_command_def same_peer_def Let_def reply_def conn_inv_def
      wf_sockets_def wd_inside_def split: if_splits intro!: replies_to_emit)

section \<open>PASS\<close>

definition msg_already_in :: string where
  "msg_already_in = ''230 Already logged in.'' @ crlf"

definition msg_user_first :: string where
  "msg_user_first = ''503 Login with USER first.'' @ crlf"

definition msg_login_ok :: string where
  "msg_login_ok = ''230 Login successful.'' @ crlf"

definition msg_login_bad :: string where
  "msg_login_bad = ''530 Login incorrect.'' @ crlf"

definition get_password :: "command_t \<Rightarrow> string" where
  "get_password command =
     (if argc command = 0 then '''' else case argv0 command of None \<Rightarrow> '''' | Some a \<Rightarrow> a)"

definition check_preconditions :: "connection_t \<Rightarrow> world \<Rightarrow> command_status_t \<times> world" where
  "check_preconditions connection w =
     (if logged_in connection then (COMMAND_FAILURE, reply connection msg_already_in w)
      else if user connection = None then (COMMAND_FAILURE, reply connection msg_user_first w)
      else (COMMAND_SUCCESS, w))"

text \<open>\<open>strcmp\<close> follows its first argument, so a NULL user would be a fault here.\<close>

definition process_login :: "connection_t \<Rightarrow> string \<Rightarrow> world \<Rightarrow> outcome" where
  "process_login connection password w =
     (case user connection of
        None \<Rightarrow> Inl Null_deref
      | Some u \<Rightarrow>
          if (strcmp u ''Anonymous'' = 0 \<or> strcmp u ''anonymous'' = 0) \<and> strcmp password '''' = 0
          then Inr (COMMAND_SUCCESS, connection\<lparr>logged_in := True\<rparr>,
                    reply connection msg_login_ok w)
          else Inr (COMMAND_FAILURE, connection\<lparr>user := None\<rparr>,
                    reply connection msg_login_bad w))"

definition pass_command :: handler where
  "pass_command command connection w =
     (let (status, w) = check_preconditions connection w
      in if status = COMMAND_FAILURE then Inr (status, connection, w)
         else process_login connection (get_password command) w)"

text \<open>The preconditions keep PASS away from the NULL user.\<close>

lemma pass_command_cases:
  "pass_command command connection w =
     (if logged_in connection
      then Inr (COMMAND_FAILURE, connection, reply connection msg_already_in w)
      else case user connection of
        None \<Rightarrow> Inr (COMMAND_FAILURE, connection, reply connection msg_user_first w)
      | Some u \<Rightarrow>
          if (strcmp u ''Anonymous'' = 0 \<or> strcmp u ''anonymous'' = 0) \<and>
             strcmp (get_password command) '''' = 0
          then Inr (COMMAND_SUCCESS, connection\<lparr>logged_in := True\<rparr>,
                    reply connection msg_login_ok w)
          else Inr (COMMAND_FAILURE, connection\<lparr>user := None\<rparr>,
                    reply connection msg_login_bad w))"
  by (auto simp: pass_command_def check_preconditions_def process_login_def split: option.splits)

interpretation pass_handler: ftp_handler pass_command
  by unfold_locales (auto simp: pass_command_cases same_peer_def conn_inv_def wf_sockets_def
      wd_inside_def split: if_splits option.splits)

section \<open>QUIT, NOOP, HELP, PWD\<close>

definition quit_command :: handler where
  "quit_command command connection w = Inr (COMMAND_QUIT, connection, w)"

interpretation quit_handler: ftp_handler quit_command
  by unfold_locales (auto simp: quit_command_def)

definition msg_noop :: string where
  "msg_noop = ''200 NOOP ok.'' @ crlf"

definition noop_command :: handler where
  "noop_command command connection w =
     (if \<not> logged_in connection
      then Inr (COMMAND_FAILURE, connection, reply connection msg_please_login w)
      else Inr (COMMAND_SUCCESS, connection, reply connection msg_noop w))"

interpretation noop_handler: guarded_handler noop_command
  by unfold_locales (auto simp: noop_command_def split: if_splits)

definition msg_help_start :: string where
  "msg_help_start = ''214-The following commands are recognized.'' @ crlf"

definition msg_help_list :: string where
  "msg_help_list =
     ''USER PASS CWD CDUP QUIT DELE PWD PASV PORT HELP NOOP RETR STOR LIST'' @ crlf"

definition msg_help_end :: string where
  "msg_help_end = ''214 Help OK.'' @ crlf"

definition help_command :: handler where
  "help_command command connection w =
     (if \<not> logged_in connection
      then Inr (COMMAND_FAILURE, connection, reply connection msg_please_login w)
      else
        let w = reply connection msg_help_start w;
            w = reply connection msg_help_list w;
            w = reply connection msg_help_end w
        in Inr (COMMAND_SUCCESS, connection, w))"

interpretation help_handler: guarded_handler help_command
  by unfold_locales
    (auto simp: help_command_def Let_def split: if_splits intro!: replies_to_emit)

definition msg_pwd :: "string option \<Rightarrow> string" where
  "msg_pwd wd = ''257 '' @ [CHR 0x22] @ percent_s wd @ [CHR 0x22] @ crlf"

definition pwd_command :: handler where
  "pwd_command command connection w =
     (if \<not> logged_in connection
      then Inr (COMMAND_FAILURE, connection, reply connection msg_please_login w)
      else Inr (COMMAND_SUCCESS, connection,
                reply connection (msg_pwd (working_directory connection)) w))"

interpretation pwd_handler: guarded_handler pwd_command
  by unfold_locales (auto simp: pwd_command_def split: if_splits)

section \<open>TYPE\<close>

definition msg_ascii :: string where
  "msg_ascii = ''200 Switching to ASCII mode.'' @ crlf"

definition msg_binary :: string where
  "msg_binary = ''200 Switching to Binary mode.'' @ crlf"

definition msg_bad_type :: string where
  "msg_bad_type = ''500 Unrecognised TYPE command.'' @ crlf"

definition change_type :: "string \<Rightarrow> connection_t \<Rightarrow> world \<Rightarrow> outcome" where
  "change_type type connection w =
     (let type = touppercase type
      in if strcmp type ''A'' = 0
         then Inr (COMMAND_SUCCESS, connection\<lparr>transfer_mode := ASCII\<rparr>, reply connection msg_ascii w)
         else if strcmp type ''I'' = 0
         then Inr (COMMAND_SUCCESS, connection\<lparr>transfer_mode := BINARY\<rparr>,
                   reply connection msg_binary w)
         else Inr (COMMAND_FAILURE, connection, reply connection msg_bad_type w))"

definition type_command :: handler where
  "type_command command connection w =
     (if \<not> logged_in connection
      then Inr (COMMAND_FAILURE, connection, reply connection msg_please_login w)
      else if argc command \<noteq> 1
      then Inr (COMMAND_FAILURE, connection, reply connection msg_bad_type w)
      else case argv0 command of
             None \<Rightarrow> Inl Null_deref
           | Some type \<Rightarrow> change_type type connection w)"

interpretation type_handler: guarded_handler type_command
  by unfold_locales
    (auto simp: type_command_def change_type_def Let_def same_peer_def conn_inv_def wf_sockets_def
      wd_inside_def split: if_splits option.splits)

end
