(* ===== verification/Data_Socket.thy ===== *)
theory Data_Socket
  imports Handler
begin

text \<open>
  Data connections: \<open>passive_data_socket.c\<close>, \<open>active_data_socket.c\<close>, \<open>data_socket_executor.c\<close>
  and the two destructors of \<open>destroyers.c\<close> for data sockets and connections.  \<open>malloc\<close>ed fields
  are given a zero until the code sets them; none is read before.
\<close>

section \<open>Destructors\<close>

definition show_address :: "int list \<Rightarrow> string" where
  "show_address a = join CHR ''.'' (map show_int a)"

definition show_peer :: "sockaddr \<Rightarrow> string" where
  "show_peer a = inet_ntoa (sin_addr a) @ '':'' @ show_int (uint (sin_port a))"

text \<open>The lines of the log, by what they are printed for.\<close>

definition log_passive_closed :: "int \<Rightarrow> string" where
  "log_passive_closed p = ''Passive Data socket closed on port '' @ show_int p @ [LF]"

definition log_active_closed :: "int list \<Rightarrow> int \<Rightarrow> string" where
  "log_active_closed a p =
     ''Active Data socket closed: '' @ show_address a @ '':'' @ show_int p @ [LF]"

definition log_disconnected :: "sockaddr \<Rightarrow> string" where
  "log_disconnected a = ''Disconnected '' @ show_peer a @ [LF]"

definition log_accepted :: "sockaddr \<Rightarrow> string" where
  "log_accepted a =
     ''Passive Data socket connection accepted from '' @ show_peer a @ [LF]"

text \<open>Only \<open>client_sockfd\<close> is closed.\<close>

definition destroy_data_socket :: "data_socket_t option \<Rightarrow> bool \<Rightarrow> world \<Rightarrow> world result" where
  "destroy_data_socket dsock verbose w =
     (case dsock of
        None \<Rightarrow> Inr w
      | Some ds \<Rightarrow>
          (case (if data_socket_mode ds = PASSIVE
                 then Inr (if verbose then printf (log_passive_closed (ds_port ds)) w else w)
                 else if verbose
                 then (case ds_address ds of
                         None \<Rightarrow> Inl Null_deref
                       | Some a \<Rightarrow>
                           Inr (printf (log_active_closed a (ds_port ds)) w))
                 else Inr w)
           of Inl e \<Rightarrow> Inl e
            | Inr w \<Rightarrow>
                Inr (if ds_client_sockfd ds \<noteq> -1 then close (ds_client_sockfd ds) w else w)))"

definition destroy_connection :: "connection_t \<Rightarrow> bool \<Rightarrow> world \<Rightarrow> world result" where
  "destroy_connection connection verbose w =
     (case (if verbose
            then (case client_addr connection of
                    None \<Rightarrow> Inl Null_deref
                  | Some a \<Rightarrow> Inr (printf (log_disconnected a) w))
            else Inr w)
      of Inl e \<Rightarrow> Inl e
       | Inr w \<Rightarrow>
           (case destroy_data_socket (data_socket connection) verbose w of
              Inl e \<Rightarrow> Inl e
            | Inr w \<Rightarrow>
                (case stream connection of
                   None \<Rightarrow> Inl Null_deref
                 | Some s \<Rightarrow> Inr (close (fileno s) w))))"

section \<open>Passive mode\<close>

definition init_passive_data_socket :: "os \<Rightarrow> world \<Rightarrow> data_socket_t option \<times> world" where
  "init_passive_data_socket os w =
     (if \<not> os_malloc os w Alloc_data_socket then (None, perror ''malloc'' w)
      else (Some \<lparr>data_socket_mode = PASSIVE, data_sockfd = 0, ds_addr = zero_sockaddr,
                  ds_address = None, ds_port = 0, ds_client_sockfd = -1\<rparr>, w))"

definition listen_socket :: "os \<Rightarrow> int \<Rightarrow> world \<Rightarrow> int \<times> world" where
  "listen_socket os fd w = (if \<not> os_listen os w fd then (-1, perror ''listen'' w) else (0, w))"

definition bind_socket :: "os \<Rightarrow> int \<Rightarrow> sockaddr \<Rightarrow> world \<Rightarrow> int \<times> world" where
  "bind_socket os fd addr w =
     (if \<not> os_bind os w fd addr then (-1, perror ''bind'' w) else (0, w))"

definition passive_sockin :: sockaddr where
  "passive_sockin = \<lparr>sin_addr = INADDR_LOOPBACK, sin_port = 0\<rparr>"

definition setup_socket_fd :: "os \<Rightarrow> world \<Rightarrow> int \<times> world" where
  "setup_socket_fd os w =
     (let (fd, w) = socket os w in (fd, if fd = -1 then perror ''socket'' w else w))"

definition set_final_port :: "os \<Rightarrow> data_socket_t \<Rightarrow> int \<Rightarrow> world \<Rightarrow> data_socket_t" where
  "set_final_port os ds fd w = ds\<lparr>ds_port := uint (sin_port (os_getsockname os w fd))\<rparr>"

definition setup_passive_data_socket :: "os \<Rightarrow> world \<Rightarrow> data_socket_t option \<times> world" where
  "setup_passive_data_socket os w =
     (let (dsock, w) = init_passive_data_socket os w;
          (fd, w) = setup_socket_fd os w
      in case dsock of
           None \<Rightarrow> (None, perror ''malloc'' w)
         | Some ds \<Rightarrow>
             if fd = -1 then (None, perror ''malloc'' w)
             else
               let addr = passive_sockin;
                   (r, w) = bind_socket os fd addr w
               in if r = -1 then (None, w)
                  else
                    let ds = set_final_port os ds fd w;
                        (r, w) = listen_socket os fd w
                    in if r = -1 then (None, w)
                       else (Some (ds\<lparr>data_sockfd := fd, ds_addr := addr\<rparr>), w))"

section \<open>Active mode\<close>

definition init_active_data_socket :: "os \<Rightarrow> world \<Rightarrow> data_socket_t option \<times> world" where
  "init_active_data_socket os w =
     (if \<not> os_malloc os w Alloc_data_socket then (None, perror ''malloc'' w)
      else
        let (fd, w) = socket os w
        in if fd = -1 then (None, perror ''socket'' w)
           else (Some \<lparr>data_socket_mode = ACTIVE, data_sockfd = -1, ds_addr = zero_sockaddr,
                       ds_address = None, ds_port = 0, ds_client_sockfd = fd\<rparr>, w))"

text \<open>
  The sum of the shifted octets is computed in 32-bit arithmetic and \<open>htons\<close> keeps 16 bits of the
  port: both wrap around.
\<close>

definition active_sockin :: "int list \<Rightarrow> int \<Rightarrow> sockaddr" where
  "active_sockin address port =
     \<lparr>sin_addr = word_of_int (address ! 0 * 2 ^ 24 + address ! 1 * 2 ^ 16 + address ! 2 * 2 ^ 8 +
                   address ! 3),
      sin_port = word_of_int port\<rparr>"

text \<open>\<open>host_port\<close> points to six integers.\<close>

definition setup_active_data_socket :: "os \<Rightarrow> int list \<Rightarrow> world \<Rightarrow> data_socket_t option \<times> world"
where
  "setup_active_data_socket os host_port w =
     (let (dsock, w) = init_active_data_socket os w;
          address_ok = os_malloc os w Alloc_address;
          port = merge_port (Some (host_port ! 4, host_port ! 5))
      in case dsock of
           None \<Rightarrow> (None, perror ''malloc'' w)
         | Some ds \<Rightarrow>
             if \<not> address_ok then (None, perror ''malloc'' w)
             else
               let address = take 4 host_port
               in (Some (ds\<lparr>ds_addr := active_sockin address port, ds_address := Some address,
                           ds_port := port\<rparr>), w))"

section \<open>Executing a transfer\<close>

definition fork_execution :: "os \<Rightarrow> connection_t \<Rightarrow> command_execution \<Rightarrow> command_t \<Rightarrow> world \<Rightarrow>
    command_status_t \<times> world" where
  "fork_execution os connection command_execution command w =
     (let pid = os_fork os w
      in if pid = -1 then (COMMAND_FAILURE, perror ''fork'' w)
         else (COMMAND_SUCCESS,
               w\<lparr>jobs := jobs w @
                   [\<lparr>job_pid = pid, job_connection = connection, job_command = command,
                     job_execution = command_execution, job_cwd = cwd w,
                     job_fds = open_fds w\<rparr>]\<rparr>))"

text \<open>\<open>accept\<close> waits in the server process until the client connects.\<close>

definition accept_connection ::
    "os \<Rightarrow> data_socket_t \<Rightarrow> world \<Rightarrow> (int \<times> data_socket_t \<times> world) result" where
  "accept_connection os ds w =
     (if \<not> os_peer os w (data_sockfd ds) then Inl Blocked
      else
        let (r, w) = accept os (data_sockfd ds) w
        in case r of
             None \<Rightarrow> Inr (-1, ds\<lparr>ds_client_sockfd := -1\<rparr>, perror ''accept'' w)
           | Some (fd, addr) \<Rightarrow>
               let ds = ds\<lparr>ds_client_sockfd := fd, ds_addr := addr\<rparr>
               in Inr (0, ds, printf (log_accepted (ds_addr ds)) w))"

definition active_connection :: "os \<Rightarrow> data_socket_t \<Rightarrow> world \<Rightarrow> int \<times> world" where
  "active_connection os ds w =
     (if \<not> os_connect os w (ds_client_sockfd ds) (ds_addr ds) then (-1, perror ''connect'' w)
      else (0, w))"

definition establish_data_socket_connection ::
    "os \<Rightarrow> data_socket_t \<Rightarrow> world \<Rightarrow> (int \<times> data_socket_t \<times> world) result" where
  "establish_data_socket_connection os ds w =
     (if data_socket_mode ds = PASSIVE
      then (case accept_connection os ds w of
              Inl e \<Rightarrow> Inl e
            | Inr (r, ds, w) \<Rightarrow> Inr (if r = -1 then -1 else 0, ds, w))
      else let (r, w) = active_connection os ds w in Inr (if r = -1 then -1 else 0, ds, w))"

definition msg_no_connection :: string where
  "msg_no_connection = ''425 Failed to establish connection.'' @ crlf"

definition execute_data_socket_command ::
    "os \<Rightarrow> connection_t \<Rightarrow> command_execution \<Rightarrow> command_t \<Rightarrow> world \<Rightarrow> outcome" where
  "execute_data_socket_command os connection command_execution command w =
     (case data_socket connection of
        None \<Rightarrow> Inl Null_deref
      | Some ds \<Rightarrow>
          (case establish_data_socket_connection os ds w of
             Inl e \<Rightarrow> Inl e
           | Inr (r, ds, w) \<Rightarrow>
               let connection = connection\<lparr>data_socket := Some ds\<rparr>
               in if r = -1
                  then
                    let w = reply connection msg_no_connection w
                    in case destroy_data_socket (data_socket connection) True w of
                         Inl e \<Rightarrow> Inl e
                       | Inr w \<Rightarrow> Inr (COMMAND_FAILURE, connection\<lparr>data_socket := None\<rparr>, w)
                  else
                    let (st, w) = fork_execution os connection command_execution command w;
                        w = (if st = COMMAND_FAILURE then reply connection msg_local_error w else w)
                    in case destroy_data_socket (data_socket connection) True w of
                         Inl e \<Rightarrow> Inl e
                       | Inr w \<Rightarrow> Inr (COMMAND_SUCCESS, connection\<lparr>data_socket := None\<rparr>, w)))"

section \<open>The two kinds of data sockets\<close>

text \<open>
  What PASV, PORT and the executor rely on when they set a data socket up, in either mode: it is
  well formed, and nothing but the descriptors and the log changes.
\<close>

locale data_socket_provider =
  fixes create :: "world \<Rightarrow> data_socket_t option \<times> world"
    and mode :: data_socket_mode_t
  assumes create_quiet: "quiet w (snd (create w))"
    and create_wf: "fst (create w) = Some ds \<Longrightarrow> wf_data_socket ds \<and> data_socket_mode ds = mode"
begin

lemma provided_wf: "wf_sockets (c\<lparr>data_socket := fst (create w)\<rparr>)"
  using create_wf by (auto simp: wf_sockets_def)

lemma provided_silent: "bytes_sent p fd (trace (snd (create w))) = bytes_sent p fd (trace w)"
  by (rule quiet_bytes_sent) (rule create_quiet)

end

lemma setup_socket_fd_quiet: "quiet w (snd (setup_socket_fd os w))"
  by (auto simp: setup_socket_fd_def Let_def case_prod_beta
      intro: quiet_trans [OF quiet_steps(4) quiet_steps(2)])

lemma bind_socket_quiet: "quiet w (snd (bind_socket os fd a w))"
  by (simp add: bind_socket_def)

lemma listen_socket_quiet: "quiet w (snd (listen_socket os fd w))"
  by (simp add: listen_socket_def)

lemma init_passive_quiet: "quiet w (snd (init_passive_data_socket os w))"
  by (simp add: init_passive_data_socket_def)

lemma init_active_quiet: "quiet w (snd (init_active_data_socket os w))"
  by (auto simp: init_active_data_socket_def Let_def case_prod_beta
      intro: quiet_trans [OF quiet_steps(4) quiet_steps(2)])

lemma setup_passive_quiet: "quiet w (snd (setup_passive_data_socket os w))"
proof -
  let ?w1 = "snd (init_passive_data_socket os w)"
  let ?fd = "fst (setup_socket_fd os ?w1)" and ?w2 = "snd (setup_socket_fd os ?w1)"
  let ?w3 = "snd (bind_socket os ?fd passive_sockin ?w2)"
  let ?w4 = "snd (listen_socket os ?fd ?w3)"
  have 2: "quiet w ?w2"
    using init_passive_quiet setup_socket_fd_quiet by (rule quiet_trans)
  have 3: "quiet w ?w3" using 2 bind_socket_quiet by (rule quiet_trans)
  have 4: "quiet w ?w4" using 3 listen_socket_quiet by (rule quiet_trans)
  have "snd (setup_passive_data_socket os w) \<in> {perror ''malloc'' ?w2, ?w3, ?w4}"
    by (auto simp: setup_passive_data_socket_def Let_def case_prod_beta split: option.splits)
  with 3 4 quiet_trans [OF 2 quiet_steps(2)] show ?thesis by auto
qed

lemma setup_active_quiet: "quiet w (snd (setup_active_data_socket os hp w))"
proof -
  let ?w1 = "snd (init_active_data_socket os w)"
  have "snd (setup_active_data_socket os hp w) \<in> {?w1, perror ''malloc'' ?w1}"
    by (auto simp: setup_active_data_socket_def Let_def case_prod_beta split: option.splits)
  with init_active_quiet quiet_trans [OF init_active_quiet quiet_steps(2)] show ?thesis by auto
qed

lemma setup_passive_Some:
  assumes "setup_passive_data_socket os w = (Some ds, w')"
  shows "data_socket_mode ds = PASSIVE" "ds_client_sockfd ds = -1"
    "sin_addr (ds_addr ds) = INADDR_LOOPBACK" "0 \<le> ds_port ds" "ds_port ds \<le> 65535"
    "data_sockfd ds \<noteq> -1"
proof -
  have "uint (p :: 16 word) \<le> 65535" for p
    using uint_bounded [of p] by simp
  then show "data_socket_mode ds = PASSIVE" "ds_client_sockfd ds = -1"
    "sin_addr (ds_addr ds) = INADDR_LOOPBACK" "0 \<le> ds_port ds" "ds_port ds \<le> 65535"
    "data_sockfd ds \<noteq> -1"
    using assms
    by (auto simp: setup_passive_data_socket_def init_passive_data_socket_def set_final_port_def
        passive_sockin_def Let_def case_prod_beta split: if_splits option.splits)
qed

lemma setup_active_Some:
  assumes "setup_active_data_socket os hp w = (Some ds, w')"
  shows "data_socket_mode ds = ACTIVE" "ds_address ds = Some (take 4 hp)" "data_sockfd ds = -1"
    "ds_port ds = merge_port (Some (hp ! 4, hp ! 5))" "ds_client_sockfd ds \<noteq> -1"
    "ds_addr ds = active_sockin (take 4 hp) (ds_port ds)"
  using assms
  by (auto simp: setup_active_data_socket_def init_active_data_socket_def
      Let_def case_prod_beta split: if_splits option.splits)

interpretation passive_provider:
  data_socket_provider "setup_passive_data_socket os" PASSIVE for os
proof unfold_locales
  fix w ds
  show "quiet w (snd (setup_passive_data_socket os w))" by (rule setup_passive_quiet)
  assume "fst (setup_passive_data_socket os w) = Some ds"
  then have "setup_passive_data_socket os w = (Some ds, snd (setup_passive_data_socket os w))"
    by (metis prod.collapse)
  from setup_passive_Some [OF this] show "wf_data_socket ds \<and> data_socket_mode ds = PASSIVE"
    by (simp add: wf_data_socket_def)
qed

interpretation active_provider:
  data_socket_provider "setup_active_data_socket os host_port" ACTIVE for os host_port
proof unfold_locales
  fix w ds
  show "quiet w (snd (setup_active_data_socket os host_port w))" by (rule setup_active_quiet)
  assume "fst (setup_active_data_socket os host_port w) = Some ds"
  then have "setup_active_data_socket os host_port w =
      (Some ds, snd (setup_active_data_socket os host_port w))"
    by (metis prod.collapse)
  from setup_active_Some [OF this] show "wf_data_socket ds \<and> data_socket_mode ds = ACTIVE"
    by (simp add: wf_data_socket_def)
qed

section \<open>Destruction and execution\<close>

lemma destroy_data_socket_quiet:
  assumes "destroy_data_socket d v w = Inr w'"
  shows "quiet w w' \<and> open_fds w' =
    (case d of None \<Rightarrow> open_fds w
     | Some ds \<Rightarrow> open_fds w - (if ds_client_sockfd ds = -1 then {} else {ds_client_sockfd ds}))"
  using assms quiet_trans [OF quiet_steps(1) quiet_steps(3)]
  by (auto simp: destroy_data_socket_def split: option.splits if_splits)

lemma not_PASSIVE: "m \<noteq> PASSIVE \<longleftrightarrow> m = ACTIVE"
  by (cases m) auto

lemma destroy_data_socket_ok:
  "\<forall>ds. d = Some ds \<longrightarrow> wf_data_socket ds \<Longrightarrow> \<exists>w'. destroy_data_socket d v w = Inr w'"
  by (auto simp: destroy_data_socket_def wf_data_socket_def not_PASSIVE split: option.splits)

lemma destroy_connection_quiet:
  assumes "destroy_connection c v w = Inr w'"
  shows "quiet w w'"
proof -
  define w1 where "w1 = (if v then printf (log_disconnected (the (client_addr c))) w else w)"
  have 1: "quiet w w1" by (simp add: w1_def)
  from assms obtain w2 where 2: "destroy_data_socket (data_socket c) v w1 = Inr w2"
    and w': "w' = close (fileno (the (stream c))) w2"
    by (auto simp: destroy_connection_def w1_def split: if_splits option.splits sum.splits)
  from 1 destroy_data_socket_quiet [OF 2] have "quiet w w2" by (blast intro: quiet_trans)
  then show ?thesis unfolding w' by (rule quiet_trans) simp
qed

lemma destroy_connection_fds:
  "destroy_connection c v w = Inr w' \<Longrightarrow> open_fds w' \<subseteq> open_fds w"
  by (auto simp: destroy_connection_def destroy_data_socket_def
      split: if_splits option.splits sum.splits)

lemma destroy_connection_ok:
  assumes "wf_sockets c" "v \<Longrightarrow> client_addr c \<noteq> None" "stream c \<noteq> None"
  shows "\<exists>w'. destroy_connection c v w = Inr w'"
proof -
  have "\<exists>w'. destroy_data_socket (data_socket c) v w1 = Inr w'" for w1
    using assms(1) by (intro destroy_data_socket_ok) (simp add: wf_sockets_def)
  with assms(2,3) show ?thesis
    by (auto simp: destroy_connection_def split: option.splits sum.splits) (metis Inl_Inr_False)+
qed

lemma establish_quiet:
  assumes "establish_data_socket_connection os ds w = Inr (r, ds1, w1)"
  shows "quiet w w1"
  using assms quiet_trans [OF quiet_steps(5) quiet_steps(1)] quiet_trans [OF quiet_steps(5) quiet_steps(2)]
  by (auto simp: establish_data_socket_connection_def accept_connection_def active_connection_def
      Let_def case_prod_beta split: option.splits if_splits)

lemma establish_wf:
  "establish_data_socket_connection os ds w = Inr (r, ds1, w1) \<Longrightarrow> wf_data_socket ds \<Longrightarrow>
   wf_data_socket ds1"
  by (auto simp: establish_data_socket_connection_def accept_connection_def active_connection_def
      wf_data_socket_def Let_def case_prod_beta split: option.splits if_splits)

text \<open>The one way not to come back: a passive socket to which nobody connects.\<close>

definition nobody_connects :: "os \<Rightarrow> connection_t \<Rightarrow> world \<Rightarrow> bool" where
  "nobody_connects os c w \<longleftrightarrow>
     (case data_socket c of
        None \<Rightarrow> False
      | Some ds \<Rightarrow> data_socket_mode ds = PASSIVE \<and> \<not> os_peer os w (data_sockfd ds))"

lemma establish_Inl:
  "establish_data_socket_connection os ds w = Inl e \<longleftrightarrow>
     e = Blocked \<and> data_socket_mode ds = PASSIVE \<and> \<not> os_peer os w (data_sockfd ds)"
  by (auto simp: establish_data_socket_connection_def accept_connection_def active_connection_def
      Let_def case_prod_beta split: option.splits)

text \<open>
  The executor: at most one child is started; the parent is left without a data socket, in the
  working directory and with the files it had, whatever happens.
\<close>

definition forked :: "os \<Rightarrow> connection_t \<Rightarrow> command_execution \<Rightarrow> command_t \<Rightarrow> world \<Rightarrow> job" where
  "forked os c e cmd w =
     \<lparr>job_pid = os_fork os w, job_connection = c, job_command = cmd, job_execution = e,
      job_cwd = cwd w, job_fds = open_fds w\<rparr>"

lemma forked_simps [simp]:
  "job_connection (forked os c e cmd w) = c" "job_command (forked os c e cmd w) = cmd"
  "job_execution (forked os c e cmd w) = e" "job_cwd (forked os c e cmd w) = cwd w"
  by (simp_all add: forked_def)

definition spawned :: "os \<Rightarrow> connection_t \<Rightarrow> data_socket_t \<Rightarrow> command_execution \<Rightarrow> command_t \<Rightarrow> bool \<Rightarrow>
    world \<Rightarrow> world" where
  "spawned os c ds e cmd failed w =
     (if failed then reply c msg_no_connection w
      else if os_fork os w = -1 then reply c msg_local_error (perror ''fork'' w)
      else w\<lparr>jobs := jobs w @ [forked os (c\<lparr>data_socket := Some ds\<rparr>) e cmd w]\<rparr>)"

lemma execute_data_socket_cases:
  assumes "data_socket c = Some ds"
    and est: "establish_data_socket_connection os ds w = Inr (r, ds1, w1)"
  shows "execute_data_socket_command os c e cmd w =
    (case destroy_data_socket (Some ds1) True (spawned os c ds1 e cmd (r = -1) w1) of
       Inl e \<Rightarrow> Inl e
     | Inr w' \<Rightarrow>
         Inr (if r = -1 then COMMAND_FAILURE else COMMAND_SUCCESS, c\<lparr>data_socket := None\<rparr>, w'))"
  using assms
  by (auto simp: execute_data_socket_command_def fork_execution_def forked_def spawned_def Let_def
      reply_def split: sum.splits)

lemma execute_data_socket_contract:
  assumes r: "execute_data_socket_command os c e cmd w = Inr (st, c', w')"
  shows "same_peer c c' \<and> replies_to (client_sockfd c) w w' \<and>
    (st = COMMAND_SUCCESS \<or> st = COMMAND_FAILURE) \<and> net_in w' = net_in w \<and> net_eof w' = net_eof w \<and>
    logged_in c' = logged_in c \<and> user c' = user c \<and> data_socket c' = None \<and>
    working_directory c' = working_directory c \<and> wf_sockets c' \<and> fsys w' = fsys w \<and> cwd w' = cwd w \<and>
    (jobs w' = jobs w \<or> (\<exists>c1 w1. jobs w' = jobs w @ [forked os c1 e cmd w1] \<and> cwd w1 = cwd w \<and>
      same_peer c c1 \<and> st = COMMAND_SUCCESS))"
proof -
  from r obtain ds where ds: "data_socket c = Some ds"
    by (auto simp: execute_data_socket_command_def split: option.splits)
  from r ds obtain n ds1 w1 where est: "establish_data_socket_connection os ds w = Inr (n, ds1, w1)"
    by (auto simp: execute_data_socket_command_def split: sum.splits)
  define w2 where "w2 = spawned os c ds1 e cmd (n = -1) w1"
  let ?job = "forked os (c\<lparr>data_socket := Some ds1\<rparr>) e cmd w1"
  have q1: "quiet w w1" by (rule establish_quiet [OF est])
  from r have d: "destroy_data_socket (Some ds1) True w2 = Inr w'"
    and st: "st = (if n = -1 then COMMAND_FAILURE else COMMAND_SUCCESS)"
    and c': "c' = c\<lparr>data_socket := None\<rparr>"
    unfolding execute_data_socket_cases [OF ds est] w2_def by (auto split: sum.splits)
  from destroy_data_socket_quiet [OF d] have q2: "quiet w2 w'" by simp
  have "replies_to (client_sockfd c) w1 w2"
    by (auto simp: w2_def spawned_def intro: replies_to_trans [OF replies_to_perror replies_to_reply]
        replies_to_quiet)
  then have "replies_to (client_sockfd c) w w'"
    using quiet_replies_to [OF q1] quiet_replies_to [OF q2] by (blast intro: replies_to_trans)
  moreover have "net_in w2 = net_in w1 \<and> net_eof w2 = net_eof w1 \<and> fsys w2 = fsys w1 \<and> cwd w2 = cwd w1
      \<and> (jobs w2 = jobs w1 \<or> jobs w2 = jobs w1 @ [?job] \<and> st = COMMAND_SUCCESS)"
    by (auto simp: w2_def spawned_def st)
  moreover have "same_peer c (c\<lparr>data_socket := Some ds1\<rparr>)" "same_peer c c'" by (simp_all add: c')
  moreover have "logged_in c' = logged_in c \<and> user c' = user c \<and> data_socket c' = None \<and>
      working_directory c' = working_directory c \<and> wf_sockets c'" by (simp add: c')
  moreover have "st = COMMAND_SUCCESS \<or> st = COMMAND_FAILURE" by (simp add: st)
  ultimately show ?thesis
    using quietD [OF q1] quietD [OF q2] by (auto 0 4)
qed

lemma execute_data_socket_ok:
  assumes "data_socket c = Some ds" "wf_data_socket ds"
  shows "if nobody_connects os c w then execute_data_socket_command os c e cmd w = Inl Blocked
    else \<exists>r. execute_data_socket_command os c e cmd w = Inr r"
proof (cases "establish_data_socket_connection os ds w")
  case (Inl f)
  then show ?thesis
    using assms(1) establish_Inl [of os ds w f]
    by (simp add: nobody_connects_def execute_data_socket_command_def)
next
  case (Inr r)
  then obtain n ds1 w1 where est: "establish_data_socket_connection os ds w = Inr (n, ds1, w1)"
    by (cases r) auto
  then have c: "\<not> nobody_connects os c w"
    using assms(1) establish_Inl [of os ds w Blocked] by (simp add: nobody_connects_def)
  have "wf_data_socket ds1" by (rule establish_wf [OF est assms(2)])
  then obtain w' where "destroy_data_socket (Some ds1) True (spawned os c ds1 e cmd (n = -1) w1) = Inr w'"
    using destroy_data_socket_ok [of "Some ds1"] by auto
  then show ?thesis
    unfolding execute_data_socket_cases [OF assms(1) est] using c by simp
qed

end
