(* ===== verification/Directory_Commands.thy ===== *)
theory Directory_Commands
  imports Handler
begin

text \<open>
  The commands that change directories or remove files: \<open>commands/cwd.c\<close>, \<open>cdup.c\<close> and
  \<open>dele.c\<close>.  The server has one working directory for all its clients; a handler enters the
  directory of its client and, except for DELE, goes back to the server's root (theory
  Directories).
\<close>

section \<open>CWD and CDUP\<close>

definition msg_cwd_failed :: string where
  "msg_cwd_failed = ''550 Failed to change directory.'' @ crlf"

definition msg_cwd_ok :: string where
  "msg_cwd_ok = ''250 Directory successfully changed.'' @ crlf"

text \<open>\<open>directory\<close> says whether \<open>opendir\<close> succeeded; \<open>closedir\<close> has no visible effect.\<close>

definition check_directory :: "connection_t \<Rightarrow> bool \<Rightarrow> world \<Rightarrow> int \<times> world" where
  "check_directory connection directory w =
     (if directory then (0, w) else (1, reply connection msg_cwd_failed w))"

definition check_exists :: "connection_t \<Rightarrow> string \<Rightarrow> world \<Rightarrow> int \<times> world" where
  "check_exists connection path w =
     (if \<not> fs_access (fsys w) (cwd w) path then (1, reply connection msg_cwd_failed w) else (0, w))"

definition check_new_path :: "connection_t \<Rightarrow> world \<Rightarrow> connection_t result" where
  "check_new_path connection w =
     (let root = srv_path (server connection)
      in case working_directory connection of
           None \<Rightarrow> Inl Null_deref
         | Some wd \<Rightarrow>
             if strncmp wd root (length root) \<noteq> 0
             then Inr (connection\<lparr>working_directory := getcwd w\<rparr>)
             else Inr connection)"

definition change_dir :: "connection_t \<Rightarrow> string \<Rightarrow> world \<Rightarrow> outcome" where
  "change_dir connection path w =
     (let (r, w) = check_exists connection path w
      in if r = 1 then Inr (COMMAND_FAILURE, connection, w)
         else
           let directory = fs_opendir (fsys w) (cwd w) path;
               (r, w) = check_directory connection directory w
           in if r = 1 then Inr (COMMAND_FAILURE, connection, w)
              else
                let w = snd (chdir_ptr (working_directory connection) w);
                    w = snd (chdir path w);
                    connection = connection\<lparr>working_directory := getcwd w\<rparr>;
                    w = snd (chdir (srv_path (server connection)) w)
                in case check_new_path connection w of
                     Inl e \<Rightarrow> Inl e
                   | Inr connection \<Rightarrow>
                       Inr (COMMAND_SUCCESS, connection, reply connection msg_cwd_ok w))"

definition cwd_command :: handler where
  "cwd_command command connection w =
     (if \<not> logged_in connection
      then Inr (COMMAND_FAILURE, connection, reply connection msg_please_login w)
      else if argc command \<noteq> 1
      then Inr (COMMAND_FAILURE, connection, reply connection msg_cwd_failed w)
      else case argv0 command of
             None \<Rightarrow> Inl Null_deref
           | Some path \<Rightarrow> change_dir connection path w)"

text \<open>
  \<open>commands/cdup.c\<close> has its own static functions of the same names.
\<close>

definition cdup_check_directory :: "connection_t \<Rightarrow> bool \<Rightarrow> world \<Rightarrow> int \<times> world" where
  "cdup_check_directory connection directory w =
     (if directory then (0, w) else (1, reply connection msg_cwd_failed w))"

definition cdup_check_exists :: "connection_t \<Rightarrow> string \<Rightarrow> world \<Rightarrow> int \<times> world" where
  "cdup_check_exists connection path w =
     (if \<not> fs_access (fsys w) (cwd w) path then (1, reply connection msg_cwd_failed w) else (0, w))"

definition cdup_check_new_path :: "connection_t \<Rightarrow> world \<Rightarrow> connection_t result" where
  "cdup_check_new_path connection w =
     (let root = srv_path (server connection)
      in case working_directory connection of
           None \<Rightarrow> Inl Null_deref
         | Some wd \<Rightarrow>
             if strncmp wd root (length root) \<noteq> 0
             then Inr (connection\<lparr>working_directory := getcwd w\<rparr>)
             else Inr connection)"

definition cdup_change_dir :: "connection_t \<Rightarrow> string \<Rightarrow> world \<Rightarrow> outcome" where
  "cdup_change_dir connection path w =
     (let (r, w) = cdup_check_exists connection path w
      in if r = 1 then Inr (COMMAND_FAILURE, connection, w)
         else
           let directory = fs_opendir (fsys w) (cwd w) path;
               (r, w) = cdup_check_directory connection directory w
           in if r = 1 then Inr (COMMAND_FAILURE, connection, w)
              else
                let w = snd (chdir_ptr (working_directory connection) w);
                    w = snd (chdir path w);
                    connection = connection\<lparr>working_directory := getcwd w\<rparr>;
                    w = snd (chdir (srv_path (server connection)) w)
                in case cdup_check_new_path connection w of
                     Inl e \<Rightarrow> Inl e
                   | Inr connection \<Rightarrow>
                       Inr (COMMAND_SUCCESS, connection, reply connection msg_cwd_ok w))"

definition cdup_command :: handler where
  "cdup_command command connection w =
     (if \<not> logged_in connection
      then Inr (COMMAND_FAILURE, connection, reply connection msg_please_login w)
      else cdup_change_dir connection ''..'' w)"

text \<open>They agree with those of \<open>cwd.c\<close>, so CDUP is the CWD of the parent directory.\<close>

lemma cdup_change_dir_eq [simp]: "cdup_change_dir = change_dir"
proof -
  have "cdup_check_exists = check_exists" "cdup_check_directory = check_directory"
    "cdup_check_new_path = check_new_path"
    by (intro ext, simp add: cdup_check_exists_def check_exists_def cdup_check_directory_def
        check_directory_def cdup_check_new_path_def check_new_path_def)+
  then show ?thesis by (intro ext) (simp only: cdup_change_dir_def change_dir_def)
qed

text \<open>The directory a client is in after the two \<open>chdir\<close> calls of \<open>change_dir\<close>.\<close>

definition cwd_target :: "connection_t \<Rightarrow> string \<Rightarrow> world \<Rightarrow> world" where
  "cwd_target connection path w =
     snd (chdir path (snd (chdir_ptr (working_directory connection) w)))"

lemma cwd_target_simps [simp]:
  "self_pid (cwd_target c p w) = self_pid w" "fsys (cwd_target c p w) = fsys w"
  "open_fds (cwd_target c p w) = open_fds w" "net_in (cwd_target c p w) = net_in w"
  "net_eof (cwd_target c p w) = net_eof w" "jobs (cwd_target c p w) = jobs w"
  "trace (cwd_target c p w) = trace w"
  by (simp_all add: cwd_target_def)

lemma change_dir_cases:
  "change_dir c path w =
     (if \<not> (fs_access (fsys w) (cwd w) path \<and> fs_opendir (fsys w) (cwd w) path)
      then Inr (COMMAND_FAILURE, c, reply c msg_cwd_failed w)
      else
        let w1 = cwd_target c path w;
            root = srv_path (server c);
            w2 = snd (chdir root w1)
        in case getcwd w1 of
             None \<Rightarrow> Inl Null_deref
           | Some wd \<Rightarrow>
               let c' = c\<lparr>working_directory :=
                          if strncmp wd root (length root) \<noteq> 0 then getcwd w2 else Some wd\<rparr>
               in Inr (COMMAND_SUCCESS, c', reply c' msg_cwd_ok w2))"
  by (auto simp: change_dir_def check_exists_def check_directory_def check_new_path_def
      cwd_target_def Let_def split: option.splits)

lemma change_dir_contract:
  assumes "change_dir c path w = Inr (st, c', w')"
  shows "same_peer c c' \<and> replies_to (client_sockfd c) w w' \<and>
    (st = COMMAND_SUCCESS \<or> st = COMMAND_FAILURE) \<and> net_in w' = net_in w \<and> net_eof w' = net_eof w \<and>
    logged_in c' = logged_in c \<and> user c' = user c \<and> fsys w' = fsys w \<and>
    jobs w' = jobs w \<and> data_socket c' = data_socket c"
  using assms
  by (auto simp: change_dir_cases Let_def same_peer_def split: if_splits option.splits
      intro!: replies_to_emit)

text \<open>
  The check after the move: the new directory begins with the root, or it is the root, which the
  server has gone back to.
\<close>

lemma change_dir_inside:
  assumes "change_dir c path w = Inr (st, c', w')"
    and "canonical_dir w (srv_path (server c))" and "wd_inside c"
  shows "wd_inside c'"
proof (cases "c' = c")
  case True
  with assms(3) show ?thesis by simp
next
  case False
  let ?root = "srv_path (server c)" and ?w1 = "cwd_target c path w"
  have root: "getcwd (snd (chdir ?root ?w1)) = Some ?root"
    using assms(2) world_dirs.enter [of ?w1 ?root] by (simp add: canonical_dir_fsys [of ?w1 w])
  have nul: "NUL \<notin> set ?root" using assms(2) by (rule canonical_dir_no_NUL)
  from assms(1) False show ?thesis
    by (auto simp: change_dir_cases Let_def wd_inside_def root strncmp_prefix [OF nul]
        split: if_splits option.splits)
qed

lemma change_dir_inv:
  assumes "change_dir c path w = Inr (st, c', w')"
    and "canonical_dir w (srv_path (server c))" and "conn_inv c"
  shows "conn_inv c'"
  using change_dir_inside [OF assms(1,2)] change_dir_contract [OF assms(1)] assms(3)
  by (simp add: conn_inv_def wf_sockets_def)

interpretation cwd_handler: guarded_handler cwd_command
  by unfold_locales
    (auto simp: cwd_command_def split: if_splits option.splits
      dest: change_dir_contract change_dir_inv)

interpretation cdup_handler: guarded_handler cdup_command
  by unfold_locales
    (auto simp: cdup_command_def split: if_splits option.splits
      dest: change_dir_contract change_dir_inv)

section \<open>DELE\<close>

definition msg_dele_failed :: string where
  "msg_dele_failed = ''550 Delete operation failed.'' @ crlf"

definition msg_dele_ok :: string where
  "msg_dele_ok = ''250 Requested file action okay.'' @ crlf"

definition remove :: "string \<Rightarrow> world \<Rightarrow> int \<times> world" where
  "remove s w =
     (case fs_remove (fsys w) (cwd w) s of
        None \<Rightarrow> (-1, w) | Some fs' \<Rightarrow> (0, w\<lparr>fsys := fs'\<rparr>))"

definition delete_file :: "connection_t \<Rightarrow> string \<Rightarrow> world \<Rightarrow> outcome" where
  "delete_file connection filepath w =
     (let w = snd (chdir_ptr (working_directory connection) w);
          (r, w) = remove filepath w
      in if r \<noteq> 0 then Inr (COMMAND_FAILURE, connection, reply connection msg_dele_failed w)
         else Inr (COMMAND_SUCCESS, connection, reply connection msg_dele_ok w))"

definition dele_command :: handler where
  "dele_command command connection w =
     (if \<not> logged_in connection
      then Inr (COMMAND_FAILURE, connection, reply connection msg_please_login w)
      else if argc command \<noteq> 1
      then Inr (COMMAND_FAILURE, connection, reply connection msg_dele_failed w)
      else case argv0 command of
             None \<Rightarrow> Inl Null_deref
           | Some filepath \<Rightarrow> delete_file connection filepath w)"

lemma delete_file_cases:
  "delete_file c filepath w =
     (let w1 = snd (chdir_ptr (working_directory c) w)
      in case fs_remove (fsys w) (cwd w1) filepath of
           None \<Rightarrow> Inr (COMMAND_FAILURE, c, reply c msg_dele_failed w1)
         | Some fs' \<Rightarrow> Inr (COMMAND_SUCCESS, c, reply c msg_dele_ok (w1\<lparr>fsys := fs'\<rparr>)))"
  by (auto simp: delete_file_def remove_def Let_def split: option.splits)

interpretation dele_handler: guarded_handler dele_command
  by unfold_locales
    (auto simp: dele_command_def delete_file_cases Let_def
      split: if_splits option.splits intro!: replies_to_emit intro: root_safe_remove)

end
