(* ===== verification/File_Stream.thy ===== *)
theory File_Stream
  imports World
begin

text \<open>
  Writing to a stream, as the upload of the server and the download of the client do it: a file
  opened with \<open>fopen\<close> and filled by one \<open>fwrite\<close> after the other, or a socket that is sent one
  buffer after the other.
\<close>

section \<open>Files\<close>

text \<open>\<open>fwrite(line, 1, n, file)\<close> on the file that was opened for writing.\<close>

definition append_file :: "path \<Rightarrow> string \<Rightarrow> world \<Rightarrow> world" where
  "append_file p s w =
     (case lookup (fsys w) p of
        Some (File r wr old) \<Rightarrow> w\<lparr>fsys := write_file (fsys w) p (old @ s)\<rparr>
      | _ \<Rightarrow> w)"

text \<open>The loops that store what they read write the lines one after the other.\<close>

lemma fold_append_file:
  assumes "lookup (fsys w) p = Some (File r wr old)"
  shows "\<exists>w'. fold (append_file p) ls w = w' \<and>
    lookup (fsys w') = (lookup (fsys w))(p \<mapsto> File r wr (old @ concat ls)) \<and>
    w' = w\<lparr>fsys := fsys w'\<rparr>"
  using assms
proof (induction ls arbitrary: w old)
  case Nil
  then show ?case by auto
next
  case (Cons l ls)
  let ?w = "append_file p l w"
  have w: "?w = w\<lparr>fsys := write_file (fsys w) p (old @ l)\<rparr>"
    using Cons.prems by (simp add: append_file_def)
  then have l: "lookup (fsys ?w) = (lookup (fsys w))(p \<mapsto> File r wr (old @ l))"
    using Cons.prems by (auto simp: lookup_write_file)
  from l have "lookup (fsys ?w) p = Some (File r wr (old @ l))" by simp
  from Cons.IH [OF this] show ?case using l w by (auto intro: exI) 
qed

text \<open>
  A file opened for writing and filled with lines holds the lines, and no other file changes.
\<close>

lemma fill_file:
  assumes "fs_fopen_w (fsys w) (cwd w) path = Some (p, fs')"
  shows "\<exists>w' r. fold (append_file p) ls (w\<lparr>fsys := fs'\<rparr>) = w' \<and>
    lookup (fsys w') = (lookup (fsys w))(p \<mapsto> File r True (concat ls)) \<and>
    (lookup (fsys w) p = None \<and> r \<or> (\<exists>old. lookup (fsys w) p = Some (File r True old))) \<and>
    w' = w\<lparr>fsys := fsys w'\<rparr>"
proof -
  from fs_fopen_w_target [OF assms] obtain r where fs': "fs' = write_file (fsys w) p []"
    and r: "lookup (fsys w) p = None \<and> r \<or> (\<exists>old. lookup (fsys w) p = Some (File r True old))"
    by blast
  let ?w1 = "w\<lparr>fsys := fs'\<rparr>"
  from r have l: "lookup (fsys ?w1) = (lookup (fsys w))(p \<mapsto> File r True [])"
    by (auto simp: fs' lookup_write_file)
  then have "lookup (fsys ?w1) p = Some (File r True [])" by simp
  from fold_append_file [OF this, of ls] obtain w2
    where w2: "fold (append_file p) ls ?w1 = w2"
    and l2: "lookup (fsys w2) = (lookup (fsys ?w1))(p \<mapsto> File r True (concat ls))"
    and eq: "w2 = ?w1\<lparr>fsys := fsys w2\<rparr>"
    by auto
  from eq have "w2 = w\<lparr>fsys := fsys w2\<rparr>" by (cases w; cases w2) simp
  with w2 l2 l r show ?thesis by (intro exI [of _ w2] exI [of _ r]) simp
qed

section \<open>Sockets\<close>

lemma bytes_sent_map [simp]: "bytes_sent p fd (map (Sent p fd) bs) = concat bs"
  by (induction bs) auto

lemma bytes_sent_map_other: "fd \<noteq> g \<Longrightarrow> bytes_sent p fd (map (Sent q g) bs) = []"
  by (induction bs) auto

end
