(* ===== verification/Transfer_Commands.thy ===== *)
theory Transfer_Commands
  imports Data_Socket Directory_Commands File_Stream
begin

text \<open>
  The commands that set up and use data connections: \<open>commands/pasv.c\<close>, \<open>port.c\<close>, \<open>list.c\<close>,
  \<open>retr.c\<close> and \<open>stor.c\<close>.  A transfer has two halves: the handler checks the request in the
  server process and hands one of the three \<open>execute_\<dots>\<close> functions to
  \<open>execute_data_socket_command\<close>; the function itself runs in the child (\<open>run_execution\<close>,
  \<open>child_main\<close>).
\<close>

section \<open>PASV\<close>

definition msg_passive :: "string \<Rightarrow> int \<Rightarrow> int \<Rightarrow> string" where
  "msg_passive host p0 p1 =
     ''227 Entering Passive Mode ('' @ host @ '','' @ show_int p0 @ '','' @ show_int p1 @ '').'' @ crlf"

definition log_passive_created :: "int \<Rightarrow> string" where
  "log_passive_created p = ''Passive Data socket created on port '' @ show_int p @ [LF]"

text \<open>A NULL result of \<open>split_port\<close> is followed (\<open>ports[0]\<close>).\<close>

definition create_passive_data_socket :: "os \<Rightarrow> connection_t \<Rightarrow> world \<Rightarrow> outcome" where
  "create_passive_data_socket os connection w =
     (let (dsock, w) = setup_passive_data_socket os w;
          connection = connection\<lparr>data_socket := dsock\<rparr>
      in case dsock of
           None \<Rightarrow> Inr (COMMAND_FAILURE, connection, reply connection msg_local_error w)
         | Some ds \<Rightarrow>
             let w = printf (log_passive_created (ds_port ds)) w
             in case split_port (os_malloc os w Alloc_ports) (ds_port ds) of
                  None \<Rightarrow> Inl Null_deref
                | Some (p0, p1) \<Rightarrow>
                    Inr (COMMAND_SUCCESS, connection,
                         reply connection
                           (msg_passive
                              (replace_dots_with_commas (inet_ntoa (sin_addr (ds_addr ds)))) p0 p1)
                           w))"

definition pasv_command :: "os \<Rightarrow> handler" where
  "pasv_command os command connection w =
     (if \<not> logged_in connection
      then Inr (COMMAND_FAILURE, connection, reply connection msg_please_login w)
      else create_passive_data_socket os connection w)"

section \<open>PORT\<close>

definition msg_bad_port :: string where
  "msg_bad_port = ''500 Illegal PORT command.'' @ crlf"

definition msg_port_ok :: string where
  "msg_port_ok = ''200 PORT command successful. Consider using PASV.'' @ crlf"

definition log_active_created :: "int list \<Rightarrow> int \<Rightarrow> string" where
  "log_active_created a p =
     ''Active Data socket created on '' @ show_address a @ '':'' @ show_int p @ [LF]"

text \<open>The next \<open>n\<close> tokens between commas, as integers; \<open>None\<close> when one is missing.\<close>

fun next_values :: "nat \<Rightarrow> string \<Rightarrow> int list option" where
  "next_values 0 s = Some []"
| "next_values (Suc n) s =
     (case strtok CHR '','' s of
        None \<Rightarrow> None
      | Some (token, rest) \<Rightarrow> map_option (\<lambda>vs. atoi token # vs) (next_values n rest))"

definition parse_host_port_values :: "string \<Rightarrow> int list option" where
  "parse_host_port_values arg = next_values 6 arg"

definition get_host_port :: "bool \<Rightarrow> string \<Rightarrow> int list option" where
  "get_host_port alloc arg = (if \<not> alloc then None else parse_host_port_values arg)"

definition create_active_data_socket :: "os \<Rightarrow> connection_t \<Rightarrow> command_t \<Rightarrow> world \<Rightarrow> outcome" where
  "create_active_data_socket os connection command w =
     (case argv0 command of
        None \<Rightarrow> Inl Null_deref
      | Some arg \<Rightarrow>
          (case get_host_port (os_malloc os w Alloc_host_port) arg of
             None \<Rightarrow> Inr (COMMAND_FAILURE, connection, reply connection msg_bad_port w)
           | Some host_port \<Rightarrow>
               let (dsock, w) = setup_active_data_socket os host_port w;
                   connection = connection\<lparr>data_socket := dsock\<rparr>
               in case dsock of
                    None \<Rightarrow> Inr (COMMAND_FAILURE, connection, reply connection msg_local_error w)
                  | Some ds \<Rightarrow>
                      let w = printf (log_active_created (take 4 host_port) (ds_port ds)) w
                      in Inr (COMMAND_SUCCESS, connection, reply connection msg_port_ok w)))"

definition port_command :: "os \<Rightarrow> handler" where
  "port_command os command connection w =
     (if \<not> logged_in connection
      then Inr (COMMAND_FAILURE, connection, reply connection msg_please_login w)
      else if argc command \<noteq> 1
      then Inr (COMMAND_FAILURE, connection, reply connection msg_bad_port w)
      else create_active_data_socket os connection command w)"

section \<open>LIST\<close>

definition msg_list_failed :: string where
  "msg_list_failed = ''550 Failed to list directory.'' @ crlf"

definition msg_list_start :: string where
  "msg_list_start = ''150 Here comes the directory listing.'' @ crlf"

definition msg_list_ok :: string where
  "msg_list_ok = ''226 Directory send OK.'' @ crlf"

definition list_check_exists :: "connection_t \<Rightarrow> string \<Rightarrow> world \<Rightarrow> int \<times> world" where
  "list_check_exists connection path w =
     (if \<not> fs_access (fsys w) (cwd w) path then (1, reply connection msg_list_failed w)
      else (0, w))"

definition goto_path :: "connection_t \<Rightarrow> command_t \<Rightarrow> world \<Rightarrow> command_status_t \<times> world" where
  "goto_path connection command w =
     (let path = (case argv0 command of Some a \<Rightarrow> a | None \<Rightarrow> ''.'');
          w = snd (chdir_ptr (working_directory connection) w);
          (r, w) = chdir path w
      in if r = -1 then (COMMAND_FAILURE, reply connection msg_list_failed w)
         else (COMMAND_SUCCESS, w))"

definition check_directory_access ::
    "connection_t \<Rightarrow> string \<Rightarrow> world \<Rightarrow> (command_status_t \<times> world) result" where
  "check_directory_access connection path w =
     (let root = srv_path (server connection);
          w = snd (chdir_ptr (working_directory connection) w);
          (r, w) = chdir path w
      in if r = -1 then Inr (COMMAND_FAILURE, reply connection msg_list_failed w)
         else case getcwd w of
                None \<Rightarrow> Inl Null_deref
              | Some current_directory \<Rightarrow>
                  if strncmp current_directory root (length root) \<noteq> 0
                  then Inr (COMMAND_FAILURE, reply connection msg_list_failed (snd (chdir root w)))
                  else Inr (COMMAND_SUCCESS, snd (chdir root w)))"

text \<open>
  \<open>while (fgets(buffer, sizeof(buffer), fp) != NULL) dprintf(fd, "%s", buffer)\<close>: each chunk is
  sent up to its first NUL.
\<close>

definition send_chunks :: "int \<Rightarrow> string \<Rightarrow> world \<Rightarrow> world" where
  "send_chunks fd data w =
     fold (\<lambda>buffer w. dprintf fd (c_str buffer) w) (read_lines (fgets 1024) (length data) data) w"

definition list_directory :: "os \<Rightarrow> connection_t \<Rightarrow> world \<Rightarrow> (command_status_t \<times> world) result" where
  "list_directory os connection w =
     (case os_ls os w of
        None \<Rightarrow>
          Inr (COMMAND_FAILURE, reply connection msg_local_error (perror ''popen'' w))
      | Some listing \<Rightarrow>
          let w = reply connection msg_list_start w
          in case data_socket connection of
               None \<Rightarrow> Inl Null_deref
             | Some ds \<Rightarrow> Inr (COMMAND_SUCCESS, send_chunks (ds_client_sockfd ds) listing w))"

definition execute_ls_command ::
    "os \<Rightarrow> connection_t \<Rightarrow> command_t \<Rightarrow> world \<Rightarrow> (command_status_t \<times> world) result" where
  "execute_ls_command os connection command w =
     (let (st, w) = goto_path connection command w
      in if st = COMMAND_FAILURE then Inr (COMMAND_FAILURE, w)
         else case list_directory os connection w of
                Inl e \<Rightarrow> Inl e
              | Inr (st, w) \<Rightarrow>
                  if st = COMMAND_FAILURE then Inr (COMMAND_FAILURE, w)
                  else
                    let w = snd (chdir (srv_path (server connection)) w);
                        w = reply connection msg_list_ok w
                    in Inr (COMMAND_SUCCESS, w))"

text \<open>
  \<open>argc >= 1 && (check_exists(...) == 1 || check_directory_access(...) == COMMAND_FAILURE)\<close>.
\<close>

definition list_check ::
    "connection_t \<Rightarrow> command_t \<Rightarrow> world \<Rightarrow> (bool \<times> world) result" where
  "list_check connection command w =
     (if argc command \<ge> 1
      then (case argv0 command of
              None \<Rightarrow> Inl Null_deref
            | Some path \<Rightarrow>
                let (r, w) = list_check_exists connection path w
                in if r = 1 then Inr (True, w)
                   else case check_directory_access connection path w of
                          Inl e \<Rightarrow> Inl e
                        | Inr (st, w) \<Rightarrow> Inr (st = COMMAND_FAILURE, w))
      else Inr (False, w))"

definition list_command :: "os \<Rightarrow> handler" where
  "list_command os command connection w =
     (if \<not> logged_in connection
      then Inr (COMMAND_FAILURE, connection, reply connection msg_please_login w)
      else if data_socket connection = None
      then Inr (COMMAND_FAILURE, connection, reply connection msg_no_data_socket w)
      else case list_check connection command w of
             Inl e \<Rightarrow> Inl e
           | Inr (failed, w) \<Rightarrow>
               if failed then Inr (COMMAND_FAILURE, connection, w)
               else execute_data_socket_command os connection Execute_ls_command command w)"

section \<open>RETR\<close>

definition msg_opening :: string where
  "msg_opening = ''150 Opening BINARY mode data connection.'' @ crlf"

definition msg_complete :: string where
  "msg_complete = ''226 Transfer complete.'' @ crlf"

definition msg_denied :: string where
  "msg_denied = ''550 Permission denied.'' @ crlf"

definition msg_no_file :: string where
  "msg_no_file = ''550 Failed to open file.'' @ crlf"

definition check_file_exists :: "connection_t \<Rightarrow> string \<Rightarrow> world \<Rightarrow> int \<times> world" where
  "check_file_exists connection path w =
     (let w = snd (chdir_ptr (working_directory connection) w);
          fp = fs_fopen_r (fsys w) (cwd w) path;
          w = snd (chdir (srv_path (server connection)) w)
      in if fp = None \<and> \<not> fs_access_read (fsys w) (cwd w) path
         then (-1, reply connection msg_denied w)
         else if fp = None then (-1, reply connection msg_local_error w)
         else (0, w))"

definition execute_retr_command ::
    "connection_t \<Rightarrow> command_t \<Rightarrow> world \<Rightarrow> (command_status_t \<times> world) result" where
  "execute_retr_command connection command w =
     (case (argv0 command, data_socket connection) of
        (Some path, Some ds) \<Rightarrow>
          let w = reply connection msg_opening w;
              w = snd (chdir_ptr (working_directory connection) w);
              fp = fs_fopen_r (fsys w) (cwd w) path;
              w = snd (chdir (srv_path (server connection)) w)
          in (case fp of
                None \<Rightarrow>
                  Inr (COMMAND_FAILURE, reply connection msg_local_error (perror ''fopen'' w))
              | Some data \<Rightarrow>
                  let w = send_chunks (ds_client_sockfd ds) data w;
                      w = reply connection msg_complete w
                  in Inr (COMMAND_SUCCESS, w))
      | _ \<Rightarrow> Inl Null_deref)"

definition retr_command :: "os \<Rightarrow> handler" where
  "retr_command os command connection w =
     (if \<not> logged_in connection
      then Inr (COMMAND_FAILURE, connection, reply connection msg_please_login w)
      else if data_socket connection = None
      then Inr (COMMAND_FAILURE, connection, reply connection msg_no_data_socket w)
      else if argc command \<noteq> 1
      then Inr (COMMAND_FAILURE, connection, reply connection msg_no_file w)
      else case argv0 command of
             None \<Rightarrow> Inl Null_deref
           | Some path \<Rightarrow>
               let (r, w) = check_file_exists connection path w
               in if r = -1 then Inr (COMMAND_FAILURE, connection, w)
                  else execute_data_socket_command os connection Execute_retr_command command w)"

section \<open>STOR\<close>

text \<open>
  The result of the last \<open>getline\<close>, which is -1 at the end of the stream.  There is none as long as
  the peer keeps the connection open.
\<close>

definition transfer_file_data :: "os \<Rightarrow> path \<Rightarrow> int \<Rightarrow> world \<Rightarrow> (int \<times> world) result" where
  "transfer_file_data os file fd w =
     (if \<not> os_fdopen os w fd then Inr (-1, w)
      else case os_recv os w fd of
             None \<Rightarrow> Inl Blocked
           | Some data \<Rightarrow>
               let w = fold (append_file file) (read_lines getline (length data) data) w
               in Inr (-1, close fd w))"

definition execute_stor_command ::
    "os \<Rightarrow> connection_t \<Rightarrow> command_t \<Rightarrow> world \<Rightarrow> (command_status_t \<times> world) result" where
  "execute_stor_command os connection command w =
     (case (argv0 command, data_socket connection) of
        (Some path, Some ds) \<Rightarrow>
          (case fs_fopen_w (fsys w) (cwd w) path of
             None \<Rightarrow>
               let w = reply connection msg_opening w;
                   w = reply connection msg_local_error w
               in Inr (COMMAND_FAILURE, w)
           | Some (file, fs') \<Rightarrow>
               let w = reply connection msg_opening (w\<lparr>fsys := fs'\<rparr>)
               in case transfer_file_data os file (ds_client_sockfd ds) w of
                    Inl e \<Rightarrow> Inl e
                  | Inr (_, w) \<Rightarrow> Inr (COMMAND_SUCCESS, reply connection msg_complete w))
      | _ \<Rightarrow> Inl Null_deref)"

definition stor_command :: "os \<Rightarrow> handler" where
  "stor_command os command connection w =
     (if \<not> logged_in connection
      then Inr (COMMAND_FAILURE, connection, reply connection msg_please_login w)
      else if data_socket connection = None
      then Inr (COMMAND_FAILURE, connection, reply connection msg_no_data_socket w)
      else if argc command \<noteq> 1
      then Inr (COMMAND_FAILURE, connection, reply connection msg_no_file w)
      else execute_data_socket_command os connection Execute_stor_command command w)"

section \<open>The child\<close>

text \<open>The call through the function pointer, and what the child of \<open>fork\<close> does around it.\<close>

definition run_execution :: "os \<Rightarrow> command_execution \<Rightarrow> connection_t \<Rightarrow> command_t \<Rightarrow> world \<Rightarrow>
    (command_status_t \<times> world) result" where
  "run_execution os e connection command w =
     (case e of
        Execute_ls_command \<Rightarrow> execute_ls_command os connection command w
      | Execute_retr_command \<Rightarrow> execute_retr_command connection command w
      | Execute_stor_command \<Rightarrow> execute_stor_command os connection command w)"

definition child_main :: "os \<Rightarrow> job \<Rightarrow> world \<Rightarrow> world result" where
  "child_main os j w =
     (let connection = job_connection j
      in case run_execution os (job_execution j) connection (job_command j) w of
           Inl e \<Rightarrow> Inl e
         | Inr (_, w) \<Rightarrow>
             let w = close (srv_sockfd (server connection)) w
             in destroy_connection connection False w)"

text \<open>
  A child runs with its own working directory and descriptors and shares the files and the
  connections.  A fault ends the child only.
\<close>

definition run_job :: "os \<Rightarrow> job \<Rightarrow> world \<Rightarrow> world result" where
  "run_job os j w =
     map_sum id (\<lambda>w'. w'\<lparr>self_pid := self_pid w, cwd := cwd w, open_fds := open_fds w\<rparr>)
       (child_main os j (w\<lparr>self_pid := job_pid j, cwd := job_cwd j, open_fds := job_fds j\<rparr>))"

section \<open>The handlers meet their contract\<close>

lemma pasv_contract:
  assumes "create_passive_data_socket os c w = Inr (st, c', w')"
  shows "command_contract c w st c' w'"
  using assms setup_passive_quiet [of w os]
  by (auto simp: create_passive_data_socket_def Let_def case_prod_beta
      split: option.splits dest: passive_provider.create_wf intro!: contract_quiet_reply quiet_log)

lemma port_contract:
  assumes "create_active_data_socket os c cmd w = Inr (st, c', w')"
  shows "command_contract c w st c' w'"
  using assms setup_active_quiet [of w os]
  by (auto simp: create_active_data_socket_def Let_def case_prod_beta
      split: option.splits dest: active_provider.create_wf intro!: contract_quiet_reply quiet_log)

interpretation pasv_handler: guarded_handler "pasv_command os" for os
  by (rule guarded_handlerI) (auto simp: pasv_command_def intro: pasv_contract)

interpretation port_handler: guarded_handler "port_command os" for os
  by (rule guarded_handlerI)
    (auto simp: port_command_def split: if_splits intro: port_contract contract_reply)

text \<open>A check that only moves the working directory and replies.\<close>

definition checked :: "connection_t \<Rightarrow> world \<Rightarrow> world \<Rightarrow> bool" where
  "checked c w w' \<longleftrightarrow>
     replies_to (client_sockfd c) w w' \<and> net_in w' = net_in w \<and> net_eof w' = net_eof w \<and>
     fsys w' = fsys w \<and> jobs w' = jobs w \<and> open_fds w' = open_fds w"

lemma checked_then_execute:
  assumes "checked c w w1" "execute_data_socket_command os c e cmd w1 = Inr (st, c', w')"
  shows "command_contract c w st c' w'"
  using execute_data_socket_contract [OF assms(2)] assms(1)
  by (auto simp: command_contract_def checked_def intro: replies_to_trans)

lemma checked_refl [simp]: "checked c w w"
  by (simp add: checked_def)

lemma checked_contract: "checked c w w' \<Longrightarrow> command_contract c w COMMAND_FAILURE c w'"
  by (simp add: checked_def command_contract_def)

lemma replies_to_chdirs [simp]:
  "replies_to fd w (snd (chdir s (snd (chdir_ptr d w))))"
  "replies_to fd w (snd (chdir r (snd (chdir s (snd (chdir_ptr d w))))))"
  by (simp_all add: replies_to_quiet)

lemma replies_to_chdirs_reply [simp]:
  "replies_to (client_sockfd c) w (reply c m (snd (chdir s (snd (chdir_ptr d w)))))"
  "replies_to (client_sockfd c) w (reply c m (snd (chdir r (snd (chdir s (snd (chdir_ptr d w)))))))"
  by (rule replies_to_trans [OF _ replies_to_reply], simp)+

lemma list_check_checked: "list_check c cmd w = Inr (failed, w') \<Longrightarrow> checked c w w'"
  by (auto simp: list_check_def list_check_exists_def check_directory_access_def checked_def
      Let_def case_prod_beta split: if_splits option.splits sum.splits)

lemma check_file_exists_checked: "checked c w (snd (check_file_exists c path w))"
  by (auto simp: check_file_exists_def checked_def Let_def
      intro: replies_to_quiet replies_to_trans [OF replies_to_quiet replies_to_reply])

lemma list_contract:
  assumes "logged_in c" "list_command os cmd c w = Inr (st, c', w')"
  shows "command_contract c w st c' w'"
proof (cases "data_socket c")
  case None
  with assms show ?thesis by (auto simp: list_command_def intro: contract_reply)
next
  case (Some ds)
  with assms obtain failed w1 where l: "list_check c cmd w = Inr (failed, w1)"
    by (auto simp: list_command_def split: sum.splits)
  with assms Some list_check_checked [OF l] show ?thesis
    by (auto simp: list_command_def split: if_splits intro: checked_contract checked_then_execute)
qed

lemma retr_contract:
  assumes "logged_in c" "retr_command os cmd c w = Inr (st, c', w')"
  shows "command_contract c w st c' w'"
  using assms check_file_exists_checked [of c w]
  by (auto simp: retr_command_def Let_def case_prod_beta split: if_splits option.splits
      intro: contract_reply checked_contract checked_then_execute)

lemma stor_contract:
  assumes "logged_in c" "stor_command os cmd c w = Inr (st, c', w')"
  shows "command_contract c w st c' w'"
  using assms
  by (auto simp: stor_command_def split: if_splits
      intro: contract_reply checked_then_execute [OF checked_refl])

interpretation list_handler: guarded_handler "list_command os" for os
  by (rule guarded_handlerI) (simp add: list_command_def, erule (1) list_contract)

interpretation retr_handler: guarded_handler "retr_command os" for os
  by (rule guarded_handlerI) (simp add: retr_command_def, erule (1) retr_contract)

interpretation stor_handler: guarded_handler "stor_command os" for os
  by (rule guarded_handlerI) (simp add: stor_command_def, erule (1) stor_contract)

end
