(* ===== verification/Client_Handler.thy ===== *)
theory Client_Handler
  imports Session_Commands Transfer_Commands
begin

text \<open>
  \<open>src/command_executor.c\<close> and \<open>src/client_handler.c\<close>: the command table, the dispatch of a
  parsed command, reading a line from a client and handling it.
\<close>

section \<open>The command table\<close>

definition command_handlers :: "os \<Rightarrow> (string \<times> handler) list" where
  "command_handlers os =
     [(''USER'', user_command), (''PASS'', pass_command), (''CWD'', cwd_command),
      (''CDUP'', cdup_command), (''QUIT'', quit_command), (''DELE'', dele_command),
      (''PWD'', pwd_command), (''PASV'', pasv_command os), (''PORT'', port_command os),
      (''HELP'', help_command), (''NOOP'', noop_command), (''RETR'', retr_command os),
      (''STOR'', stor_command os), (''LIST'', list_command os), (''TYPE'', type_command)]"

definition msg_unknown :: string where
  "msg_unknown = ''500 Unknown command.'' @ crlf"

definition not_found_message :: "connection_t \<Rightarrow> world \<Rightarrow> world" where
  "not_found_message connection w =
     (if logged_in connection then reply connection msg_unknown w
      else reply connection msg_please_login w)"

fun find_handler :: "(string \<times> handler) list \<Rightarrow> string \<Rightarrow> handler option" where
  "find_handler [] nm = None"
| "find_handler ((n, h) # hs) nm = (if strcmp n nm = 0 then Some h else find_handler hs nm)"

text \<open>The name is turned to upper case in place.\<close>

definition get_command_handler :: "os \<Rightarrow> command_t \<Rightarrow> handler option \<times> command_t" where
  "get_command_handler os command =
     (let command = command\<lparr>name := touppercase (name command)\<rparr>
      in (find_handler (command_handlers os) (name command), command))"

definition execute_command :: "os \<Rightarrow> command_t option \<Rightarrow> connection_t \<Rightarrow> world \<Rightarrow> outcome" where
  "execute_command os command connection w =
     (case command of
        None \<Rightarrow> Inr (COMMAND_NOT_FOUND, connection, not_found_message connection w)
      | Some command \<Rightarrow>
          (case get_command_handler os command of
             (None, command) \<Rightarrow>
               Inr (COMMAND_NOT_FOUND, connection, not_found_message connection w)
           | (Some handler, command) \<Rightarrow> handler command connection w))"

section \<open>One line of input\<close>

text \<open>\<open>if (line[read - 1] == '\n') line[read - 1] = '\0'\<close>, and what C reads of the result.\<close>

definition chomp :: "string \<Rightarrow> string" where
  "chomp line = c_str (if line \<noteq> [] \<and> last line = LF then butlast line else line)"

definition read_socket ::
    "connection_t \<Rightarrow> world \<Rightarrow> (line_input \<times> connection_t \<times> world) result" where
  "read_socket connection w =
     (case stream connection of
        None \<Rightarrow> Inl Null_deref
      | Some s \<Rightarrow>
          let fd = fileno s;
              (line, rest, chunks) = stream_getline (read_ahead s) (net_in w fd) (net_eof w fd);
              connection = connection\<lparr>stream := Some (s\<lparr>read_ahead := rest\<rparr>)\<rparr>;
              w = w\<lparr>net_in := (net_in w)(fd := chunks)\<rparr>
          in case line of
               Line l \<Rightarrow> Inr (Line (chomp l), connection, w)
             | _ \<Rightarrow> Inr (line, connection, w))"

definition log_command :: "sockaddr \<Rightarrow> string \<Rightarrow> string" where
  "log_command a line = ''Command from '' @ show_peer a @ '': '' @ line @ [LF]"

text \<open>
  A command that waits for ever keeps the server in its turn, like a line that does not come.
\<close>

definition in_turn :: "outcome \<Rightarrow> (command_status_t \<times> connection_t \<times> world) option result" where
  "in_turn r =
     (case r of
        Inl e \<Rightarrow> if e = Blocked then Inr None else Inl e
      | Inr x \<Rightarrow> Inr (Some x))"

lemma in_turn_simps [simp]:
  "in_turn (Inr x) = Inr (Some x)" "in_turn (Inl Blocked) = Inr None"
  "Inr (Some x) = in_turn r \<longleftrightarrow> r = Inr x" "in_turn r = Inr (Some x) \<longleftrightarrow> r = Inr x"
  "in_turn r = Inr None \<longleftrightarrow> r = Inl Blocked"
  "in_turn r = Inl e \<longleftrightarrow> r = Inl e \<and> e \<noteq> Blocked"
  by (auto simp: in_turn_def split: sum.splits)

text \<open>
  \<open>return 1\<close> on a NULL line is \<open>COMMAND_FAILURE\<close>.  The result is \<open>None\<close> while \<open>getline\<close> or the
  command waits.
\<close>

definition handle_client_command ::
    "os \<Rightarrow> connection_t \<Rightarrow> world \<Rightarrow> (command_status_t \<times> connection_t \<times> world) option result" where
  "handle_client_command os connection w =
     (case read_socket connection w of
        Inl e \<Rightarrow> Inl e
      | Inr (Would_block, connection, w) \<Rightarrow> Inr None
      | Inr (At_eof, connection, w) \<Rightarrow> Inr (Some (COMMAND_FAILURE, connection, w))
      | Inr (Line buffer, connection, w) \<Rightarrow>
          (case client_addr connection of
             None \<Rightarrow> Inl Null_deref
           | Some a \<Rightarrow>
               let w = printf (log_command a buffer) w
               in case parse_buffer (os_malloc os w) buffer of
                    Inl e \<Rightarrow> Inl e
                  | Inr command \<Rightarrow> in_turn (execute_command os command connection w)))"

text \<open>The descriptor of the poll slot is returned with the connection.\<close>

definition handle_connection ::
    "os \<Rightarrow> int \<Rightarrow> connection_t \<Rightarrow> world \<Rightarrow> (int \<times> connection_t \<times> world) option result" where
  "handle_connection os fd connection w =
     (case handle_client_command os connection w of
        Inl e \<Rightarrow> Inl e
      | Inr None \<Rightarrow> Inr None
      | Inr (Some (result, connection, w)) \<Rightarrow>
          if result = COMMAND_QUIT
          then
            let w = dprintf fd msg_closing w
            in case destroy_connection connection True w of
                 Inl e \<Rightarrow> Inl e
               | Inr w \<Rightarrow> Inr (Some (-1, connection, close fd w))
          else Inr (Some (fd, connection, w)))"

section \<open>Dispatch\<close>

lemmas contract_axioms =
  user_handler.ftp_handler_axioms pass_handler.ftp_handler_axioms
  cwd_handler.ftp_handler_axioms cdup_handler.ftp_handler_axioms
  quit_handler.ftp_handler_axioms dele_handler.ftp_handler_axioms
  pwd_handler.ftp_handler_axioms pasv_handler.ftp_handler_axioms
  port_handler.ftp_handler_axioms help_handler.ftp_handler_axioms
  noop_handler.ftp_handler_axioms retr_handler.ftp_handler_axioms
  stor_handler.ftp_handler_axioms list_handler.ftp_handler_axioms
  type_handler.ftp_handler_axioms

lemmas guard_axioms =
  cwd_handler.guarded_handler_axioms cdup_handler.guarded_handler_axioms
  dele_handler.guarded_handler_axioms pwd_handler.guarded_handler_axioms
  pasv_handler.guarded_handler_axioms port_handler.guarded_handler_axioms
  help_handler.guarded_handler_axioms noop_handler.guarded_handler_axioms
  retr_handler.guarded_handler_axioms stor_handler.guarded_handler_axioms
  list_handler.guarded_handler_axioms type_handler.guarded_handler_axioms

lemma command_handlers_contract: "list_all (\<lambda>(n, h). ftp_handler h) (command_handlers os)"
  by (simp add: command_handlers_def contract_axioms)

lemma command_handlers_guarded:
  "list_all (\<lambda>(n, h). n = ''USER'' \<or> n = ''PASS'' \<or> n = ''QUIT'' \<or> guarded_handler h)
     (command_handlers os)"
  by (simp add: command_handlers_def guard_axioms)

lemma find_handler_mem: "find_handler hs nm = Some h \<Longrightarrow> \<exists>n. (n, h) \<in> set hs \<and> strcmp n nm = 0"
  by (induction hs nm rule: find_handler.induct) (auto split: if_splits)

text \<open>What holds of a handler of the table holds of the dispatcher.\<close>

lemma execute_command_cases:
  assumes "execute_command os cmd c w = Inr (st, c', w')"
  obtains (unknown) "st = COMMAND_NOT_FOUND" "c' = c" "w' = not_found_message c w"
  | (handled) n h cmd' where "(n, h) \<in> set (command_handlers os)" "h cmd' c w = Inr (st, c', w')"
      "strcmp n (name cmd') = 0"
  using assms
  by (auto simp: execute_command_def get_command_handler_def Let_def
      split: option.splits dest: find_handler_mem)

lemma execute_command_contract:
  assumes e: "execute_command os cmd c w = Inr (st, c', w')"
  shows "same_peer c c' \<and> replies_to (client_sockfd c) w w' \<and> net_in w' = net_in w \<and>
    net_eof w' = net_eof w"
  using e
proof (cases rule: execute_command_cases)
  case unknown
  then show ?thesis by (auto simp: not_found_message_def)
next
  case (handled n h cmd')
  then have h: "ftp_handler h" using command_handlers_contract [of os] by (auto simp: list_all_iff)
  show ?thesis
    using ftp_handler.peer [OF h handled(2)] ftp_handler.answers_client [OF h handled(2)]
      ftp_handler.input_kept [OF h handled(2)] by simp
qed

lemma execute_command_inv:
  assumes e: "execute_command os cmd c w = Inr (st, c', w')"
    and "canonical_dir w (srv_path (server c))" "conn_inv c"
  shows "conn_inv c'"
  using e
proof (cases rule: execute_command_cases)
  case unknown
  with assms(3) show ?thesis by simp
next
  case (handled n h cmd')
  then have h: "ftp_handler h" using command_handlers_contract [of os] by (auto simp: list_all_iff)
  show ?thesis by (rule ftp_handler.invariant [OF h handled(2) assms(2,3)])
qed

lemma execute_command_root:
  assumes e: "execute_command os cmd c w = Inr (st, c', w')" and "root_safe (fsys w) p"
  shows "root_safe (fsys w') p"
  using e
proof (cases rule: execute_command_cases)
  case unknown
  with assms(2) show ?thesis by (simp add: not_found_message_def)
next
  case (handled n h cmd')
  then have h: "ftp_handler h" using command_handlers_contract [of os] by (auto simp: list_all_iff)
  show ?thesis by (rule ftp_handler.root_kept [OF h handled(2) assms(2)])
qed

lemma execute_command_child:
  assumes e: "execute_command os cmd c w = Inr (st, c', w')"
  shows "jobs w' = jobs w \<or>
    (\<exists>j. jobs w' = jobs w @ [j] \<and> same_peer c (job_connection j) \<and> st = COMMAND_SUCCESS)"
  using e
proof (cases rule: execute_command_cases)
  case unknown
  then show ?thesis by (simp add: not_found_message_def)
next
  case (handled n h cmd')
  then have h: "ftp_handler h" using command_handlers_contract [of os] by (auto simp: list_all_iff)
  show ?thesis by (rule ftp_handler.child [OF h handled(2)])
qed

end
