(* ===== verification/Server.thy ===== *)
theory Server
  imports Client_Handler
begin

text \<open>
  The server around the handlers: \<open>src/socket.c\<close> (set-up), \<open>src/connection.c\<close> (the poll loop
  and its two arrays of slots), \<open>destroy_server\<close> of \<open>src/destroyers.c\<close>, the stop flag of
  \<open>src/signal.c\<close> and the start-up checks of \<open>src/main.c\<close>.
\<close>

section \<open>Start-up\<close>

definition MAX_CLIENTS :: nat where
  "MAX_CLIENTS = 128"

definition zero_server :: server_t where
  "zero_server = \<lparr>srv_sockfd = 0, srv_addr = zero_sockaddr, srv_port = 0, srv_path = []\<rparr>"

definition init_sockin :: "int \<Rightarrow> sockaddr" where
  "init_sockin port = \<lparr>sin_addr = INADDR_LOOPBACK, sin_port = word_of_int port\<rparr>"

text \<open>
  The static functions of \<open>socket.c\<close>; those of \<open>passive_data_socket.c\<close> with the same names have
  the same effect.
\<close>

definition server_listen_socket :: "os \<Rightarrow> int \<Rightarrow> world \<Rightarrow> int \<times> world" where
  "server_listen_socket os fd w =
     (if \<not> os_listen os w fd then (-1, perror ''listen'' w) else (0, w))"

definition server_bind_socket :: "os \<Rightarrow> int \<Rightarrow> sockaddr \<Rightarrow> world \<Rightarrow> int \<times> world" where
  "server_bind_socket os fd addr w =
     (if \<not> os_bind os w fd addr then (-1, perror ''bind'' w) else (0, w))"

definition server_socket_fd :: "os \<Rightarrow> world \<Rightarrow> int \<times> world" where
  "server_socket_fd os w =
     (let (fd, w) = socket os w in (fd, if fd = -1 then perror ''socket'' w else w))"

definition server_final_port :: "os \<Rightarrow> int \<Rightarrow> world \<Rightarrow> int" where
  "server_final_port os fd w = uint (sin_port (os_getsockname os w fd))"

lemma server_socket_eqs [simp]:
  "server_listen_socket = listen_socket" "server_bind_socket = bind_socket"
  "server_socket_fd = setup_socket_fd"
  by (intro ext, simp add: server_listen_socket_def listen_socket_def server_bind_socket_def
      bind_socket_def server_socket_fd_def setup_socket_fd_def)+

text \<open>On an error the descriptor stays open.\<close>

definition setup_socket :: "os \<Rightarrow> int \<Rightarrow> string \<Rightarrow> world \<Rightarrow> server_t \<times> world" where
  "setup_socket os port raw_path w =
     (let (fd, w) = server_socket_fd os w
      in if fd = -1 then (zero_server, w)
         else
           let addr = init_sockin port;
               (r, w) = server_bind_socket os fd addr w
           in if r = -1 then (zero_server, w)
              else
                let final_port = server_final_port os fd w;
                    (r, w) = server_listen_socket os fd w
                in if r = -1 then (zero_server, w)
                   else
                     let w = snd (chdir raw_path w)
                     in case getcwd w of
                          None \<Rightarrow> (zero_server, w)
                        | Some path \<Rightarrow>
                            (\<lparr>srv_sockfd = fd, srv_addr = addr, srv_port = final_port,
                              srv_path = path\<rparr>, w))"

definition log_bad_port :: string where
  "log_bad_port = ''Error: Invalid port number'' @ [LF]"

definition log_bad_path :: string where
  "log_bad_path = ''Error: Invalid path'' @ [LF]"

definition check_path :: "string option \<Rightarrow> world \<Rightarrow> int" where
  "check_path path w =
     (case path of
        None \<Rightarrow> 84
      | Some p \<Rightarrow> if \<not> fs_access (fsys w) (cwd w) p then 84 else 0)"

definition check_args :: "int \<Rightarrow> string option \<Rightarrow> world \<Rightarrow> int \<times> world" where
  "check_args port path w =
     (if port \<le> 0 \<or> port > 65535 then (84, printf log_bad_port w)
      else if check_path path w = 84 then (84, printf log_bad_path w)
      else (0, w))"

section \<open>The slots\<close>

text \<open>
  Slot 0 of the poll array is the listening socket; slot \<open>i\<close> of both arrays is a client, and is
  free when its descriptor is negative.  \<open>None\<close> in \<open>conns\<close> is a slot never written.
\<close>

record server_state =
  srv :: server_t
  pollfds :: "int list"
  conns :: "connection_t option list"
  sys :: world
  stop_server :: bool

definition zero_connection :: connection_t where
  "zero_connection =
     \<lparr>server = zero_server, client_sockfd = 0, client_addr = None, stream = None,
      logged_in = False, user = None, working_directory = None, data_socket = None,
      transfer_mode = BINARY\<rparr>"

definition init_connection ::
    "os \<Rightarrow> server_t \<Rightarrow> int \<Rightarrow> sockaddr \<Rightarrow> world \<Rightarrow> connection_t \<times> world" where
  "init_connection os sv fd addr w =
     (let client_address = (if os_malloc os w Alloc_client_addr then Some addr else None)
      in if \<not> os_fdopen os w fd then (zero_connection, close fd (perror ''fdopen'' w))
         else
           (\<lparr>server = sv, client_sockfd = fd, client_addr = client_address,
             stream = Some \<lparr>fileno = fd, read_ahead = []\<rparr>, logged_in = False, user = None,
             working_directory = Some (srv_path sv), data_socket = None,
             transfer_mode = BINARY\<rparr>, w))"

definition init_poll_fds :: "int \<Rightarrow> int list" where
  "init_poll_fds server_sockfd = (replicate (MAX_CLIENTS + 1) (-1))[0 := server_sockfd]"

definition msg_welcome :: string where
  "msg_welcome = ''220 Service ready for new user. (myftp)'' @ crlf"

definition log_connection :: "sockaddr \<Rightarrow> string" where
  "log_connection a = ''Connection from '' @ show_peer a @ [LF]"

text \<open>The loop over the slots: the first free one from \<open>i\<close> on.\<close>

function free_slot :: "int list \<Rightarrow> nat \<Rightarrow> nat \<Rightarrow> nat option" where
  "free_slot fds i max_fds =
     (if i < max_fds then if fds ! i < 0 then Some i else free_slot fds (Suc i) max_fds
      else None)"
  by pat_completeness auto
termination
  by (relation "measure (\<lambda>(fds, i, m). m - i)") auto

declare free_slot.simps [simp del]

definition accept_new_connection :: "os \<Rightarrow> server_state \<Rightarrow> server_state" where
  "accept_new_connection os st =
     (case accept os (srv_sockfd (srv st)) (sys st) of
        (None, w) \<Rightarrow> st\<lparr>sys := perror ''accept'' w\<rparr>
      | (Some (fd, addr), w) \<Rightarrow>
          let w = printf (log_connection addr) w;
              w = dprintf fd msg_welcome w
          in case free_slot (pollfds st) 1 (MAX_CLIENTS + 1) of
               None \<Rightarrow> st\<lparr>sys := w\<rparr>
             | Some i \<Rightarrow>
                 let (c, w) = init_connection os (srv st) fd addr w
                 in st\<lparr>conns := (conns st)[i := Some c], pollfds := (pollfds st)[i := fd],
                      sys := w\<rparr>)"

section \<open>The poll loop\<close>

text \<open>
  The slots from \<open>i\<close> on whose \<open>revents\<close> hold \<open>POLLIN\<close>.  A slot never written and a fault of a
  handler end the process; a handler that waits for the rest of a line holds up the whole
  server (\<open>None\<close>).
\<close>

function process_client_events ::
    "os \<Rightarrow> bool list \<Rightarrow> nat \<Rightarrow> nat \<Rightarrow> server_state \<Rightarrow> server_state option result" where
  "process_client_events os revents i max_fds st =
     (if i < max_fds
      then if pollfds st ! i < 0 \<or> \<not> revents ! i
           then process_client_events os revents (Suc i) max_fds st
           else (case conns st ! i of
                   None \<Rightarrow> Inl Uninit_read
                 | Some c \<Rightarrow>
                     (case handle_connection os (pollfds st ! i) c (sys st) of
                        Inl e \<Rightarrow> Inl e
                      | Inr None \<Rightarrow> Inr None
                      | Inr (Some (fd, c, w)) \<Rightarrow>
                          process_client_events os revents (Suc i) max_fds
                            (st\<lparr>pollfds := (pollfds st)[i := fd],
                               conns := (conns st)[i := Some c], sys := w\<rparr>)))
      else Inr (Some st))"
  by pat_completeness auto
termination
  by (relation "measure (\<lambda>(os, r, i, m, st). m - i)") auto

declare process_client_events.simps [simp del]

text \<open>The result of \<open>poll\<close>: an error, interrupted by a signal or not, or the ready slots.\<close>

datatype poll_result = Poll_error bool | Polled "bool list"

definition process_connection ::
    "os \<Rightarrow> poll_result \<Rightarrow> server_state \<Rightarrow> (int \<times> server_state) option result" where
  "process_connection os result st =
     (case result of
        Poll_error eintr \<Rightarrow>
          Inr (Some (1, if \<not> eintr then st\<lparr>sys := perror ''poll'' (sys st)\<rparr> else st))
      | Polled revents \<Rightarrow>
          let st = (if revents ! 0 then accept_new_connection os st else st)
          in map_sum id (map_option (\<lambda>st. (0, st)))
               (process_client_events os revents 1 (MAX_CLIENTS + 1) st))"

definition init_state :: "server_t \<Rightarrow> world \<Rightarrow> server_state" where
  "init_state sv w =
     \<lparr>srv = sv, pollfds = init_poll_fds (srv_sockfd sv),
      conns = replicate (MAX_CLIENTS + 1) None, sys = w, stop_server = False\<rparr>"

text \<open>\<open>signal.c\<close>: the handler of SIGINT and SIGTERM, and the flag the loop reads.\<close>

definition log_stopping :: string where
  "log_stopping = LF # ''Stopping FTP server...'' @ [LF]"

definition handle_signal :: "server_state \<Rightarrow> server_state" where
  "handle_signal st = st\<lparr>sys := printf log_stopping (sys st), stop_server := True\<rparr>"

text \<open>
  \<open>setup_signal\<close> installs the handler for two signals and leaves the others as they are, \<open>SIGPIPE\<close>
  among them, which a write to a connection the peer has reset raises.
\<close>

definition setup_signal :: "signals \<Rightarrow> signals" where
  "setup_signal sigs = sigs(SIGINT := Sig_handler, SIGTERM := Sig_handler)"

lemma signals_after_setup:
  assumes "sigs SIGPIPE = Sig_default"
  shows "deliver (\<lambda>_. handle_signal) (setup_signal sigs) SIGINT st = Some (handle_signal st)"
    "deliver (\<lambda>_. handle_signal) (setup_signal sigs) SIGTERM st = Some (handle_signal st)"
    "deliver (\<lambda>_. handle_signal) (setup_signal sigs) SIGPIPE st = None"
  using assms by (simp_all add: deliver_def setup_signal_def SIGINT_def SIGTERM_def SIGPIPE_def SIGCHLD_def)

definition is_server_stopped :: "server_state \<Rightarrow> bool" where
  "is_server_stopped st = stop_server st"

text \<open>
  \<open>process_connections\<close>: what happens between two turns of the loop (packets, signals, children)
  is an input of each turn, a function on the state.  \<open>None\<close> is a server that still runs, or
  waits in a turn, when the inputs end.
\<close>

function destroy_clients :: "nat \<Rightarrow> server_state \<Rightarrow> server_state result" where
  "destroy_clients i st =
     (if i < MAX_CLIENTS + 1
      then if pollfds st ! i \<ge> 0
           then let fd = pollfds st ! i;
                    w = dprintf fd msg_closing (sys st)
                in case conns st ! i of
                     None \<Rightarrow> Inl Uninit_read
                   | Some c \<Rightarrow>
                       (case destroy_connection c True w of
                          Inl e \<Rightarrow> Inl e
                        | Inr w \<Rightarrow> destroy_clients (Suc i) (st\<lparr>sys := close fd w\<rparr>))
           else destroy_clients (Suc i) st
      else Inr st)"
  by pat_completeness auto
termination
  by (relation "measure (\<lambda>(i, st). MAX_CLIENTS + 1 - i)") auto

declare destroy_clients.simps [simp del]

definition destroy_server :: "server_state \<Rightarrow> server_state result" where
  "destroy_server st =
     map_sum id (\<lambda>st. st\<lparr>sys := close (srv_sockfd (srv st)) (sys st)\<rparr>) (destroy_clients 1 st)"

fun serve :: "os \<Rightarrow> ((server_state \<Rightarrow> server_state) \<times> poll_result) list \<Rightarrow> server_state \<Rightarrow>
    server_state option result" where
  "serve os [] st = Inr None"
| "serve os ((env, result) # inputs) st =
     (let st = env st
      in if is_server_stopped st then map_sum id Some (destroy_server st)
         else case process_connection os result st of
                Inl e \<Rightarrow> Inl e
              | Inr None \<Rightarrow> Inr None
              | Inr (Some (r, st)) \<Rightarrow>
                  if r \<noteq> 0 then map_sum id Some (destroy_server st)
                  else serve os inputs st)"

definition process_connections ::
    "os \<Rightarrow> ((server_state \<Rightarrow> server_state) \<times> poll_result) list \<Rightarrow> server_t \<Rightarrow> world \<Rightarrow>
     server_state option result" where
  "process_connections os inputs sv w = serve os inputs (init_state sv w)"

section \<open>main\<close>

text \<open>
  \<open>main\<close> up to the loop: the exit code when the program stops before it listens, or the server
  it starts.  \<open>argv\<close> holds the arguments with the program's name.
\<close>

definition log_usage :: string where
  "log_usage = ''USAGE: ./myftp port path'' @ [LF, TAB] @
     ''port is the port number on which the server socket listens'' @ [LF, TAB] @
     ''path is the path to the home directory for the Anonymous user'' @ [LF]"

text \<open>
  \<open>read(fd, NULL, 0)\<close> asks for no bytes: it takes nothing from the descriptor, and \<open>set_read\<close> drops
  its result.
\<close>

definition read_no_bytes :: "int \<Rightarrow> world \<Rightarrow> world" where
  "read_no_bytes fd w = w"

definition set_read :: "bool \<Rightarrow> world \<Rightarrow> world" where
  "set_read a w = (if a then read_no_bytes 0 w else w)"

lemma set_read_reads_nothing [simp]: "set_read a w = w"
  by (simp add: set_read_def read_no_bytes_def)

definition myftp :: "os \<Rightarrow> int \<Rightarrow> string \<Rightarrow> world \<Rightarrow> (int + server_t) \<times> world" where
  "myftp os port path w =
     (let w = set_read False w;
          (sv, w) = setup_socket os port path w
      in if srv_sockfd sv = 0 then (Inl 84, w)
         else
           let w = printf (''Listening on port '' @ show_int port @ [LF]) w;
               w = printf (''Home directory: '' @ path @ [LF]) w
           in (Inr sv, w))"

definition main :: "os \<Rightarrow> string list \<Rightarrow> world \<Rightarrow> (int + server_t) \<times> world" where
  "main os av w =
     (if length av \<noteq> 3 then (Inl 84, printf log_usage w)
      else if strcmp (av ! 1) ''-help'' = 0 then (Inl 0, printf log_usage w)
      else
        let port = atoi (av ! 1);
            path = av ! 2;
            (r, w) = check_args port (Some path) w
        in if r = 84 then (Inl 84, w)
           else
             case myftp os port path w of
               (Inl _, w) \<Rightarrow> (Inl 0, w)
             | (Inr sv, w) \<Rightarrow> (Inr sv, w))"

end
