(* ===== verification/Login.thy ===== *)
theory Login
  imports Client_Handler
begin

text \<open>
  The login protocol as an abstract automaton, and the proof that the dispatcher refines it: what
  a command does to the fields \<open>logged_in\<close> and \<open>user\<close> of a connection is one step of the
  automaton, whatever else it does.  The barrier theorems say what a client can reach before it
  has logged in.
\<close>

section \<open>The specification\<close>

datatype login_state = No_user | Need_password string | Logged_in

datatype request = Req_user "string option" | Req_pass string | Req_other

definition anonymous :: "string \<Rightarrow> bool" where
  "anonymous u \<longleftrightarrow> u = ''Anonymous'' \<or> u = ''anonymous''"

fun spec_step :: "login_state \<Rightarrow> request \<Rightarrow> login_state" where
  "spec_step Logged_in r = Logged_in"
| "spec_step s (Req_user None) = No_user"
| "spec_step s (Req_user (Some u)) = Need_password u"
| "spec_step (Need_password u) (Req_pass p) = (if anonymous u \<and> p = '''' then Logged_in else No_user)"
| "spec_step No_user (Req_pass p) = No_user"
| "spec_step s Req_other = s"

fun spec_run :: "login_state \<Rightarrow> request list \<Rightarrow> login_state" where
  "spec_run s [] = s"
| "spec_run s (r # rs) = spec_run (spec_step s r) rs"

lemma spec_run_append: "spec_run s (rs @ rs') = spec_run (spec_run s rs) rs'"
  by (induction s rs rule: spec_run.induct) auto

text \<open>
  The automaton reaches \<open>Logged_in\<close> only through a USER with an anonymous name, directly
  followed, other commands apart, by a PASS with the empty password.
\<close>

lemma spec_need_password:
  "spec_run No_user rs = Need_password u \<Longrightarrow>
   \<exists>as bs. rs = as @ Req_user (Some u) # bs \<and> set bs \<subseteq> {Req_other}"
proof (induction rs rule: rev_induct)
  case (snoc r rs)
  have step: "spec_step (spec_run No_user rs) r = Need_password u"
    using snoc.prems by (simp add: spec_run_append)
  show ?case
  proof (cases r)
    case (Req_user v)
    with step have "v = Some u" by (cases "spec_run No_user rs"; cases v) auto
    with Req_user show ?thesis by (metis empty_set empty_subsetI)
  next
    case (Req_pass p)
    with step show ?thesis by (cases "spec_run No_user rs") (auto split: if_splits)
  next
    case Req_other
    with step have "spec_run No_user rs = Need_password u" by (cases "spec_run No_user rs") auto
    from snoc.IH [OF this] obtain as bs
      where "rs = as @ Req_user (Some u) # bs" "set bs \<subseteq> {Req_other}" by blast
    with Req_other show ?thesis by (intro exI [of _ as] exI [of _ "bs @ [r]"]) auto
  qed
qed simp

lemma spec_logged_in:
  "spec_run No_user rs = Logged_in \<Longrightarrow>
   \<exists>as u bs cs. rs = as @ Req_user (Some u) # bs @ Req_pass '''' # cs \<and> anonymous u \<and>
     set bs \<subseteq> {Req_other}"
proof (induction rs rule: rev_induct)
  case (snoc r rs)
  show ?case
  proof (cases "spec_run No_user rs = Logged_in")
    case True
    from snoc.IH [OF this] obtain as u bs cs
      where "rs = as @ Req_user (Some u) # bs @ Req_pass '''' # cs" "anonymous u"
        "set bs \<subseteq> {Req_other}" by blast
    then have "rs @ [r] = as @ Req_user (Some u) # bs @ Req_pass '''' # (cs @ [r])" by simp
    with \<open>anonymous u\<close> \<open>set bs \<subseteq> {Req_other}\<close> show ?thesis by blast
  next
    case False
    have step: "spec_step (spec_run No_user rs) r = Logged_in"
      using snoc.prems by (simp add: spec_run_append)
    with False obtain u where u: "spec_run No_user rs = Need_password u" and "anonymous u"
      and r: "r = Req_pass ''''"
      by (cases "spec_run No_user rs"; cases r; cases "case r of Req_user v \<Rightarrow> v | _ \<Rightarrow> None")
        (auto split: if_splits)
    from spec_need_password [OF u] obtain as bs
      where "rs = as @ Req_user (Some u) # bs" "set bs \<subseteq> {Req_other}" by blast
    with r \<open>anonymous u\<close> show ?thesis by auto
  qed
qed simp

section \<open>Dispatch by name\<close>

definition nul_free :: "command_t \<Rightarrow> bool" where
  "nul_free cmd \<longleftrightarrow> NUL \<notin> set (name cmd) \<and> (\<forall>a\<in>set (argv cmd). NUL \<notin> set a)"

lemma upper_shift_not_NUL:
  assumes "97 \<le> (of_char c :: nat)" "(of_char c :: nat) \<le> 122"
  shows "char_of (of_char c - 32 :: nat) \<noteq> NUL"
proof
  assume "char_of (of_char c - 32 :: nat) = NUL"
  then have "(of_char (char_of (of_char c - 32 :: nat) :: char) :: nat) = of_char NUL"
    by (rule arg_cong)
  then have "(of_char c - 32) mod 256 = (0 :: nat)" by (simp only: of_char_of) simp
  with assms show False by simp
qed

lemma touppercase_no_NUL: "NUL \<notin> set s \<Longrightarrow> NUL \<notin> set (touppercase s)"
  by (induction s) (auto simp: touppercase_def dest: upper_shift_not_NUL)

lemma find_handler_map_of:
  "list_all (\<lambda>(n, h). NUL \<notin> set n) hs \<Longrightarrow> NUL \<notin> set nm \<Longrightarrow> find_handler hs nm = map_of hs nm"
  by (induction hs nm rule: find_handler.induct) (auto simp: strcmp_0_iff)

lemma find_handler_name:
  "NUL \<notin> set nm \<Longrightarrow> find_handler (command_handlers os) nm = map_of (command_handlers os) nm"
  by (rule find_handler_map_of) (simp_all add: command_handlers_def)

text \<open>The command table as a case distinction.\<close>

lemma execute_by_name:
  assumes "nul_free cmd"
  defines "cmd' \<equiv> cmd\<lparr>name := touppercase (name cmd)\<rparr>"
  shows "execute_command os (Some cmd) c w =
    (case map_of (command_handlers os) (touppercase (name cmd)) of
       None \<Rightarrow> Inr (COMMAND_NOT_FOUND, c, not_found_message c w)
     | Some h \<Rightarrow> h cmd' c w)"
  using assms
  by (simp add: execute_command_def get_command_handler_def find_handler_name nul_free_def
      touppercase_no_NUL split: option.splits)

definition request_of :: "command_t option \<Rightarrow> request" where
  "request_of command =
     (case command of
        None \<Rightarrow> Req_other
      | Some cmd \<Rightarrow>
          let n = touppercase (name cmd)
          in if n = ''USER'' then Req_user (if argc cmd = 0 then None else argv0 cmd)
             else if n = ''PASS'' then Req_pass (get_password cmd)
             else Req_other)"

definition abs_login :: "connection_t \<Rightarrow> login_state" where
  "abs_login c =
     (if logged_in c then Logged_in
      else case user c of None \<Rightarrow> No_user | Some u \<Rightarrow> Need_password u)"

text \<open>The names a connection can hold are C strings; so are the arguments of a command.\<close>

definition nul_free_user :: "connection_t \<Rightarrow> bool" where
  "nul_free_user c \<longleftrightarrow> (\<forall>u. user c = Some u \<longrightarrow> NUL \<notin> set u)"

lemma user_refines:
  assumes "user_command cmd c w = Inr (st, c', w')"
  shows "abs_login c' = spec_step (abs_login c) (Req_user (if argc cmd = 0 then None else argv0 cmd))"
  using assms
  by (auto simp: user_command_def abs_login_def Let_def split: if_splits option.splits)

lemma get_password_nul_free: "nul_free cmd \<Longrightarrow> NUL \<notin> set (get_password cmd)"
  by (auto simp: get_password_def argv0_def nul_free_def split: option.splits list.splits)

lemma pass_refines:
  assumes "pass_command cmd c w = Inr (st, c', w')" "nul_free cmd" "nul_free_user c"
  shows "abs_login c' = spec_step (abs_login c) (Req_pass (get_password cmd))"
  using assms get_password_nul_free [OF assms(2)]
  by (auto simp: pass_command_cases abs_login_def anonymous_def strcmp_0_iff nul_free_user_def
      split: if_splits option.splits)

lemma guarded_refines:
  assumes "guarded_handler h" "h cmd c w = Inr (st, c', w')"
  shows "abs_login c' = abs_login c"
  using guarded_handler.login_kept [OF assms] by (simp add: abs_login_def)

lemma spec_other [simp]: "spec_step s Req_other = s"
  by (cases s) auto

lemma map_of_session_commands:
  "map_of (command_handlers os) ''USER'' = Some user_command"
  "map_of (command_handlers os) ''PASS'' = Some pass_command"
  "map_of (command_handlers os) ''QUIT'' = Some quit_command"
  by (simp_all add: command_handlers_def)

text \<open>A command by its name: USER, PASS, QUIT, a guarded one, or none.\<close>

lemma dispatch_cases:
  assumes "nul_free cmd"
  defines "n \<equiv> touppercase (name cmd)" and "cmd' \<equiv> cmd\<lparr>name := touppercase (name cmd)\<rparr>"
  obtains (user) "n = ''USER''" "execute_command os (Some cmd) c w = user_command cmd' c w"
  | (pass) "n = ''PASS''" "execute_command os (Some cmd) c w = pass_command cmd' c w"
  | (quit) "n = ''QUIT''" "execute_command os (Some cmd) c w = quit_command cmd' c w"
  | (guarded) h where "n \<notin> {''USER'', ''PASS'', ''QUIT''}" "guarded_handler h"
      "execute_command os (Some cmd) c w = h cmd' c w"
  | (unknown) "n \<notin> {''USER'', ''PASS'', ''QUIT''}"
      "execute_command os (Some cmd) c w = Inr (COMMAND_NOT_FOUND, c, not_found_message c w)"
proof (cases "map_of (command_handlers os) n")
  case None
  moreover from None have "n \<notin> {''USER'', ''PASS'', ''QUIT''}"
    by (auto simp: map_of_session_commands)
  ultimately show thesis using execute_by_name [OF assms(1)] unknown by (simp add: n_def)
next
  case (Some h)
  have e: "execute_command os (Some cmd) c w = h cmd' c w"
    using Some execute_by_name [OF assms(1)] by (simp add: n_def cmd'_def)
  from Some have "(n, h) \<in> set (command_handlers os)" by (rule map_of_SomeD)
  then have "n = ''USER'' \<or> n = ''PASS'' \<or> n = ''QUIT'' \<or>
      (n \<notin> {''USER'', ''PASS'', ''QUIT''} \<and> guarded_handler h)"
    using command_handlers_guarded [of os] by (auto simp: list_all_iff)
  then show thesis
    using e Some user pass quit guarded by (auto simp: map_of_session_commands)
qed

section \<open>The refinement\<close>

lemma execute_refines_login:
  assumes cmd: "\<forall>k. cmd = Some k \<longrightarrow> nul_free k" and c: "nul_free_user c"
    and e: "execute_command os cmd c w = Inr (st, c', w')"
  shows "abs_login c' = spec_step (abs_login c) (request_of cmd)"
proof (cases cmd)
  case None
  with e show ?thesis by (simp add: execute_command_def request_of_def)
next
  case (Some k)
  then have k: "nul_free k" using cmd by simp
  let ?k = "k\<lparr>name := touppercase (name k)\<rparr>"
  have k': "nul_free ?k" using k by (simp add: nul_free_def touppercase_no_NUL)
  have same: "argc ?k = argc k" "argv0 ?k = argv0 k" "get_password ?k = get_password k"
    by (simp_all add: argv0_def get_password_def)
  from k show ?thesis
  proof (cases rule: dispatch_cases [where os = os and c = c and w = w])
    case user
    then show ?thesis using e Some user_refines [of ?k c w] same by (simp add: request_of_def)
  next
    case pass
    then show ?thesis using e Some pass_refines [of ?k c w] same k' c by (simp add: request_of_def)
  next
    case quit
    then show ?thesis using e Some by (simp add: request_of_def quit_command_def)
  next
    case (guarded h)
    then have "abs_login c' = abs_login c" using e Some guarded_refines by simp
    then show ?thesis using guarded(1) Some by (simp add: request_of_def)
  next
    case unknown
    then show ?thesis using e Some by (simp add: request_of_def)
  qed
qed

lemma execute_keeps_nul_free_user:
  assumes cmd: "\<forall>k. cmd = Some k \<longrightarrow> nul_free k" and c: "nul_free_user c"
    and e: "execute_command os cmd c w = Inr (st, c', w')"
  shows "nul_free_user c'"
proof (cases cmd)
  case None
  with e c show ?thesis by (simp add: execute_command_def)
next
  case (Some k)
  then have k: "nul_free k" using cmd by simp
  then show ?thesis
  proof (cases rule: dispatch_cases [where os = os and c = c and w = w])
    case user
    then show ?thesis
      using e Some c k
      by (auto simp: user_command_def nul_free_user_def argv0_def nul_free_def Let_def
          split: if_splits list.splits)
  next
    case pass
    then show ?thesis
      using e Some c by (auto simp: pass_command_cases nul_free_user_def split: if_splits option.splits)
  next
    case quit
    then show ?thesis using e Some c by (simp add: quit_command_def)
  next
    case (guarded h)
    then show ?thesis using e Some c guarded_handler.login_kept [OF guarded(2)]
      by (simp add: nul_free_user_def)
  next
    case unknown
    then show ?thesis using e Some c by simp
  qed
qed

text \<open>A session: the commands of one client in the order they are handled.\<close>

fun run_session :: "os \<Rightarrow> command_t option list \<Rightarrow> connection_t \<Rightarrow> world \<Rightarrow>
    (connection_t \<times> world) result" where
  "run_session os [] c w = Inr (c, w)"
| "run_session os (cmd # cmds) c w =
     (case execute_command os cmd c w of
        Inl e \<Rightarrow> Inl e
      | Inr (st, c, w) \<Rightarrow> if st = COMMAND_QUIT then Inr (c, w) else run_session os cmds c w)"

definition nul_free_commands :: "command_t option list \<Rightarrow> bool" where
  "nul_free_commands cmds \<longleftrightarrow> list_all (\<lambda>cmd. case cmd of None \<Rightarrow> True | Some k \<Rightarrow> nul_free k) cmds"

lemma run_session_refines:
  assumes "nul_free_commands cmds" "nul_free_user c" "run_session os cmds c w = Inr (c', w')"
  shows "\<exists>n. abs_login c' = spec_run (abs_login c) (map request_of (take n cmds))"
  using assms
proof (induction cmds arbitrary: c w)
  case Nil
  then show ?case by simp
next
  case (Cons cmd cmds)
  from Cons.prems(3) obtain st c1 w1 where e: "execute_command os cmd c w = Inr (st, c1, w1)"
    by (auto split: sum.splits)
  have nf: "\<forall>k. cmd = Some k \<longrightarrow> nul_free k"
    using Cons.prems(1) by (auto simp: nul_free_commands_def)
  note step = execute_refines_login [OF nf Cons.prems(2) e]
  show ?case
  proof (cases "st = COMMAND_QUIT")
    case True
    with Cons.prems(3) e have "c' = c1" by simp
    with step show ?thesis by (intro exI [of _ 1]) simp
  next
    case False
    with Cons.prems(3) e have run: "run_session os cmds c1 w1 = Inr (c', w')" by simp
    have "nul_free_commands cmds" using Cons.prems(1) by (simp add: nul_free_commands_def)
    from Cons.IH [OF this execute_keeps_nul_free_user [OF nf Cons.prems(2) e] run] obtain n
      where "abs_login c' = spec_run (abs_login c1) (map request_of (take n cmds))" by blast
    with step show ?thesis by (intro exI [of _ "Suc n"]) simp
  qed
qed

section \<open>The barrier\<close>

lemma login_barrier:
  assumes "\<not> logged_in c" "\<forall>k. cmd = Some k \<longrightarrow> nul_free k"
  shows "\<exists>st c' w'. execute_command os cmd c w = Inr (st, c', w') \<and> fsys w' = fsys w \<and>
    cwd w' = cwd w \<and> open_fds w' = open_fds w \<and> jobs w' = jobs w \<and>
    data_socket c' = data_socket c \<and> working_directory c' = working_directory c"
proof (cases cmd)
  case None
  then show ?thesis by (auto simp: execute_command_def not_found_message_def)
next
  case (Some k)
  then have "nul_free k" using assms(2) by simp
  then show ?thesis
  proof (cases rule: dispatch_cases [where os = os and c = c and w = w])
    case user
    then show ?thesis using assms(1) Some by (auto simp: user_command_def Let_def)
  next
    case pass
    then show ?thesis using assms(1) Some by (auto simp: pass_command_cases split: option.splits)
  next
    case quit
    then show ?thesis using Some by (auto simp: quit_command_def)
  next
    case (guarded h)
    then show ?thesis using Some guarded_handler.guard [OF guarded(2) assms(1)] by simp
  next
    case unknown
    then show ?thesis using Some by (auto simp: not_found_message_def)
  qed
qed

section \<open>Properties\<close>

lemma demo_upper: "touppercase ''user'' = ''USER''" "touppercase ''PASS'' = ''PASS''"
  by code_simp+

lemma demo_login:
  "execute_command demo_os (Some (demo_command ''user'' [''anonymous''])) demo_conn demo_world =
     Inr (COMMAND_SUCCESS, demo_conn\<lparr>user := Some ''anonymous''\<rparr>,
       reply demo_conn msg_need_password demo_world)"
  by (simp add: demo_defs execute_by_name nul_free_def demo_upper command_handlers_def
      user_command_def argv0_def reply_def Let_def)

lemma demo_password:
  "execute_command demo_os (Some (demo_command ''PASS'' []))
     (demo_conn\<lparr>user := Some ''anonymous''\<rparr>) w =
     Inr (COMMAND_SUCCESS, demo_user, reply demo_conn msg_login_ok w)"
  by (simp add: demo_defs execute_by_name nul_free_def demo_upper command_handlers_def
      pass_command_cases get_password_def reply_def)

text \<open>
  The example of \<open>docs/commands.md\<close>: after any USER, PASS with the argument \<open>anonymous\<close> is answered
  530 and the name is forgotten.
\<close>

lemma pass_anonymous_refused:
  assumes "\<not> logged_in c" "user c = Some u" "argc cmd = 1" "argv0 cmd = Some ''anonymous''"
  shows "pass_command cmd c w = Inr (COMMAND_FAILURE, c\<lparr>user := None\<rparr>, reply c msg_login_bad w)"
  using assms by (simp add: pass_command_cases get_password_def)

text \<open>
  Property C3.  Before the login nothing but the login is reachable: whatever command a client
  sends, its handling comes to an end without a fault and leaves the files, the process's
  working directory, its descriptors and its children as they are, and the client has the data
  socket (none, after a connect) and the directory it had.
\<close>

theorem no_access_before_login:
  assumes "\<not> logged_in c" "nul_free cmd"
  shows "\<exists>st c' w'. execute_command os (Some cmd) c w = Inr (st, c', w') \<and> fsys w' = fsys w \<and>
    cwd w' = cwd w \<and> open_fds w' = open_fds w \<and> jobs w' = jobs w \<and>
    data_socket c' = data_socket c \<and> working_directory c' = working_directory c"
  using assms by (intro login_barrier) simp_all

theorem no_access_before_login_witness:
  "\<exists>st c' w'. execute_command demo_os (Some (demo_command ''RETR'' [''pub/a''])) demo_conn
      demo_world = Inr (st, c', w') \<and> fsys w' = fsys demo_world \<and>
    cwd w' = cwd demo_world \<and> open_fds w' = open_fds demo_world \<and> jobs w' = jobs demo_world \<and>
    data_socket c' = data_socket demo_conn \<and> working_directory c' = working_directory demo_conn"
  by (rule no_access_before_login) (simp_all add: demo_conn_def demo_command_def nul_free_def)

text \<open>
  Property C1.  Refinement: what any command, by any name and with any arguments, does to the
  login state of its connection is one step of the automaton \<open>spec_step\<close>.  The automaton is that of
  \<open>docs/RFC959.md\<close> (an anonymous account with an empty password) and of the comment of
  \<open>process_login\<close>; the example \<open>PASS anonymous\<close>, \<open>230 Login successful.\<close> of \<open>docs/commands.md\<close> is
  not a run of the program (\<open>pass_anonymous_refused\<close>).
\<close>

theorem login_refinement:
  assumes "nul_free cmd" "nul_free_user c"
    and "execute_command os (Some cmd) c w = Inr (st, c', w')"
  shows "abs_login c' = spec_step (abs_login c) (request_of (Some cmd))"
  using assms by (intro execute_refines_login) simp_all

theorem login_refinement_witness:
  "abs_login (demo_conn\<lparr>user := Some ''anonymous''\<rparr>) =
     spec_step (abs_login demo_conn) (request_of (Some (demo_command ''user'' [''anonymous''])))"
  by (rule login_refinement [OF _ _ demo_login])
    (simp_all add: demo_command_def demo_conn_def nul_free_def nul_free_user_def)

text \<open>
  Property C2.  A client that is logged in at the end of a session has sent, in this order, USER
  with one of the two anonymous names and PASS with the empty password, with nothing but other
  commands (no USER, no PASS) in between.  So the login \<open>docs/commands.md\<close> shows, with the password
  \<open>anonymous\<close>, is none.
\<close>

theorem session_login_only_anonymous:
  assumes "nul_free_commands cmds" "\<not> logged_in c" "user c = None"
    and "run_session os cmds c w = Inr (c', w')" "logged_in c'"
  shows "\<exists>as k1 bs k2 cs u. cmds = as @ k1 # bs @ k2 # cs \<and> request_of k1 = Req_user (Some u) \<and>
    anonymous u \<and> request_of k2 = Req_pass '''' \<and> list_all (\<lambda>k. request_of k = Req_other) bs"
proof -
  have "nul_free_user c" using assms(3) by (simp add: nul_free_user_def)
  from run_session_refines [OF assms(1) this assms(4)] obtain n
    where n: "abs_login c' = spec_run (abs_login c) (map request_of (take n cmds))" by blast
  with assms have "spec_run No_user (map request_of (take n cmds)) = Logged_in"
    by (simp add: abs_login_def)
  from spec_logged_in [OF this] obtain as u bs cs
    where m: "map request_of (take n cmds) = as @ Req_user (Some u) # bs @ Req_pass '''' # cs"
    and u: "anonymous u" and bs: "set bs \<subseteq> {Req_other}" by blast
  from m obtain as' k1 bs' k2 cs' where t: "take n cmds = as' @ k1 # bs' @ k2 # cs'"
    and k: "request_of k1 = Req_user (Some u)" "request_of k2 = Req_pass ''''"
    and b: "map request_of bs' = bs"
    by (auto simp: map_eq_append_conv map_eq_Cons_conv append_eq_map_conv Cons_eq_map_conv)
  have "list_all (\<lambda>k. request_of k = Req_other) bs'" using bs unfolding b [symmetric] by (auto simp: list_all_iff)
  moreover have "cmds = as' @ k1 # bs' @ k2 # (cs' @ drop n cmds)"
    using append_take_drop_id [of n cmds] unfolding t by simp
  ultimately show ?thesis using k u by blast
qed

theorem session_login_only_anonymous_witness:
  "\<exists>as k1 bs k2 cs u.
     [Some (demo_command ''user'' [''anonymous'']), Some (demo_command ''PASS'' [])] =
       as @ k1 # bs @ k2 # cs \<and> request_of k1 = Req_user (Some u) \<and>
    anonymous u \<and> request_of k2 = Req_pass '''' \<and> list_all (\<lambda>k. request_of k = Req_other) bs"
proof (rule session_login_only_anonymous)
  show "run_session demo_os
      [Some (demo_command ''user'' [''anonymous'']), Some (demo_command ''PASS'' [])]
      demo_conn demo_world = Inr (demo_user,
        reply demo_conn msg_login_ok (reply demo_conn msg_need_password demo_world))"
    by (simp add: demo_login demo_password)
qed (simp_all add: nul_free_commands_def nul_free_def demo_conn_def demo_command_def demo_user_def)

end
