(* ===== verification/Confinement.thy ===== *)
theory Confinement
  imports Login
begin

text \<open>
  What the server does, and does not, to keep a client inside its directory: the invariant the
  commands keep along a session, the exact behaviour of CWD and CDUP, and the runs that show the
  limits of the check, which compares the beginnings of two strings.
\<close>

section \<open>The invariant along a session\<close>

lemma root_safe_canonical:
  "root_safe (fsys w) p \<Longrightarrow> canonical_dir w (string_of_path p)"
  by (simp add: root_safe_def canonical_dirI)

lemma run_session_inv:
  assumes "root_safe (fsys w) p" "srv_path (server c) = string_of_path p" "conn_inv c"
    and "run_session os cmds c w = Inr (c', w')"
  shows "conn_inv c' \<and> root_safe (fsys w') p \<and> same_peer c c'"
  using assms
proof (induction cmds arbitrary: c w)
  case (Cons cmd cmds)
  from Cons.prems(4) obtain st c1 w1 where e: "execute_command os cmd c w = Inr (st, c1, w1)"
    by (auto split: sum.splits)
  have c1: "conn_inv c1"
    using Cons.prems(1,2,3) root_safe_canonical by (intro execute_command_inv [OF e]) simp_all
  have w1: "root_safe (fsys w1) p" using Cons.prems(1) by (rule execute_command_root [OF e])
  have p1: "same_peer c c1" using execute_command_contract [OF e] by simp
  show ?case
  proof (cases "st = COMMAND_QUIT")
    case True
    with Cons.prems(4) e c1 w1 p1 show ?thesis by simp
  next
    case False
    with Cons.prems(4) e have "run_session os cmds c1 w1 = Inr (c', w')" by simp
    moreover have "srv_path (server c1) = string_of_path p"
      using p1 Cons.prems(2) by (simp add: same_peer_def)
    ultimately show ?thesis using Cons.IH [OF w1 _ c1] p1 same_peer_trans by blast
  qed
qed simp

section \<open>CWD and CDUP between canonical directories\<close>

text \<open>
  The situation both commands are called in: the process is in the root \<open>r\<close> of the server, and
  the client in a directory \<open>q\<close> that is still there.
\<close>

definition at_root :: "connection_t \<Rightarrow> world \<Rightarrow> path \<Rightarrow> path \<Rightarrow> bool" where
  "at_root c w r q \<longleftrightarrow>
     logged_in c \<and> cwd w = r \<and> dir_path (fsys w) r \<and> srv_path (server c) = string_of_path r \<and>
     working_directory c = Some (string_of_path q) \<and> dir_path (fsys w) q"

text \<open>The directory the check of \<open>check_new_path\<close> leaves a client in.\<close>

definition checked_directory :: "path \<Rightarrow> path \<Rightarrow> string" where
  "checked_directory r t =
     (if prefix (string_of_path r) (string_of_path t) then string_of_path t else string_of_path r)"

lemma fs_opendir_access: "fs_opendir fs d s \<Longrightarrow> fs_access fs d s"
  by (simp add: fs_opendir_def fs_access_def split: walked.splits)

lemma dir_path_no_NUL: "dir_path fs p \<Longrightarrow> NUL \<notin> set (string_of_path p)"
  by (simp add: dir_path_def string_of_path_no_NUL)

lemma fs_chdir_Some_None:
  "chdir s w = (case fs_chdir (fsys w) (cwd w) s of None \<Rightarrow> (-1, w) | Some p \<Rightarrow> (0, w\<lparr>cwd := p\<rparr>))"
  by (simp add: chdir_def)

lemma change_dir_canonical:
  assumes "at_root c w r q" "fs_opendir (fsys w) r s"
    and t: "(case fs_chdir (fsys w) q s of None \<Rightarrow> q | Some t \<Rightarrow> t) = t" "dir_path (fsys w) t"
  shows "change_dir c s w =
    Inr (COMMAND_SUCCESS, c\<lparr>working_directory := Some (checked_directory r t)\<rparr>,
      reply c msg_cwd_ok w)"
proof -
  let ?root = "string_of_path r"
  have r: "srv_path (server c) = ?root" "working_directory c = Some (string_of_path q)"
    "cwd w = r" and d: "dir_path (fsys w) r" "dir_path (fsys w) q"
    using assms(1) by (simp_all add: at_root_def)
  have w1: "cwd_target c s w = w\<lparr>cwd := t\<rparr>"
    using t(1) chdir_canonical [OF d(2)]
    by (auto simp: cwd_target_def r chdir_def split: option.splits)
  have w2: "snd (chdir ?root (w\<lparr>cwd := t\<rparr>)) = w"
    using chdir_canonical [OF d(1)] by (simp add: chdir_def r(3) [symmetric])
  have "getcwd (w\<lparr>cwd := t\<rparr>) = Some (string_of_path t)" "getcwd w = Some ?root"
    using getcwd_canonical [OF t(2)] getcwd_canonical [OF d(1)] by (simp_all add: getcwd_def r)
  then show ?thesis
    using assms(2) fs_opendir_access [OF assms(2)] strncmp_prefix [OF dir_path_no_NUL [OF d(1)]]
    by (simp add: change_dir_cases r w1 w2 Let_def checked_directory_def reply_def)
qed

lemma dir_path_snocD: "dir_path fs (q @ [x]) \<Longrightarrow> dir_path fs q"
  by (simp add: dir_path_def prefixes_snoc)

lemma fs_chdir_parent:
  assumes "dir_path fs (q @ [x])"
  shows "fs_chdir fs (q @ [x]) ''..'' = Some q"
proof -
  have "searchable fs (q @ [x])" "searchable fs q"
    using dir_path_take [OF assms, of "length q + 1"] dir_path_take [OF assms, of "length q"]
    by (auto simp: searchable_def)
  moreover have "components ''..'' = [''..'']" by (simp add: components_def names_of_def)
  ultimately show ?thesis by (simp add: fs_chdir_def resolve_def absolute_def)
qed

lemma fs_opendir_canonical:
  "dir_path fs t \<Longrightarrow> readable fs t \<Longrightarrow> fs_opendir fs d (string_of_path t)"
  using dir_path_take [of fs t "length t"]
  by (auto simp: fs_opendir_def resolve_canonical is_directory_def)

lemma demo_at_root: "at_root demo_user demo_world [''srv'', ''ftp''] [''srv'', ''ftp'']"
  using demo_dir_path by (simp add: at_root_def demo_world_def demo_user_def demo_conn_def
      demo_server_def demo_root_def)

section \<open>Properties\<close>

text \<open>
  Property C5.  The confinement the server promises, as an invariant of sessions of any length:
  when the directory it was started in is reached through directories it cannot write, then
  after any commands of a client the path of the client's directory begins with the path of that
  directory, which still exists, the data socket is well formed, and the client is the same.
\<close>

theorem session_keeps_root_prefix:
  assumes "root_safe (fsys w) p" "srv_path (server c) = string_of_path p" "conn_inv c"
    and "run_session os cmds c w = Inr (c', w')"
  shows "conn_inv c' \<and> root_safe (fsys w') p \<and> same_peer c c'"
  using assms by (rule run_session_inv)

theorem session_keeps_root_prefix_witness:
  "conn_inv demo_user \<and>
   root_safe (fsys (reply demo_conn msg_login_ok (reply demo_conn msg_need_password demo_world)))
     [''srv'', ''ftp''] \<and>
   same_peer demo_conn demo_user"
proof (rule session_keeps_root_prefix)
  show "run_session demo_os
      [Some (demo_command ''user'' [''anonymous'']), Some (demo_command ''PASS'' [])]
      demo_conn demo_world = Inr (demo_user,
        reply demo_conn msg_login_ok (reply demo_conn msg_need_password demo_world))"
    by (simp add: demo_login demo_password)
  show "root_safe (fsys demo_world) [''srv'', ''ftp'']"
    using demo_dir_path by (simp add: root_safe_def demo_world_def writable_dir_def lookup_def
        demo_fs_def)
qed (simp_all add: demo_conn_def demo_server_def demo_root_def conn_inv_def wf_sockets_def wd_inside_def)

text \<open>
  Property C31.  CWD on every branch that moves: in the root of the server, for a client whose
  directory exists, a name that is a readable directory for the server and leads from the
  client's directory to an existing directory takes the client there, or to the root when the
  new path does not begin with the root's; the process is back in the root, and the reply is 250.
\<close>

theorem cwd_enters_directory:
  assumes "at_root c w r q" "argc cmd = 1" "argv0 cmd = Some s"
    and "fs_opendir (fsys w) r s" "fs_chdir (fsys w) q s = Some t" "dir_path (fsys w) t"
  shows "cwd_command cmd c w =
    Inr (COMMAND_SUCCESS, c\<lparr>working_directory := Some (checked_directory r t)\<rparr>,
      reply c msg_cwd_ok w)"
proof -
  have "change_dir c s w =
      Inr (COMMAND_SUCCESS, c\<lparr>working_directory := Some (checked_directory r t)\<rparr>,
        reply c msg_cwd_ok w)"
    using assms(1,4) by (rule change_dir_canonical) (simp_all add: assms(5,6))
  then show ?thesis using assms(1-3) by (simp add: cwd_command_def at_root_def)
qed

theorem cwd_enters_directory_witness:
  "cwd_command (demo_command ''CWD'' [''pub'']) demo_user demo_world =
     Inr (COMMAND_SUCCESS, demo_user\<lparr>working_directory :=
         Some (checked_directory [''srv'', ''ftp''] [''srv'', ''ftp'', ''pub''])\<rparr>,
       reply demo_user msg_cwd_ok demo_world)"
proof (rule cwd_enters_directory [OF demo_at_root])
  show "fs_opendir (fsys demo_world) [''srv'', ''ftp''] ''pub''" by code_simp
  show "fs_chdir (fsys demo_world) [''srv'', ''ftp''] ''pub'' = Some [''srv'', ''ftp'', ''pub'']"
    by code_simp
  show "dir_path (fsys demo_world) [''srv'', ''ftp'', ''pub'']" by code_simp
qed (simp_all add: demo_command_def argv0_def)

text \<open>
  The limit of the check: a directory beside the root whose name continues the
  root's name passes it.  From \<open>/srv/ftp\<close>, CWD to \<open>/srv/ftp2\<close> is granted, and leaves the client
  in a directory that is not below the root.
\<close>

lemma cwd_escapes_to_sibling:
  assumes "at_root c w (d @ [x]) q" "argc cmd = 1"
    and "argv0 cmd = Some (string_of_path (d @ [x @ y]))" "y \<noteq> []"
    and "dir_path (fsys w) (d @ [x @ y])" "readable (fsys w) (d @ [x @ y])"
  shows "cwd_command cmd c w =
      Inr (COMMAND_SUCCESS, c\<lparr>working_directory := Some (string_of_path (d @ [x @ y]))\<rparr>,
        reply c msg_cwd_ok w) \<and>
    \<not> prefix (d @ [x]) (d @ [x @ y])"
proof -
  let ?t = "d @ [x @ y]"
  have "prefix (string_of_path (d @ [x])) (string_of_path ?t)" by (cases d) (auto simp: prefix_def)
  then have checked: "checked_directory (d @ [x]) ?t = string_of_path ?t"
    by (simp add: checked_directory_def)
  have "change_dir c (string_of_path ?t) w =
      Inr (COMMAND_SUCCESS, c\<lparr>working_directory := Some (checked_directory (d @ [x]) ?t)\<rparr>,
        reply c msg_cwd_ok w)"
    using assms(1) fs_opendir_canonical [OF assms(5,6)]
    by (rule change_dir_canonical) (simp_all add: chdir_canonical [OF assms(5)] assms(5))
  then show ?thesis using assms(1-4) checked by (simp add: cwd_command_def at_root_def)
qed

lemma cwd_escapes_to_sibling_witness:
  "cwd_command (demo_command ''CWD'' [string_of_path ([''srv''] @ [''ftp'' @ ''2''])]) demo_user
       demo_world =
     Inr (COMMAND_SUCCESS,
       demo_user\<lparr>working_directory := Some (string_of_path ([''srv''] @ [''ftp'' @ ''2'']))\<rparr>,
       reply demo_user msg_cwd_ok demo_world) \<and>
   \<not> prefix ([''srv''] @ [''ftp'']) ([''srv''] @ [''ftp'' @ ''2''])"
proof (rule cwd_escapes_to_sibling)
  show "at_root demo_user demo_world ([''srv''] @ [''ftp'']) [''srv'', ''ftp'']"
    using demo_at_root by simp
  show "dir_path (fsys demo_world) ([''srv''] @ [''ftp'' @ ''2''])" by code_simp
  show "readable (fsys demo_world) ([''srv''] @ [''ftp'' @ ''2''])" by code_simp
qed (simp_all add: demo_command_def argv0_def)

text \<open>
  A relative name is looked up twice, from the root by the checks and from the
  client's directory by the move.  A name the root has and the client's directory has not is
  answered 250 and moves nobody.
\<close>

lemma cwd_success_without_move:
  assumes "at_root c w r q" "argc cmd = 1" "argv0 cmd = Some s"
    and "fs_opendir (fsys w) r s" "fs_chdir (fsys w) q s = None"
    and "prefix (string_of_path r) (string_of_path q)"
  shows "cwd_command cmd c w = Inr (COMMAND_SUCCESS, c, reply c msg_cwd_ok w)"
proof -
  have q: "dir_path (fsys w) q" "working_directory c = Some (string_of_path q)"
    using assms(1) by (simp_all add: at_root_def)
  then have "change_dir c s w =
      Inr (COMMAND_SUCCESS, c\<lparr>working_directory := Some (checked_directory r q)\<rparr>,
        reply c msg_cwd_ok w)"
    using assms(1,4) by (elim change_dir_canonical) (simp_all only: assms(5) option.case)
  then show ?thesis
    using assms(1-3) q(2) assms(6) by (simp add: cwd_command_def at_root_def checked_directory_def)
qed

lemma cwd_success_without_move_witness:
  "cwd_command (demo_command ''CWD'' [''pub''])
     (demo_user\<lparr>working_directory := Some ''/srv/ftp/pub''\<rparr>) demo_world =
   Inr (COMMAND_SUCCESS, demo_user\<lparr>working_directory := Some ''/srv/ftp/pub''\<rparr>,
     reply (demo_user\<lparr>working_directory := Some ''/srv/ftp/pub''\<rparr>) msg_cwd_ok demo_world)"
proof (rule cwd_success_without_move)
  have "dir_path (fsys demo_world) [''srv'', ''ftp'', ''pub'']" by code_simp
  then show "at_root (demo_user\<lparr>working_directory := Some ''/srv/ftp/pub''\<rparr>) demo_world
      [''srv'', ''ftp''] [''srv'', ''ftp'', ''pub'']"
    using demo_at_root by (simp add: at_root_def)
  show "fs_opendir (fsys demo_world) [''srv'', ''ftp''] ''pub''" by code_simp
  show "fs_chdir (fsys demo_world) [''srv'', ''ftp'', ''pub''] ''pub'' = None" by code_simp
qed (simp_all add: demo_command_def argv0_def)

text \<open>
  CDUP leads from a directory of the client to its parent, and stops at the root: a
  parent whose path does not begin with the root's leaves the client in the root.
\<close>

lemma cdup_enters_parent:
  assumes "at_root c w r (q @ [x])" "fs_opendir (fsys w) r ''..''"
  shows "cdup_command cmd c w =
    Inr (COMMAND_SUCCESS, c\<lparr>working_directory := Some (checked_directory r q)\<rparr>,
      reply c msg_cwd_ok w)"
proof -
  have d: "dir_path (fsys w) (q @ [x])" using assms(1) by (simp add: at_root_def)
  have "change_dir c ''..'' w =
      Inr (COMMAND_SUCCESS, c\<lparr>working_directory := Some (checked_directory r q)\<rparr>,
        reply c msg_cwd_ok w)"
    using assms by (rule change_dir_canonical) (simp_all add: fs_chdir_parent [OF d] dir_path_snocD [OF d])
  then show ?thesis using assms(1) by (simp add: cdup_command_def at_root_def)
qed

lemma cdup_enters_parent_witness:
  "cdup_command (demo_command ''CDUP'' []) demo_user demo_world =
     Inr (COMMAND_SUCCESS,
       demo_user\<lparr>working_directory := Some (checked_directory [''srv'', ''ftp''] [''srv''])\<rparr>,
       reply demo_user msg_cwd_ok demo_world)"
proof (rule cdup_enters_parent)
  show "at_root demo_user demo_world [''srv'', ''ftp''] ([''srv''] @ [''ftp''])"
    using demo_at_root by simp
  show "fs_opendir (fsys demo_world) [''srv'', ''ftp''] ''..''" by code_simp
qed

text \<open>
  Property C35.  DELE removes the entry its argument denotes from the client's directory, and no
  other: when that entry exists, lies in a directory the server can write, and is no directory with
  something in it, it is gone afterwards, every other path has what it had, and the reply is 250;
  otherwise no file changes and the reply is 550.  In both cases the process stays in the client's
  directory.
\<close>

theorem dele_removes_one_object:
  assumes "logged_in c" "argc cmd = 1" "argv0 cmd = Some s"
    and "working_directory c = Some d" "fs_chdir (fsys w) (cwd w) d = Some q"
  shows "\<exists>w'. cwd w' = q \<and>
    (if \<exists>p. entry_of (fsys w) q s = Some p \<and> removable (fsys w) s p
     then dele_command cmd c w = Inr (COMMAND_SUCCESS, c, w') \<and>
       lookup (fsys w') = (lookup (fsys w))(the (entry_of (fsys w) q s) := None) \<and>
       trace w' = trace w @ [Sent (self_pid w) (client_sockfd c) msg_dele_ok]
     else dele_command cmd c w = Inr (COMMAND_FAILURE, c, w') \<and> fsys w' = fsys w \<and>
       trace w' = trace w @ [Sent (self_pid w) (client_sockfd c) msg_dele_failed])"
proof -
  let ?w1 = "w\<lparr>cwd := q\<rparr>"
  have "snd (chdir_ptr (working_directory c) w) = ?w1" using assms(4,5) by (simp add: chdir_def)
  then have dele: "dele_command cmd c w =
      (case fs_remove (fsys w) q s of
         None \<Rightarrow> Inr (COMMAND_FAILURE, c, reply c msg_dele_failed ?w1)
       | Some fs' \<Rightarrow> Inr (COMMAND_SUCCESS, c, reply c msg_dele_ok (?w1\<lparr>fsys := fs'\<rparr>)))"
    using assms by (simp add: dele_command_def delete_file_cases Let_def)
  show ?thesis
  proof (cases "fs_remove (fsys w) q s")
    case None
    then show ?thesis
      by (auto simp: dele reply_def fs_remove_entry split: option.splits if_splits
          intro!: exI [of _ "reply c msg_dele_failed ?w1"])
  next
    case (Some fs')
    then obtain p where "entry_of (fsys w) q s = Some p" "removable (fsys w) s p"
      "fs' = remove_node (fsys w) p"
      by (auto simp: fs_remove_entry split: option.splits if_splits)
    moreover have "lookup (remove_node (fsys w) p) = (lookup (fsys w))(p := None)"
      by (auto simp: lookup_remove_node)
    ultimately show ?thesis
      using Some by (intro exI [of _ "reply c msg_dele_ok (?w1\<lparr>fsys := fs'\<rparr>)"]) (simp add: dele)
  qed
qed

theorem dele_removes_one_object_witness:
  "\<exists>w'. dele_command (demo_command ''DELE'' [''pub/a'']) demo_user demo_world =
      Inr (COMMAND_SUCCESS, demo_user, w') \<and> cwd w' = [''srv'', ''ftp''] \<and>
    lookup (fsys w') = (lookup (fsys demo_world))([''srv'', ''ftp'', ''pub'', ''a''] := None) \<and>
    trace w' = trace demo_world @ [Sent (self_pid demo_world) (client_sockfd demo_user) msg_dele_ok]"
proof -
  have e: "entry_of (fsys demo_world) [''srv'', ''ftp''] ''pub/a'' = Some [''srv'', ''ftp'', ''pub'', ''a'']"
    by code_simp
  have r: "removable (fsys demo_world) ''pub/a'' [''srv'', ''ftp'', ''pub'', ''a'']" by code_simp
  have "fs_chdir (fsys demo_world) (cwd demo_world) demo_root = Some [''srv'', ''ftp'']"
    by code_simp
  from dele_removes_one_object [OF _ _ _ _ this, of demo_user "demo_command ''DELE'' [''pub/a'']" "''pub/a''"]
  show ?thesis using e r by (auto simp: demo_user_def demo_conn_def demo_command_def argv0_def)
qed

text \<open>
  The name of a directory that was removed while the process was in it: only \<open>.\<close> and \<open>..\<close> are left.
\<close>

lemma dot_in_removed_directory:
  assumes "lookup fs q = None"
  shows "fs_opendir fs q ''.''" "fs_chdir fs q ''.'' = Some q" "fs_getcwd fs q = None"
proof -
  have "components ''.'' = [''.'']" by code_simp
  then have "resolve fs q ''.'' = Found q"
    using assms by (simp add: resolve_def absolute_def searchable_def)
  then show "fs_opendir fs q ''.''" "fs_chdir fs q ''.'' = Some q" "fs_getcwd fs q = None"
    using assms by (simp_all add: fs_opendir_def is_directory_def readable_def fs_chdir_def
        searchable_def fs_getcwd_def)
qed

text \<open>
  Property C30.  A client can bring the server down: whenever a DELE has removed the directory its
  client is in, whatever the name it was called by, CWD to \<open>.\<close> crashes.  DELE leaves the process in
  the directory that has gone, so that both checks of CWD succeed; \<open>getcwd\<close> has nothing to return,
  and \<open>check_new_path\<close> hands the NULL to \<open>strncmp\<close>.
\<close>

theorem removed_directory_crash:
  assumes "at_root c w r q" "dele_command cmd c w = Inr (COMMAND_SUCCESS, c', w1)"
    and "lookup (fsys w1) q = None" "argc cmd' = 1" "argv0 cmd' = Some ''.''"
  shows "cwd_command cmd' c' w1 = Inl Null_deref"
proof -
  have c: "logged_in c" "working_directory c = Some (string_of_path q)" "dir_path (fsys w) q"
    using assms(1) by (simp_all add: at_root_def)
  have "snd (chdir_ptr (working_directory c) w) = w\<lparr>cwd := q\<rparr>"
    by (simp add: c chdir_def chdir_canonical)
  then obtain s fs' where rm: "fs_remove (fsys w) q s = Some fs'"
    and w1: "c' = c" "w1 = reply c msg_dele_ok (w\<lparr>cwd := q, fsys := fs'\<rparr>)"
    using assms(2) c(1)
    by (auto simp: dele_command_def delete_file_cases Let_def split: if_splits option.splits)
  have q: "\<exists>rd wr. lookup (fsys w) q = Some (Dir rd wr True)"
    using dir_path_take [OF c(3), of "length q"] by simp
  from fs_remove_one [OF rm] obtain p where p: "fs' = remove_node (fsys w) p" "p \<noteq> []" by blast
  have "p = q" using assms(3) q by (auto simp: w1 p lookup_remove_node split: if_splits)
  with p obtain d x where dx: "q = d @ [x]" "fs' = remove_node (fsys w) (d @ [x])"
    by (cases q rule: rev_cases) auto
  have "dir_path fs' d"
    using dir_path_snocD [of "fsys w" d x] c(3)
    by (auto simp: dx dir_path_def list_all_iff is_open_dir_def lookup_remove_node dest: prefix_length_le)
  then have gone: "fs_chdir fs' q (string_of_path q) = None"
    using c(3) assms(3) unfolding dx(1) by (intro chdir_gone) (auto simp: dir_path_def w1 dx)
  have "lookup fs' q = None" using assms(3) by (simp add: w1)
  note dot = dot_in_removed_directory [OF this]
  have "cwd_target c ''.'' w1 = w1"
    using gone dot(2) by (simp add: cwd_target_def c chdir_def w1)
  then have "change_dir c ''.'' w1 = Inl Null_deref"
    using dot fs_opendir_access [OF dot(1)] by (simp add: change_dir_cases Let_def getcwd_def w1)
  then show ?thesis using assms(4,5) c(1) by (simp add: cwd_command_def w1)
qed

text \<open>The client is in \<open>/srv/ftp/pub\<close>, from which everything has been deleted.\<close>

definition demo_empty :: world where
  "demo_empty = demo_world\<lparr>fsys := remove_node demo_fs [''srv'', ''ftp'', ''pub'', ''a'']\<rparr>"

theorem removed_directory_crash_witness:
  "\<exists>c' (w1 :: world). dele_command (demo_command ''DELE'' [''../pub''])
      (demo_user\<lparr>working_directory := Some ''/srv/ftp/pub''\<rparr>) demo_empty =
        Inr (COMMAND_SUCCESS, c', w1) \<and>
    cwd_command (demo_command ''CWD'' [''.'']) c' w1 = Inl Null_deref"
proof -
  let ?c = "demo_user\<lparr>working_directory := Some ''/srv/ftp/pub''\<rparr>"
  let ?q = "[''srv'', ''ftp'', ''pub'']"
  let ?rm = "fs_remove (fsys demo_empty) ?q ''../pub''"
  let ?w1 = "reply ?c msg_dele_ok (demo_empty\<lparr>cwd := ?q, fsys := remove_node (fsys demo_empty) ?q\<rparr>)"
  have "dir_path (fsys demo_empty) [''srv'', ''ftp'']" "dir_path (fsys demo_empty) ?q" by code_simp+
  then have at: "at_root ?c demo_empty [''srv'', ''ftp''] ?q"
    by (simp add: at_root_def demo_empty_def demo_world_def demo_user_def demo_conn_def
        demo_server_def demo_root_def)
  have "entry_of (fsys demo_empty) ?q ''../pub'' = Some ?q" "removable (fsys demo_empty) ''../pub'' ?q"
    by code_simp+
  then have rm: "?rm = Some (remove_node (fsys demo_empty) ?q)" by (simp add: fs_remove_entry)
  have "snd (chdir_ptr (working_directory ?c) demo_empty) = demo_empty\<lparr>cwd := ?q\<rparr>"
    using chdir_canonical [of "fsys demo_empty" ?q] at by (simp add: at_root_def chdir_def)
  then have d: "dele_command (demo_command ''DELE'' [''../pub'']) ?c demo_empty =
      Inr (COMMAND_SUCCESS, ?c, ?w1)"
    using at rm by (simp add: dele_command_def delete_file_cases Let_def at_root_def
        demo_command_def argv0_def)
  have "lookup (fsys ?w1) ?q = None" by (simp add: lookup_remove_node)
  from removed_directory_crash [OF at d this] d show ?thesis
    by (auto simp: demo_command_def argv0_def)
qed

end
