(* ===== verification/Host_Port.thy ===== *)
theory Host_Port
  imports Transfer_Commands
begin

text \<open>
  The notation \<open>h1,h2,h3,h4,p1,p2\<close> of an address and a port, which PASV prints and PORT reads:
  what \<open>create_passive_data_socket\<close> composes and \<open>parse_host_port_values\<close> takes apart.
\<close>

section \<open>Tokens between commas\<close>

lemma strtok_piece:
  assumes "t \<noteq> []" "d \<notin> set t"
  shows "strtok d (t @ d # s) = Some (t, s)" and "strtok d t = Some (t, [])"
proof -
  obtain x xs where t: "t = x # xs" using assms(1) by (cases t) auto
  have x: "x \<noteq> d" and xs: "\<And>y. y \<in> set xs \<Longrightarrow> y \<noteq> d" using assms(2) t by auto
  have "takeWhile (\<lambda>c. c \<noteq> d) (xs @ d # s) = xs" "dropWhile (\<lambda>c. c \<noteq> d) (xs @ d # s) = d # s"
    "dropWhile (\<lambda>c. c \<noteq> d) xs = []" "takeWhile (\<lambda>c. c \<noteq> d) xs = xs"
    using xs by (induction xs) auto
  note this [simp]
  show "strtok d (t @ d # s) = Some (t, s)" "strtok d t = Some (t, [])"
    using x by (simp_all add: strtok_def t)
qed

lemma next_values_join:
  "list_all (\<lambda>t. t \<noteq> [] \<and> CHR '','' \<notin> set t) ts \<Longrightarrow>
   next_values (length ts) (join CHR '','' ts) = Some (map atoi ts)"
proof (induction "CHR '',''" ts rule: join.induct)
  case (2 t)
  then show ?case by (simp add: strtok_piece)
next
  case (3 t u ts)
  then show ?case by (simp add: strtok_piece)
qed simp

section \<open>Octets\<close>

lemma octet_unat: "octet k a = unat a div 2 ^ k mod 256"
proof -
  have "unat a mod 4294967296 = unat a" using unsigned_less [of a, where 'a = nat] by simp
  then show ?thesis
    unfolding octet_def unsigned_take_bit_eq unsigned_drop_bit_eq
    by (simp add: take_bit_eq_mod drop_bit_eq_div)
qed

lemma four_octets:
  assumes "n < 2 ^ 32"
  shows "n div 2 ^ 24 mod 256 * 2 ^ 24 + n div 2 ^ 16 mod 256 * 2 ^ 16 + n div 2 ^ 8 mod 256 * 2 ^ 8 +
    n div 2 ^ 0 mod 256 = (n :: nat)"
proof -
  define a b c where "a = n div 256" and "b = a div 256" and "c = b div 256"
  have "256 * a + n mod 256 = n" "256 * b + a mod 256 = a" "256 * c + b mod 256 = b"
    unfolding a_def b_def c_def by (rule mult_div_mod_eq)+
  moreover have "n div 2 ^ 24 = c" "n div 2 ^ 16 = b" "n div 2 ^ 8 = a"
    by (simp_all add: a_def b_def c_def div_mult2_eq [symmetric])
  moreover have "c mod 256 = c" using assms by (simp add: a_def b_def c_def div_mult2_eq [symmetric])
  ultimately show ?thesis by simp
qed

lemma octets_address:
  "word_of_int (int (octet 24 a) * 2 ^ 24 + int (octet 16 a) * 2 ^ 16 + int (octet 8 a) * 2 ^ 8 +
     int (octet 0 a)) = (a :: 32 word)"
proof -
  have "int (octet 24 a) * 2 ^ 24 + int (octet 16 a) * 2 ^ 16 + int (octet 8 a) * 2 ^ 8 +
     int (octet 0 a) = int (octet 24 a * 2 ^ 24 + octet 16 a * 2 ^ 16 + octet 8 a * 2 ^ 8 + octet 0 a)"
    by simp
  also have "\<dots> = uint a"
    using four_octets [of "unat a"] unsigned_less [of a, where 'a = nat] by (simp only: octet_unat) simp
  finally show ?thesis by simp
qed

lemma octet_less: "octet k a < 256"
  by (simp add: octet_unat)

section \<open>From numbers to text and back\<close>

lemma show_nat_no_comma: "CHR '','' \<notin> set (show_nat n)" "CHR ''.'' \<notin> set (show_nat n)"
  using show_nat_digits isdigit_neq by blast+

lemma replace_dots_append: "replace_dots_with_commas (s @ t) =
    replace_dots_with_commas s @ replace_dots_with_commas t"
  by (simp add: replace_dots_with_commas_def)

lemma replace_dots_show_nat: "replace_dots_with_commas (show_nat n) = show_nat n"
  using show_nat_no_comma(2) [of n] by (auto simp: replace_dots_with_commas_def intro: map_idI)

lemma replace_dots_dot: "replace_dots_with_commas (CHR ''.'' # s) = CHR '','' # replace_dots_with_commas s"
  by (simp add: replace_dots_with_commas_def)

lemma comma_address:
  "replace_dots_with_commas (inet_ntoa a) =
     join CHR '','' (map show_nat [octet 24 a, octet 16 a, octet 8 a, octet 0 a])"
  by (simp add: inet_ntoa_def replace_dots_append replace_dots_show_nat replace_dots_dot)

lemma port_argument_values:
  assumes "0 \<le> p" "p \<le> 65535"
  shows "parse_host_port_values (replace_dots_with_commas (inet_ntoa a) @ '','' @
      show_int (p div 256) @ '','' @ show_int (p mod 256)) =
    Some [int (octet 24 a), int (octet 16 a), int (octet 8 a), int (octet 0 a), p div 256, p mod 256]"
proof -
  let ?ns = "[octet 24 a, octet 16 a, octet 8 a, octet 0 a, nat (p div 256), nat (p mod 256)]"
  have p: "0 \<le> p div 256" "0 \<le> p mod 256" "p div 256 < 256" "p mod 256 < 256" using assms by auto
  have arg: "replace_dots_with_commas (inet_ntoa a) @ '','' @ show_int (p div 256) @ '','' @
      show_int (p mod 256) = join CHR '','' (map show_nat ?ns)"
    using p by (simp add: comma_address show_int_def not_less)
  have "atoi (show_nat n) = int n" if "n < 256" for n
    using that by (intro atoi_show_nat) simp
  then have "map (\<lambda>n. atoi (show_nat n)) ?ns = map int ?ns"
    using p octet_less by (simp add: nat_less_iff)
  moreover have "list_all (\<lambda>t. t \<noteq> [] \<and> CHR '','' \<notin> set t) (map show_nat ?ns)"
    by (simp add: show_nat_no_comma)
  ultimately show ?thesis
    using next_values_join [of "map show_nat ?ns"] p unfolding arg
    by (simp add: parse_host_port_values_def numeral_eq_Suc comp_def)
qed

text \<open>
  PASV: once the listening socket is set up, the client gets a data socket, and the
  only reply names the loopback address and two octets that make up the port the kernel chose.
\<close>

lemma pasv_announces_port:
  assumes "logged_in c" "setup_passive_data_socket os w = (Some ds, w1)"
    and "\<And>w'. os_malloc os w' Alloc_ports"
  shows "\<exists>w'. pasv_command os cmd c w =
      Inr (COMMAND_SUCCESS, c\<lparr>data_socket := Some ds\<rparr>, w') \<and>
    trace w' = trace w1 @ [Printed (log_passive_created (ds_port ds)),
      Sent (self_pid w) (client_sockfd c)
        (msg_passive ''127,0,0,1'' (ds_port ds div 256) (ds_port ds mod 256))] \<and>
    merge_port (Some (ds_port ds div 256, ds_port ds mod 256)) = ds_port ds"
proof -
  have p: "0 \<le> ds_port ds" "ds_port ds \<le> 65535" and a: "sin_addr (ds_addr ds) = INADDR_LOOPBACK"
    using setup_passive_Some [OF assms(2)] by simp_all
  have "replace_dots_with_commas (inet_ntoa INADDR_LOOPBACK) = ''127,0,0,1''" by code_simp
  moreover have "self_pid w1 = self_pid w"
    using quietD(1) [OF setup_passive_quiet [of w os]] assms(2) by simp
  moreover have "merge_port (Some (ds_port ds div 256, ds_port ds mod 256)) = ds_port ds"
    using merge_split_port [OF p] p by (simp add: split_port_def)
  ultimately show ?thesis
    using assms p a
    by (simp add: pasv_command_def create_passive_data_socket_def split_port_def)
qed

section \<open>Properties\<close>

text \<open>
  What PORT makes of an argument in that notation, for every address and port: a data socket for
  exactly that address and port.
\<close>

lemma port_reads_address:
  assumes "logged_in c" "argc cmd = 1" "0 \<le> p" "p \<le> 65535"
    and "argv0 cmd = Some (replace_dots_with_commas (inet_ntoa a) @ '','' @
      show_int (p div 256) @ '','' @ show_int (p mod 256))"
    and "\<And>w' site. os_malloc os w' site" "\<And>w'. os_socket os w' \<noteq> -1"
  shows "\<exists>c' w' ds. port_command os cmd c w = Inr (COMMAND_SUCCESS, c', w') \<and>
    data_socket c' = Some ds \<and> ds_port ds = p \<and>
    ds_addr ds = \<lparr>sin_addr = a, sin_port = word_of_int p\<rparr>"
proof -
  let ?hp = "[int (octet 24 a), int (octet 16 a), int (octet 8 a), int (octet 0 a), p div 256, p mod 256]"
  have "merge_port (Some (p div 256, p mod 256)) = p"
    using merge_split_port [OF assms(3,4)] assms(3,4) by (simp add: split_port_def)
  then have "\<exists>w1 ds. setup_active_data_socket os ?hp w = (Some ds, w1) \<and>
      ds_port ds = p \<and> ds_addr ds = \<lparr>sin_addr = a, sin_port = word_of_int p\<rparr>"
    using assms(6,7) octets_address [of a]
    by (simp add: setup_active_data_socket_def init_active_data_socket_def active_sockin_def
        socket_def Let_def)
  then show ?thesis
    using assms(1,2,5) assms(6) [of w Alloc_host_port] port_argument_values [OF assms(3,4), of a]
    by (auto simp: port_command_def create_active_data_socket_def get_host_port_def)
qed

text \<open>
  Property C33.  The reply to PASV and the argument of PORT agree: the text between the
  parentheses of the reply to a successful PASV, given to PORT (by another client, of another
  server even), makes it set up a data socket for the very address and port of the listening
  socket behind the PASV.
\<close>

theorem pasv_port_roundtrip:
  assumes "logged_in c" "setup_passive_data_socket os w = (Some ds, w1)"
    and "\<And>w'. os_malloc os w' Alloc_ports"
    and "logged_in c2" "\<And>w' site. os_malloc os2 w' site" "\<And>w'. os_socket os2 w' \<noteq> -1"
  shows "\<exists>arg w' c2' w2' ds2.
    pasv_command os cmd c w = Inr (COMMAND_SUCCESS, c\<lparr>data_socket := Some ds\<rparr>, w') \<and>
    bytes_sent (self_pid w) (client_sockfd c) (trace w') =
      bytes_sent (self_pid w) (client_sockfd c) (trace w) @
      ''227 Entering Passive Mode ('' @ arg @ '').'' @ crlf \<and>
    port_command os2 \<lparr>name = ''PORT'', argc = 1, argv = [arg]\<rparr> c2 w2 =
      Inr (COMMAND_SUCCESS, c2', w2') \<and>
    data_socket c2' = Some ds2 \<and> ds_port ds2 = ds_port ds \<and>
    ds_addr ds2 = \<lparr>sin_addr = sin_addr (ds_addr ds), sin_port = word_of_int (ds_port ds)\<rparr>"
proof -
  let ?arg = "replace_dots_with_commas (inet_ntoa (sin_addr (ds_addr ds))) @ '','' @
    show_int (ds_port ds div 256) @ '','' @ show_int (ds_port ds mod 256)"
  have p: "0 \<le> ds_port ds" "ds_port ds \<le> 65535" using setup_passive_Some [OF assms(2)] by simp_all
  have q: "quiet w w1" using setup_passive_quiet [of w os] assms(2) by simp
  let ?w' = "reply c (''227 Entering Passive Mode ('' @ ?arg @ '').'' @ crlf)
    (printf (log_passive_created (ds_port ds)) w1)"
  have "pasv_command os cmd c w = Inr (COMMAND_SUCCESS, c\<lparr>data_socket := Some ds\<rparr>, ?w')"
    using assms(1-3) p
    by (simp add: pasv_command_def create_passive_data_socket_def split_port_def msg_passive_def)
  moreover have "bytes_sent (self_pid w) (client_sockfd c) (trace w1) =
      bytes_sent (self_pid w) (client_sockfd c) (trace w)" "self_pid w1 = self_pid w"
    using quiet_bytes_sent [OF q] quietD(1) [OF q] by simp_all
  ultimately have 1: "pasv_command os cmd c w = Inr (COMMAND_SUCCESS, c\<lparr>data_socket := Some ds\<rparr>, ?w')"
    "bytes_sent (self_pid w) (client_sockfd c) (trace ?w') =
      bytes_sent (self_pid w) (client_sockfd c) (trace w) @
      ''227 Entering Passive Mode ('' @ ?arg @ '').'' @ crlf"
    by (simp_all add: reply_def)
  have "argv0 \<lparr>name = ''PORT'', argc = 1, argv = [?arg]\<rparr> = Some ?arg"
    by (simp add: argv0_def)
  from port_reads_address [OF assms(4) _ p this assms(5,6), of w2] obtain c2' w2' ds2 where
    2: "port_command os2 \<lparr>name = ''PORT'', argc = 1, argv = [?arg]\<rparr> c2 w2 =
      Inr (COMMAND_SUCCESS, c2', w2')" "data_socket c2' = Some ds2" "ds_port ds2 = ds_port ds"
    "ds_addr ds2 = \<lparr>sin_addr = sin_addr (ds_addr ds), sin_port = word_of_int (ds_port ds)\<rparr>"
    by auto
  show ?thesis
    by (rule exI [of _ ?arg], rule exI [of _ ?w'], rule exI [of _ c2'], rule exI [of _ w2'],
        rule exI [of _ ds2]) (intro conjI 1 2)
qed

theorem pasv_port_roundtrip_witness:
  "\<exists>arg w' c2' w2' ds2.
    pasv_command demo_os (demo_command ''PASV'' []) demo_user demo_world =
      Inr (COMMAND_SUCCESS, demo_user\<lparr>data_socket :=
        fst (setup_passive_data_socket demo_os demo_world)\<rparr>, w') \<and>
    bytes_sent 1 4 (trace w') = ''227 Entering Passive Mode ('' @ arg @ '').'' @ crlf \<and>
    port_command demo_os \<lparr>name = ''PORT'', argc = 1, argv = [arg]\<rparr> demo_user demo_world =
      Inr (COMMAND_SUCCESS, c2', w2') \<and>
    data_socket c2' = Some ds2 \<and> sin_addr (ds_addr ds2) = INADDR_LOOPBACK"
proof -
  have "fst (setup_passive_data_socket demo_os demo_world) \<noteq> None" by code_simp
  then obtain ds w1 where s: "setup_passive_data_socket demo_os demo_world = (Some ds, w1)"
    by (metis not_None_eq prod.collapse)
  have "logged_in demo_user" by (simp add: demo_user_def)
  from pasv_port_roundtrip [OF this s _ this, of demo_os "demo_command ''PASV'' []" demo_world]
  obtain arg w' c2' w2' ds2 where
    "pasv_command demo_os (demo_command ''PASV'' []) demo_user demo_world =
      Inr (COMMAND_SUCCESS, demo_user\<lparr>data_socket := Some ds\<rparr>, w')"
    "bytes_sent 1 4 (trace w') = ''227 Entering Passive Mode ('' @ arg @ '').'' @ crlf"
    "port_command demo_os \<lparr>name = ''PORT'', argc = 1, argv = [arg]\<rparr> demo_user demo_world =
      Inr (COMMAND_SUCCESS, c2', w2')"
    "data_socket c2' = Some ds2" "sin_addr (ds_addr ds2) = sin_addr (ds_addr ds)"
    by (auto simp: demo_os_def demo_user_def demo_conn_def demo_world_def)
  with setup_passive_Some(3) [OF s] show ?thesis by (simp add: s)
qed

text \<open>
  A PORT whose last two numbers are not octets is not rejected: it is answered 200
  and gives the client a data socket with the port number -1, which the conversion to 16 bits
  turns into port 65535.
\<close>

lemma port_accepts_bad_port:
  assumes "logged_in c" "argc cmd = 1" "argv0 cmd = Some arg"
    and "parse_host_port_values arg = Some host_port"
    and "host_port ! 4 \<notin> {0..255} \<or> host_port ! 5 \<notin> {0..255}"
    and "\<And>w' site. os_malloc os w' site" "\<And>w'. os_socket os w' \<noteq> -1"
  shows "\<exists>c' w' ds. port_command os cmd c w = Inr (COMMAND_SUCCESS, c', w') \<and>
    data_socket c' = Some ds \<and> ds_port ds = -1 \<and> sin_port (ds_addr ds) = 65535 \<and>
    bytes_sent (self_pid w) (client_sockfd c) (trace w') =
      bytes_sent (self_pid w) (client_sockfd c) (trace w) @ msg_port_ok"
proof -
  have "merge_port (Some (host_port ! 4, host_port ! 5)) = -1"
    using assms(5) by (auto simp: merge_port_def)
  then have "\<exists>w1 ds. setup_active_data_socket os host_port w = (Some ds, w1) \<and> trace w1 = trace w \<and>
      self_pid w1 = self_pid w \<and> ds_port ds = -1 \<and> sin_port (ds_addr ds) = 65535"
    using assms(6,7)
    by (auto simp: setup_active_data_socket_def init_active_data_socket_def active_sockin_def
        socket_def Let_def)
  then obtain w1 ds where "setup_active_data_socket os host_port w = (Some ds, w1)" "trace w1 = trace w"
      "self_pid w1 = self_pid w" "ds_port ds = -1" "sin_port (ds_addr ds) = 65535" by blast
  then show ?thesis
    using assms(1-4) assms(6) [of w Alloc_host_port]
    by (simp add: port_command_def create_active_data_socket_def get_host_port_def)
qed

lemma port_accepts_bad_port_witness:
  "\<exists>c' w' ds. port_command demo_os (demo_command ''PORT'' [''127,0,0,1,300,1'']) demo_user
      demo_world = Inr (COMMAND_SUCCESS, c', w') \<and>
    data_socket c' = Some ds \<and> ds_port ds = -1 \<and> sin_port (ds_addr ds) = 65535 \<and>
    bytes_sent (self_pid demo_world) (client_sockfd demo_user) (trace w') =
      bytes_sent (self_pid demo_world) (client_sockfd demo_user) (trace demo_world) @ msg_port_ok"
proof (rule port_accepts_bad_port)
  show "parse_host_port_values ''127,0,0,1,300,1'' = Some [127, 0, 0, 1, 300, 1]" by code_simp
qed (simp_all add: demo_user_def demo_conn_def demo_command_def argv0_def demo_os_def)

end
