(* ===== verification/Transfers.thy ===== *)
theory Transfers
  imports Confinement Host_Port
begin

text \<open>
  What the data connections carry: the loops that send a file or a listing and store an upload,
  what the child of a transfer does from beginning to end, the addresses PASV announces and PORT
  reads, and what the server keeps of a data socket after its transfer.
\<close>

section \<open>The loops\<close>

text \<open>The pieces \<open>dprintf\<close> sends of a file.\<close>

definition chunks_of :: "string \<Rightarrow> string list" where
  "chunks_of data = map c_str (read_lines (fgets 1024) (length data) data)"

lemma fold_dprintf:
  "fold (\<lambda>buffer w. dprintf fd (c_str buffer) w) bs w =
     w\<lparr>trace := trace w @ map (Sent (self_pid w) fd) (map c_str bs)\<rparr>"
  by (induction bs arbitrary: w) (simp_all add: dprintf_def emit_def)

lemma send_chunks_eq:
  "send_chunks fd data w = w\<lparr>trace := trace w @ map (Sent (self_pid w) fd) (chunks_of data)\<rparr>"
  by (simp add: send_chunks_def fold_dprintf chunks_of_def)

lemma concat_no_NUL: "NUL \<notin> set (concat bs) \<Longrightarrow> concat (map c_str bs) = concat bs"
  by (induction bs) (auto simp: c_str_id)

lemma chunks_of_text: "NUL \<notin> set data \<Longrightarrow> concat (chunks_of data) = data"
  using concat_no_NUL [of "read_lines (fgets 1024) (length data) data"]
  by (simp add: chunks_of_def fgets_reader.read_lines_concat)

text \<open>A line with a NUL in it loses what follows the NUL.\<close>

lemma take_line_whole: "LF \<notin> set s \<Longrightarrow> length s \<le> n \<Longrightarrow> take_line n s = s"
  by (induction n s rule: take_line.induct) auto

lemma chunks_of_NUL:
  assumes "LF \<notin> set (a @ b)" "NUL \<notin> set a" "length a + length b < 1023"
  shows "chunks_of (a @ NUL # b) = [a]"
proof -
  let ?d = "a @ NUL # b"
  have "take_line 1023 ?d = ?d" using assms by (intro take_line_whole) auto
  then have "fgets 1024 ?d = Some (?d, [])" by (simp add: fgets_def)
  moreover have "read_lines (fgets 1024) n [] = []" for n
    by (cases n) (simp_all add: fgets_def take_line_Nil_iff)
  ultimately have "read_lines (fgets 1024) (length ?d) ?d = [?d]" by simp
  moreover have "c_str ?d = a" using assms(2) by (induction a) (auto simp: c_str_def)
  ultimately show ?thesis by (simp add: chunks_of_def)
qed

section \<open>RETR in the child\<close>

text \<open>What the child of a RETR has: its file, found from the client's directory, and its socket.\<close>

definition retr_source :: "connection_t \<Rightarrow> command_t \<Rightarrow> world \<Rightarrow> data_socket_t \<Rightarrow> string \<Rightarrow> bool" where
  "retr_source c cmd w ds data \<longleftrightarrow>
     data_socket c = Some ds \<and>
     (\<exists>path. argv0 cmd = Some path \<and>
       fs_fopen_r (fsys w) (cwd (snd (chdir_ptr (working_directory c) w))) path = Some data)"

lemma execute_retr:
  assumes "retr_source c cmd w ds data"
  shows "\<exists>w'. execute_retr_command c cmd w = Inr (COMMAND_SUCCESS, w') \<and> fsys w' = fsys w \<and>
    open_fds w' = open_fds w \<and> self_pid w' = self_pid w \<and> jobs w' = jobs w \<and>
    trace w' = trace w @ Sent (self_pid w) (client_sockfd c) msg_opening #
      map (Sent (self_pid w) (ds_client_sockfd ds)) (chunks_of data) @
      [Sent (self_pid w) (client_sockfd c) msg_complete]"
proof -
  let ?w1 = "snd (chdir_ptr (working_directory c) (reply c msg_opening w))"
  have "cwd ?w1 = cwd (snd (chdir_ptr (working_directory c) w))"
    by (simp add: chdir_ptr_def chdir_def split: option.splits)
  then show ?thesis
    using assms by (auto simp: retr_source_def execute_retr_command_def send_chunks_eq Let_def)
qed

section \<open>STOR in the child\<close>

lemma execute_stor:
  assumes "argv0 cmd = Some path" "data_socket c = Some ds"
    and target: "fs_fopen_w (fsys w) (cwd w) path = Some (p, fs')"
    and net: "\<And>w'. os_fdopen os w' (ds_client_sockfd ds)"
      "\<And>w'. os_recv os w' (ds_client_sockfd ds) = Some data"
  shows "\<exists>w' r. execute_stor_command os c cmd w = Inr (COMMAND_SUCCESS, w') \<and>
    lookup (fsys w') = (lookup (fsys w))(p \<mapsto> File r True data) \<and>
    (lookup (fsys w) p = None \<and> r \<or> (\<exists>old. lookup (fsys w) p = Some (File r True old))) \<and>
    cwd w' = cwd w \<and> self_pid w' = self_pid w \<and>
    trace w' = trace w @ [Sent (self_pid w) (client_sockfd c) msg_opening,
      Sent (self_pid w) (client_sockfd c) msg_complete]"
proof -
  from fs_fopen_w_target [OF target] obtain r
    where fs': "fs' = write_file (fsys w) p []"
    and r: "lookup (fsys w) p = None \<and> r \<or> (\<exists>old. lookup (fsys w) p = Some (File r True old))"
    by blast
  let ?w1 = "reply c msg_opening (w\<lparr>fsys := fs'\<rparr>)"
  from r have l: "lookup (fsys ?w1) = (lookup (fsys w))(p \<mapsto> File r True [])"
    by (auto simp: fs' lookup_write_file)
  then have "lookup (fsys ?w1) p = Some (File r True [])" by simp
  from fold_append_file [OF this, of "read_lines getline (length data) data"] obtain w2
    where w2: "fold (append_file p) (read_lines getline (length data) data) ?w1 = w2"
    and l2: "lookup (fsys w2) = (lookup (fsys ?w1))(p \<mapsto> File r True data)"
    and eq: "w2 = ?w1\<lparr>fsys := fsys w2\<rparr>"
    by (auto simp: getline_reader.read_lines_concat)
  have same: "cwd w2 = cwd w" "self_pid w2 = self_pid w" "trace w2 = trace ?w1"
    by (subst eq, simp)+
  have "execute_stor_command os c cmd w =
      Inr (COMMAND_SUCCESS, reply c msg_complete (close (ds_client_sockfd ds) w2))"
    using assms(1,2) target by (simp add: execute_stor_command_def transfer_file_data_def net w2)
  then show ?thesis using l l2 r same by auto
qed

section \<open>From the handler to the end of the child\<close>

text \<open>A passive transfer whose client connects and whose child can be forked.\<close>

definition passive_ready :: "os \<Rightarrow> connection_t \<Rightarrow> world \<Rightarrow> data_socket_t \<Rightarrow> int \<Rightarrow> sockaddr \<Rightarrow> int \<Rightarrow> bool"
where
  "passive_ready os c w ds fd a pid \<longleftrightarrow>
     data_socket c = Some ds \<and> data_socket_mode ds = PASSIVE \<and>
     (\<forall>w'. os_peer os w' (data_sockfd ds) \<and> os_accept os w' (data_sockfd ds) = Some (fd, a)) \<and>
     fd \<noteq> -1 \<and>
     (\<forall>w'. os_fork os w' = pid) \<and> pid \<noteq> -1"

definition passive_job :: "connection_t \<Rightarrow> data_socket_t \<Rightarrow> int \<Rightarrow> sockaddr \<Rightarrow> int \<Rightarrow> command_execution \<Rightarrow>
    command_t \<Rightarrow> world \<Rightarrow> job" where
  "passive_job c ds fd a pid e cmd w =
     \<lparr>job_pid = pid,
      job_connection = c\<lparr>data_socket := Some (ds\<lparr>ds_client_sockfd := fd, ds_addr := a\<rparr>)\<rparr>,
      job_command = cmd, job_execution = e, job_cwd = cwd w, job_fds = insert fd (open_fds w)\<rparr>"

lemma execute_passive:
  assumes "passive_ready os c w ds fd a pid"
  shows "\<exists>w'. execute_data_socket_command os c e cmd w =
      Inr (COMMAND_SUCCESS, c\<lparr>data_socket := None\<rparr>, w') \<and>
    jobs w' = jobs w @ [passive_job c ds fd a pid e cmd w] \<and> fsys w' = fsys w \<and> cwd w' = cwd w \<and>
    self_pid w' = self_pid w \<and> open_fds w' = open_fds w - {fd}"
  using assms
  by (auto simp: passive_ready_def execute_data_socket_command_def fork_execution_def
      establish_data_socket_connection_def accept_connection_def accept_def passive_job_def
      destroy_data_socket_def Let_def)

lemma child_main_retr:
  assumes "job_execution j = Execute_retr_command"
    and "retr_source (job_connection j) (job_command j) w ds data"
    and "stream (job_connection j) \<noteq> None" "data_socket_mode ds = PASSIVE"
  shows "\<exists>w'. child_main os j w = Inr w' \<and> fsys w' = fsys w \<and> jobs w' = jobs w \<and>
    trace w' = trace w @ Sent (self_pid w) (client_sockfd (job_connection j)) msg_opening #
      map (Sent (self_pid w) (ds_client_sockfd ds)) (chunks_of data) @
      [Sent (self_pid w) (client_sockfd (job_connection j)) msg_complete]"
proof -
  have ds: "data_socket (job_connection j) = Some ds" using assms(2) by (simp add: retr_source_def)
  from execute_retr [OF assms(2)] obtain w1
    where e: "execute_retr_command (job_connection j) (job_command j) w = Inr (COMMAND_SUCCESS, w1)"
    and w1: "fsys w1 = fsys w" "jobs w1 = jobs w"
      "trace w1 = trace w @ Sent (self_pid w) (client_sockfd (job_connection j)) msg_opening #
        map (Sent (self_pid w) (ds_client_sockfd ds)) (chunks_of data) @
        [Sent (self_pid w) (client_sockfd (job_connection j)) msg_complete]"
    by blast
  from assms(3) obtain s where "stream (job_connection j) = Some s" by blast
  then show ?thesis
    by (simp add: child_main_def run_execution_def assms(1,4) e destroy_connection_def
        destroy_data_socket_def ds Let_def w1)
qed

lemma child_main_stor:
  assumes "job_execution j = Execute_stor_command" "argv0 (job_command j) = Some path"
    and ds: "data_socket (job_connection j) = Some ds" "data_socket_mode ds = PASSIVE"
    and "stream (job_connection j) \<noteq> None"
    and target: "fs_fopen_w (fsys w) (cwd w) path = Some (p, fs')"
    and net: "\<And>w'. os_fdopen os w' (ds_client_sockfd ds)"
      "\<And>w'. os_recv os w' (ds_client_sockfd ds) = Some data"
  shows "\<exists>w' r. child_main os j w = Inr w' \<and>
    lookup (fsys w') = (lookup (fsys w))(p \<mapsto> File r True data) \<and>
    (lookup (fsys w) p = None \<and> r \<or> (\<exists>old. lookup (fsys w) p = Some (File r True old)))"
proof -
  from execute_stor [OF assms(2) ds(1) target net] obtain w1 r
    where e: "execute_stor_command os (job_connection j) (job_command j) w = Inr (COMMAND_SUCCESS, w1)"
    and w1: "lookup (fsys w1) = (lookup (fsys w))(p \<mapsto> File r True data)"
      "lookup (fsys w) p = None \<and> r \<or> (\<exists>old. lookup (fsys w) p = Some (File r True old))" by blast
  from assms(5) obtain s where s: "stream (job_connection j) = Some s" by blast
  have "\<exists>w'. child_main os j w = Inr w' \<and> fsys w' = fsys w1"
    by (simp add: child_main_def run_execution_def assms(1) e destroy_connection_def
        destroy_data_socket_def ds s Let_def)
  with w1 show ?thesis by auto
qed

lemma at_root_excursion:
  assumes "at_root c w r q"
  shows "snd (chdir_ptr (working_directory c) w) = w\<lparr>cwd := q\<rparr>"
    and "snd (chdir (srv_path (server c)) (w\<lparr>cwd := q\<rparr>)) = w"
proof -
  have d: "dir_path (fsys w) q" "dir_path (fsys w) r"
    "working_directory c = Some (string_of_path q)" "srv_path (server c) = string_of_path r"
    "cwd w = r" using assms by (simp_all add: at_root_def)
  show "snd (chdir_ptr (working_directory c) w) = w\<lparr>cwd := q\<rparr>"
    using chdir_canonical [OF d(1)] by (simp add: d chdir_def)
  show "snd (chdir (srv_path (server c)) (w\<lparr>cwd := q\<rparr>)) = w"
    using chdir_canonical [OF d(2)] by (simp add: d(4) chdir_def d(5) [symmetric])
qed

lemma check_file_exists_ok:
  assumes "at_root c w r q" "fs_fopen_r (fsys w) q path = Some data"
  shows "check_file_exists c path w = (0, w)"
  using at_root_excursion [OF assms(1)] assms(2) by (simp add: check_file_exists_def Let_def)

lemma demo_passive_at_root:
  "at_root demo_passive demo_world [''srv'', ''ftp''] [''srv'', ''ftp'']"
  using demo_at_root by (simp add: at_root_def demo_passive_def)

lemma demo_passive_ready:
  "passive_ready demo_os demo_passive demo_world demo_ds 7
     \<lparr>sin_addr = INADDR_LOOPBACK, sin_port = 50001\<rparr> 100"
  by (simp add: passive_ready_def demo_passive_def demo_ds_def demo_os_def)

text \<open>A plain name in an existing directory.\<close>

lemma valid_name_resolve:
  assumes "valid_name n" "dir_path fs r"
  shows "resolve fs r n =
    (case lookup fs (r @ [n]) of
       None \<Rightarrow> Missing (r @ [n])
     | Some (Link t) \<Rightarrow> resolve fs r n
     | Some _ \<Rightarrow> Found (r @ [n]))"
proof -
  have n: "n \<noteq> []" "SLASH \<notin> set n" "n \<noteq> ''.''" "n \<noteq> ''..''" using assms(1) by (auto simp: valid_name_def)
  then have "last n \<noteq> SLASH" "hd n \<noteq> SLASH" by (auto dest: last_in_set hd_in_set)
  then have "components n = [n]" "\<not> absolute n"
    using n by (simp_all add: components_def names_of_def pieces_single absolute_def)
  moreover have "searchable fs r" using dir_path_take [OF assms(2), of "length r"]
    by (auto simp: searchable_def)
  ultimately show ?thesis using n by (auto simp: resolve_def split: option.splits node.splits)
qed

lemma dir_path_cong: "(\<And>q. prefix q p \<Longrightarrow> lookup fs' q = lookup fs q) \<Longrightarrow> dir_path fs' p = dir_path fs p"
  by (simp add: dir_path_def is_open_dir_def list_all_iff)

lemma fopen_w_new:
  assumes "valid_name n" "dir_path fs r" "lookup fs (r @ [n]) = None" "writable_dir fs r"
  shows "\<exists>fs'. fs_fopen_w fs r n = Some (r @ [n], fs')"
  using assms by (simp add: fs_fopen_w_def valid_name_resolve)

lemma fopen_r_file:
  assumes "valid_name n" "dir_path fs r" "lookup fs (r @ [n]) = Some (File True wr data)"
  shows "fs_fopen_r fs r n = Some data"
  using assms by (simp add: fs_fopen_r_def valid_name_resolve readable_def)

section \<open>A transfer from beginning to end\<close>

lemma stor_end_to_end:
  assumes "logged_in c" "argc cmd = 1" "argv0 cmd = Some path"
    and "passive_ready os c w ds fd a pid" "stream c \<noteq> None"
    and "fs_fopen_w (fsys w) (cwd w) path = Some (p, fs')"
    and "\<And>w'. os_fdopen os w' fd" "\<And>w'. os_recv os w' fd = Some data"
  shows "\<exists>c' w' j w'' r. stor_command os cmd c w = Inr (COMMAND_SUCCESS, c', w') \<and>
    fsys w' = fsys w \<and> jobs w' = jobs w @ [j] \<and> run_job os j w' = Inr w'' \<and>
    lookup (fsys w'') = (lookup (fsys w))(p \<mapsto> File r True data) \<and>
    (lookup (fsys w) p = None \<and> r \<or> (\<exists>old. lookup (fsys w) p = Some (File r True old)))"
proof -
  from execute_passive [OF assms(4)] obtain w'
    where e: "execute_data_socket_command os c Execute_stor_command cmd w =
      Inr (COMMAND_SUCCESS, c\<lparr>data_socket := None\<rparr>, w')"
    and w': "jobs w' = jobs w @ [passive_job c ds fd a pid Execute_stor_command cmd w]"
      "fsys w' = fsys w" "cwd w' = cwd w" by blast
  define j where "j = passive_job c ds fd a pid Execute_stor_command cmd w"
  define v where "v = w'\<lparr>self_pid := job_pid j, cwd := job_cwd j, open_fds := job_fds j\<rparr>"
  have v: "fsys v = fsys w" "cwd v = cwd w"
    by (simp_all add: v_def j_def passive_job_def w'(2))
  have "\<exists>v' r. child_main os j v = Inr v' \<and>
      lookup (fsys v') = (lookup (fsys v))(p \<mapsto> File r True data) \<and>
      (lookup (fsys v) p = None \<and> r \<or> (\<exists>old. lookup (fsys v) p = Some (File r True old)))"
    using assms(3-8)
    by (intro child_main_stor) (auto simp: j_def passive_job_def passive_ready_def v)
  then obtain v' r where v': "child_main os j v = Inr v'"
      "lookup (fsys v') = (lookup (fsys w))(p \<mapsto> File r True data)"
    and r: "lookup (fsys w) p = None \<and> r \<or> (\<exists>old. lookup (fsys w) p = Some (File r True old))"
    by (auto simp: v)
  have "\<exists>w''. run_job os j w' = Inr w'' \<and> fsys w'' = fsys v'"
    using v'(1) by (simp add: run_job_def v_def [symmetric])
  moreover have "stor_command os cmd c w = Inr (COMMAND_SUCCESS, c\<lparr>data_socket := None\<rparr>, w')"
    using assms(1-4) e by (simp add: stor_command_def passive_ready_def)
  ultimately show ?thesis using w' v'(2) r j_def by auto
qed

lemma retr_end_to_end:
  assumes "at_root c w r q" "argc cmd = 1" "argv0 cmd = Some path"
    and "fs_fopen_r (fsys w) q path = Some data" "NUL \<notin> set data"
    and "passive_ready os c w ds fd a pid" "stream c \<noteq> None" "fd \<noteq> client_sockfd c"
  shows "\<exists>c' w' j w''. retr_command os cmd c w = Inr (COMMAND_SUCCESS, c', w') \<and>
    jobs w' = jobs w @ [j] \<and> run_job os j w' = Inr w'' \<and> fsys w'' = fsys w \<and>
    bytes_sent pid fd (trace w'') = bytes_sent pid fd (trace w') @ data \<and>
    bytes_sent pid (client_sockfd c) (trace w'') =
      bytes_sent pid (client_sockfd c) (trace w') @ msg_opening @ msg_complete"
proof -
  from execute_passive [OF assms(6)] obtain w'
    where e: "execute_data_socket_command os c Execute_retr_command cmd w =
      Inr (COMMAND_SUCCESS, c\<lparr>data_socket := None\<rparr>, w')"
    and w': "jobs w' = jobs w @ [passive_job c ds fd a pid Execute_retr_command cmd w]"
      "fsys w' = fsys w" "cwd w' = cwd w" by blast
  define j where "j = passive_job c ds fd a pid Execute_retr_command cmd w"
  define v where "v = w'\<lparr>self_pid := job_pid j, cwd := job_cwd j, open_fds := job_fds j\<rparr>"
  let ?ds = "ds\<lparr>ds_client_sockfd := fd, ds_addr := a\<rparr>"
  have "snd (chdir_ptr (working_directory c) v) = v\<lparr>cwd := q\<rparr>"
    using at_root_excursion(1) [of c v r q] assms(1)
    by (simp add: at_root_def v_def j_def passive_job_def w')
  then have "retr_source (job_connection j) (job_command j) v ?ds data"
    using assms(3,4) by (simp add: retr_source_def j_def passive_job_def v_def w'(2))
  from child_main_retr [OF _ this, where os = os] obtain v'
    where v': "child_main os j v = Inr v'" "fsys v' = fsys v"
      "trace v' = trace v @ Sent (self_pid v) (client_sockfd c) msg_opening #
        map (Sent (self_pid v) fd) (chunks_of data) @
        [Sent (self_pid v) (client_sockfd c) msg_complete]"
    using assms(6,7) by (auto simp: j_def passive_job_def passive_ready_def)
  have pid: "self_pid v = pid" "trace v = trace w'" "fsys v = fsys w'"
    by (simp_all add: v_def j_def passive_job_def)
  have "retr_command os cmd c w = Inr (COMMAND_SUCCESS, c\<lparr>data_socket := None\<rparr>, w')"
    using assms(1-3,6) check_file_exists_ok [OF assms(1,4)] e
    by (simp add: retr_command_def at_root_def passive_ready_def)
  moreover have "\<exists>w''. run_job os j w' = Inr w'' \<and> fsys w'' = fsys w \<and> trace w'' = trace v'"
    using v' by (simp add: run_job_def v_def [symmetric] pid w')
  ultimately show ?thesis
    using w'(1) j_def v'(3) pid assms(8) chunks_of_text [OF assms(5)]
    by (fastforce simp: bytes_sent_map_other)
qed

section \<open>Properties\<close>

text \<open>
  Property C10.  RETR from beginning to end, in passive mode: for a text file found from the
  client's directory, the handler starts one child, and the child sends the client exactly the
  bytes of the file on the data connection, and the replies 150 and 226 on the control
  connection; no file changes.
\<close>

theorem retr_delivers_file:
  assumes "at_root c w r q" "argc cmd = 1" "argv0 cmd = Some path"
    and "fs_fopen_r (fsys w) q path = Some data" "NUL \<notin> set data"
    and "passive_ready os c w ds fd a pid" "stream c \<noteq> None" "fd \<noteq> client_sockfd c"
  shows "\<exists>c' w' j w''. retr_command os cmd c w = Inr (COMMAND_SUCCESS, c', w') \<and>
    jobs w' = jobs w @ [j] \<and> run_job os j w' = Inr w'' \<and> fsys w'' = fsys w \<and>
    bytes_sent pid fd (trace w'') = bytes_sent pid fd (trace w') @ data \<and>
    bytes_sent pid (client_sockfd c) (trace w'') =
      bytes_sent pid (client_sockfd c) (trace w') @ msg_opening @ msg_complete"
  using assms by (rule retr_end_to_end)

theorem retr_delivers_file_witness:
  "\<exists>c' w' j w''. retr_command demo_os (demo_command ''RETR'' [''pub/a'']) demo_passive demo_world =
      Inr (COMMAND_SUCCESS, c', w') \<and>
    jobs w' = jobs demo_world @ [j] \<and> run_job demo_os j w' = Inr w'' \<and> fsys w'' = fsys demo_world \<and>
    bytes_sent 100 7 (trace w'') = bytes_sent 100 7 (trace w') @ ''hello'' \<and>
    bytes_sent 100 (client_sockfd demo_passive) (trace w'') =
      bytes_sent 100 (client_sockfd demo_passive) (trace w') @ msg_opening @ msg_complete"
proof (rule retr_delivers_file [OF demo_passive_at_root _ _ _ _ demo_passive_ready])
  show "fs_fopen_r (fsys demo_world) [''srv'', ''ftp''] ''pub/a'' = Some ''hello''" by code_simp
qed (simp_all add: demo_command_def argv0_def demo_passive_def demo_user_def demo_conn_def)

text \<open>
  RETR of a name that cannot be opened from the client's directory starts no child
  and changes nothing; the single reply is 550, or 451 when the same name can be read from the
  root of the server, where \<open>access\<close> is called.
\<close>

lemma retr_refuses_missing_file:
  assumes "at_root c w r q" "data_socket c \<noteq> None" "argc cmd = 1" "argv0 cmd = Some path"
    and "fs_fopen_r (fsys w) q path = None"
  shows "retr_command os cmd c w = Inr (COMMAND_FAILURE, c,
    reply c (if fs_access_read (fsys w) r path then msg_local_error else msg_denied) w)"
proof -
  have "check_file_exists c path w =
      (-1, reply c (if fs_access_read (fsys w) r path then msg_local_error else msg_denied) w)"
    using at_root_excursion [OF assms(1)] assms(1,5)
    by (simp add: check_file_exists_def Let_def at_root_def)
  then show ?thesis using assms(1-4) by (auto simp: retr_command_def at_root_def)
qed

lemma retr_refuses_missing_file_witness:
  "retr_command demo_os (demo_command ''RETR'' [''b'']) demo_passive demo_world =
     Inr (COMMAND_FAILURE, demo_passive,
       reply demo_passive
         (if fs_access_read (fsys demo_world) [''srv'', ''ftp''] ''b'' then msg_local_error
          else msg_denied) demo_world)"
proof (rule retr_refuses_missing_file [OF demo_passive_at_root])
  show "fs_fopen_r (fsys demo_world) [''srv'', ''ftp''] ''b'' = None" by code_simp
qed (simp_all add: demo_command_def argv0_def demo_passive_def)

text \<open>
  Property C40.  A file with a NUL is not transferred whole: of a line \<open>a\<close>, NUL, \<open>b\<close> that fits
  the buffer the client receives \<open>a\<close> only, between the same two replies as for a complete
  transfer.
\<close>

theorem retr_truncates_at_NUL:
  assumes "retr_source c cmd w ds (a @ NUL # b)"
    and "LF \<notin> set (a @ b)" "NUL \<notin> set a" "length a + length b < 1023"
  shows "\<exists>w'. execute_retr_command c cmd w = Inr (COMMAND_SUCCESS, w') \<and>
    trace w' = trace w @ [Sent (self_pid w) (client_sockfd c) msg_opening,
      Sent (self_pid w) (ds_client_sockfd ds) a, Sent (self_pid w) (client_sockfd c) msg_complete]"
  using execute_retr [OF assms(1)] chunks_of_NUL [OF assms(2-4)] by auto

theorem retr_truncates_at_NUL_witness:
  "\<exists>w'. execute_retr_command demo_passive (demo_command ''RETR'' [''/b''])
      (demo_world\<lparr>fsys := [([], Dir True True True), ([''b''], File True True (''x'' @ NUL # ''y''))]\<rparr>) =
      Inr (COMMAND_SUCCESS, w') \<and>
    trace w' = [Sent 1 4 msg_opening, Sent 1 (-1) ''x'', Sent 1 4 msg_complete]"
proof -
  let ?w = "demo_world\<lparr>fsys := [([], Dir True True True),
      ([''b''], File True True (''x'' @ NUL # ''y''))]\<rparr>"
  have "fs_fopen_r (fsys ?w) p ''/b'' = Some (''x'' @ NUL # ''y'')" for p
    by (simp add: fs_fopen_r_def resolve_def absolute_def components_def names_of_def searchable_def
        lookup_def readable_def)
  then have "retr_source demo_passive (demo_command ''RETR'' [''/b'']) ?w demo_ds
      (''x'' @ NUL # ''y'')"
    by (simp add: retr_source_def demo_passive_def demo_command_def argv0_def)
  from retr_truncates_at_NUL [OF this] show ?thesis
    by (simp add: demo_world_def demo_passive_def demo_user_def demo_conn_def demo_ds_def)
qed

text \<open>
  Property C11.  STOR from beginning to end, in passive mode: the handler starts one child and
  changes no file itself; the child leaves the file with exactly the bytes the client sent, NULs
  included, keeps its permissions, and changes no other file.
\<close>

theorem stor_stores_upload:
  assumes "logged_in c" "argc cmd = 1" "argv0 cmd = Some path"
    and "passive_ready os c w ds fd a pid" "stream c \<noteq> None"
    and "fs_fopen_w (fsys w) (cwd w) path = Some (p, fs')"
    and "\<And>w'. os_fdopen os w' fd" "\<And>w'. os_recv os w' fd = Some data"
  shows "\<exists>c' w' j w'' r. stor_command os cmd c w = Inr (COMMAND_SUCCESS, c', w') \<and>
    fsys w' = fsys w \<and> jobs w' = jobs w @ [j] \<and> run_job os j w' = Inr w'' \<and>
    lookup (fsys w'') = (lookup (fsys w))(p \<mapsto> File r True data) \<and>
    (lookup (fsys w) p = None \<and> r \<or> (\<exists>old. lookup (fsys w) p = Some (File r True old)))"
  using assms by (rule stor_end_to_end)

theorem stor_stores_upload_witness:
  "\<exists>c' w' j w'' r. stor_command demo_os (demo_command ''STOR'' [''up'']) demo_passive demo_world =
      Inr (COMMAND_SUCCESS, c', w') \<and>
    fsys w' = fsys demo_world \<and> jobs w' = jobs demo_world @ [j] \<and> run_job demo_os j w' = Inr w'' \<and>
    lookup (fsys w'') =
      (lookup (fsys demo_world))([''srv'', ''ftp'', ''up''] \<mapsto> File r True ''data'') \<and>
    (lookup (fsys demo_world) [''srv'', ''ftp'', ''up''] = None \<and> r \<or>
     (\<exists>old. lookup (fsys demo_world) [''srv'', ''ftp'', ''up''] = Some (File r True old)))"
proof (rule stor_stores_upload [OF _ _ _ demo_passive_ready])
  show "fs_fopen_w (fsys demo_world) (cwd demo_world) ''up'' =
      Some ([''srv'', ''ftp'', ''up''], write_file demo_fs [''srv'', ''ftp'', ''up''] [])"
    by code_simp
qed (simp_all add: demo_command_def argv0_def demo_passive_def demo_user_def demo_conn_def demo_os_def)

text \<open>
  What STOR stored, RETR gives back: a new file uploaded under a plain name into the
  directory the process is in is sent, byte for byte, to any client in that directory that asks
  for it, when the data is text.
\<close>

lemma stor_retr_roundtrip:
  assumes "dir_path (fsys w) (cwd w)" "writable_dir (fsys w) (cwd w)"
    and "argv0 cmd = Some n" "valid_name n" "lookup (fsys w) (cwd w @ [n]) = None"
    and "data_socket c = Some ds" "\<And>w'. os_fdopen os w' (ds_client_sockfd ds)"
    and "\<And>w'. os_recv os w' (ds_client_sockfd ds) = Some data" "NUL \<notin> set data"
    and "data_socket c2 = Some ds2" "working_directory c2 = Some (string_of_path (cwd w))"
    and "ds_client_sockfd ds2 \<noteq> client_sockfd c2"
  shows "\<exists>w1 w2. execute_stor_command os c cmd w = Inr (COMMAND_SUCCESS, w1) \<and>
    execute_retr_command c2 cmd w1 = Inr (COMMAND_SUCCESS, w2) \<and>
    bytes_sent (self_pid w) (ds_client_sockfd ds2) (trace w2) =
      bytes_sent (self_pid w) (ds_client_sockfd ds2) (trace w1) @ data"
proof -
  let ?p = "cwd w @ [n]"
  from fopen_w_new [OF assms(4,1,5,2)] obtain fs' where "fs_fopen_w (fsys w) (cwd w) n = Some (?p, fs')"
    by blast
  from execute_stor [OF assms(3,6) this assms(7,8)] obtain w1 r
    where stor: "execute_stor_command os c cmd w = Inr (COMMAND_SUCCESS, w1)"
    and l: "lookup (fsys w1) = (lookup (fsys w))(?p \<mapsto> File r True data)" and "r"
    and w1: "cwd w1 = cwd w" "self_pid w1 = self_pid w"
    using assms(5) by auto
  have "dir_path (fsys w1) (cwd w) = dir_path (fsys w) (cwd w)"
    by (rule dir_path_cong) (auto simp: l dest: prefix_length_le)
  then have d: "dir_path (fsys w1) (cwd w)" using assms(1) by simp
  have "fs_fopen_r (fsys w1) (cwd w) n = Some data"
    using fopen_r_file [OF assms(4) d] l \<open>r\<close> by simp
  then have "retr_source c2 cmd w1 ds2 data"
    using assms(3,10,11) chdir_canonical [OF d] by (simp add: retr_source_def chdir_def)
  from execute_retr [OF this] show ?thesis
    using stor assms(12) w1 chunks_of_text [OF assms(9)] by (auto simp: bytes_sent_map_other)
qed

lemma stor_retr_roundtrip_witness:
  "\<exists>w1 w2. execute_stor_command demo_os demo_passive (demo_command ''STOR'' [''up'']) demo_world =
      Inr (COMMAND_SUCCESS, w1) \<and>
    execute_retr_command demo_passive (demo_command ''STOR'' [''up'']) w1 =
      Inr (COMMAND_SUCCESS, w2) \<and>
    bytes_sent (self_pid demo_world) (ds_client_sockfd demo_ds) (trace w2) =
      bytes_sent (self_pid demo_world) (ds_client_sockfd demo_ds) (trace w1) @ ''data''"
proof (rule stor_retr_roundtrip)
  show "dir_path (fsys demo_world) (cwd demo_world)" using demo_dir_path by (simp add: demo_world_def)
  show "writable_dir (fsys demo_world) (cwd demo_world)" by code_simp
  show "lookup (fsys demo_world) (cwd demo_world @ [''up'']) = None" by code_simp
  show "valid_name ''up''" by code_simp
  show "working_directory demo_passive = Some (string_of_path (cwd demo_world))" by code_simp
qed (simp_all add: demo_command_def argv0_def demo_passive_def demo_user_def demo_conn_def
    demo_os_def demo_ds_def)

text \<open>
  The handlers share the working directory of the process: after a DELE of one
  client, which does not go back to the root, the child that stores the upload of any other
  client runs in the directory of the first, and STOR opens its file relative to it.
\<close>

lemma dele_redirects_uploads:
  assumes "logged_in c1" "argc cmd1 = 1" "working_directory c1 = Some (string_of_path q)"
    and "dir_path (fsys w) q" "dele_command cmd1 c1 w = Inr (st1, c1', w1)"
    and "stor_command os cmd2 c2 w1 = Inr (st2, c2', w2)" "jobs w2 = jobs w1 @ [j]"
  shows "job_cwd j = q \<and> job_execution j = Execute_stor_command"
proof -
  have "cwd w1 = q"
    using assms(1-5) chdir_canonical [OF assms(4)]
    by (auto simp: dele_command_def delete_file_cases chdir_def Let_def split: option.splits)
  moreover from assms(6,7)
  have "execute_data_socket_command os c2 Execute_stor_command cmd2 w1 = Inr (st2, c2', w2)"
    by (auto simp: stor_command_def split: if_splits)
  from execute_data_socket_contract [OF this] assms(7)
  have "job_cwd j = cwd w1" "job_execution j = Execute_stor_command" by auto
  ultimately show ?thesis by simp
qed

lemma dele_redirects_uploads_witness:
  "\<exists>c1 c1' w1 c2' w2 j.
    dele_command (demo_command ''DELE'' [''b'']) c1 demo_world = Inr (COMMAND_FAILURE, c1', w1) \<and>
    stor_command demo_os (demo_command ''STOR'' [''up'']) demo_passive w1 =
      Inr (COMMAND_SUCCESS, c2', w2) \<and>
    jobs w2 = jobs w1 @ [j] \<and>
    job_cwd j = [''srv'', ''ftp'', ''pub''] \<and> job_execution j = Execute_stor_command"
proof -
  let ?c1 = "demo_user\<lparr>working_directory := Some (string_of_path [''srv'', ''ftp'', ''pub''])\<rparr>"
  let ?w1 = "reply ?c1 msg_dele_failed (demo_world\<lparr>cwd := [''srv'', ''ftp'', ''pub'']\<rparr>)"
  have d: "dir_path (fsys demo_world) [''srv'', ''ftp'', ''pub'']" by code_simp
  have "fs_chdir (fsys demo_world) (cwd demo_world) ''/srv/ftp/pub'' = Some [''srv'', ''ftp'', ''pub'']"
    "fs_remove (fsys demo_world) [''srv'', ''ftp'', ''pub''] ''b'' = None" by code_simp+
  then have dele: "dele_command (demo_command ''DELE'' [''b'']) ?c1 demo_world =
      Inr (COMMAND_FAILURE, ?c1, ?w1)"
    by (simp add: dele_command_def delete_file_cases chdir_def demo_user_def demo_conn_def
        demo_command_def argv0_def Let_def)
  have "passive_ready demo_os demo_passive ?w1 demo_ds 7
      \<lparr>sin_addr = INADDR_LOOPBACK, sin_port = 50001\<rparr> 100"
    using demo_passive_ready by (simp add: passive_ready_def)
  from execute_passive [OF this, of Execute_stor_command "demo_command ''STOR'' [''up'']"]
  obtain c2' w2 j where stor: "stor_command demo_os (demo_command ''STOR'' [''up'']) demo_passive
      ?w1 = Inr (COMMAND_SUCCESS, c2', w2)" "jobs w2 = jobs ?w1 @ [j]"
    by (auto simp: stor_command_def demo_passive_def demo_user_def demo_conn_def demo_command_def)
  have "job_cwd j = [''srv'', ''ftp'', ''pub''] \<and> job_execution j = Execute_stor_command"
    by (rule dele_redirects_uploads [OF _ _ _ d dele stor])
      (simp_all add: demo_user_def demo_conn_def demo_command_def)
  with dele stor show ?thesis by blast
qed

text \<open>
  Property C34.  LIST with an argument starts a child only when the directory the argument leads
  to, from the client's directory, has a path that begins with the root's.
\<close>

theorem list_confined:
  assumes "list_command os cmd c w = Inr (st, c', w')" "jobs w' \<noteq> jobs w"
    and "1 \<le> argc cmd" "NUL \<notin> set (srv_path (server c))"
  shows "\<exists>s d. argv0 cmd = Some s \<and> getcwd (cwd_target c s w) = Some d \<and>
    prefix (srv_path (server c)) d"
proof -
  from assms(1,2) obtain w1 where l: "list_check c cmd w = Inr (False, w1)"
    by (auto simp: list_command_def checked_def dest!: list_check_checked
        split: if_splits sum.splits)
  then show ?thesis
    using assms(3) strncmp_prefix [OF assms(4)]
    by (auto simp: list_check_def list_check_exists_def check_directory_access_def cwd_target_def
        Let_def case_prod_beta split: if_splits option.splits sum.splits)
qed

theorem list_confined_witness:
  "\<exists>c' w'. list_command demo_os (demo_command ''LIST'' [''pub'']) demo_passive demo_world =
      Inr (COMMAND_SUCCESS, c', w') \<and> jobs w' \<noteq> jobs demo_world \<and>
    (\<exists>s d. argv0 (demo_command ''LIST'' [''pub'']) = Some s \<and>
      getcwd (cwd_target demo_passive s demo_world) = Some d \<and> prefix demo_root d)"
proof -
  have "fst (projr (list_check demo_passive (demo_command ''LIST'' [''pub'']) demo_world)) = False"
    "isl (list_check demo_passive (demo_command ''LIST'' [''pub'']) demo_world) = False"
    by code_simp+
  then obtain w1 where l: "list_check demo_passive (demo_command ''LIST'' [''pub'']) demo_world =
      Inr (False, w1)"
    by (cases "list_check demo_passive (demo_command ''LIST'' [''pub'']) demo_world") auto
  have "jobs w1 = jobs demo_world" using list_check_checked [OF l] by (simp add: checked_def)
  have "passive_ready demo_os demo_passive w1 demo_ds 7
      \<lparr>sin_addr = INADDR_LOOPBACK, sin_port = 50001\<rparr> 100"
    using demo_passive_ready by (simp add: passive_ready_def)
  from execute_passive [OF this, of Execute_ls_command "demo_command ''LIST'' [''pub'']"]
  obtain c' w' where r: "list_command demo_os (demo_command ''LIST'' [''pub'']) demo_passive
      demo_world = Inr (COMMAND_SUCCESS, c', w')" "jobs w' \<noteq> jobs demo_world"
    using l \<open>jobs w1 = jobs demo_world\<close>
    by (auto simp: list_command_def demo_passive_def demo_user_def demo_conn_def)
  have "srv_path (server demo_passive) = demo_root" "NUL \<notin> set demo_root"
    by (simp_all add: demo_passive_def demo_user_def demo_conn_def demo_server_def demo_root_def)
  then show ?thesis using r list_confined [OF r] by (auto simp: demo_command_def)
qed

text \<open>
  The child of a LIST sends the output of \<open>ls\<close> in the directory asked for (the
  client's own without an argument) on the data connection and 150 and 226 around it on the
  control connection, and goes back to no other directory of its own than the root.
\<close>

lemma list_delivers_listing:
  assumes "data_socket c = Some ds" "ds_client_sockfd ds \<noteq> client_sockfd c"
    and "s = (case argv0 cmd of None \<Rightarrow> ''.'' | Some s \<Rightarrow> s)"
    and "fst (chdir s (snd (chdir_ptr (working_directory c) w))) = 0"
    and "os_ls os (cwd_target c s w) = Some listing" "NUL \<notin> set listing"
  shows "\<exists>w'. execute_ls_command os c cmd w = Inr (COMMAND_SUCCESS, w') \<and> fsys w' = fsys w \<and>
    cwd w' = cwd (snd (chdir (srv_path (server c)) (cwd_target c s w))) \<and>
    bytes_sent (self_pid w) (ds_client_sockfd ds) (trace w') =
      bytes_sent (self_pid w) (ds_client_sockfd ds) (trace w) @ listing \<and>
    bytes_sent (self_pid w) (client_sockfd c) (trace w') =
      bytes_sent (self_pid w) (client_sockfd c) (trace w) @ msg_list_start @ msg_list_ok"
proof -
  let ?w1 = "cwd_target c s w"
  have "goto_path c cmd w = (COMMAND_SUCCESS, ?w1)"
    using assms(3,4) by (simp add: goto_path_def cwd_target_def Let_def case_prod_beta)
  moreover have "cwd (snd (chdir p (v\<lparr>trace := t\<rparr>))) = cwd (snd (chdir p v))"
    "cwd (snd (chdir p (reply c m v))) = cwd (snd (chdir p v))" for p t m v
    by (simp_all add: chdir_def split: option.splits)
  ultimately show ?thesis
    using assms(1,2,5) chunks_of_text [OF assms(6)]
    by (simp add: execute_ls_command_def list_directory_def send_chunks_eq bytes_sent_map_other Let_def)
qed

lemma list_delivers_listing_witness:
  "\<exists>w'. execute_ls_command demo_os demo_passive (demo_command ''LIST'' []) demo_world =
      Inr (COMMAND_SUCCESS, w') \<and> fsys w' = fsys demo_world \<and>
    cwd w' = cwd (snd (chdir (srv_path (server demo_passive))
      (cwd_target demo_passive ''.'' demo_world))) \<and>
    bytes_sent (self_pid demo_world) (ds_client_sockfd demo_ds) (trace w') =
      bytes_sent (self_pid demo_world) (ds_client_sockfd demo_ds) (trace demo_world) @ ''total 0'' \<and>
    bytes_sent (self_pid demo_world) (client_sockfd demo_passive) (trace w') =
      bytes_sent (self_pid demo_world) (client_sockfd demo_passive) (trace demo_world) @
        msg_list_start @ msg_list_ok"
proof (rule list_delivers_listing)
  show "fst (chdir ''.'' (snd (chdir_ptr (working_directory demo_passive) demo_world))) = 0"
    by code_simp
qed (simp_all add: demo_command_def argv0_def demo_passive_def demo_user_def demo_conn_def
    demo_os_def demo_ds_def)

text \<open>
  A data socket serves one transfer: whatever the executor is given to execute and
  whatever becomes of the connection, it starts at most one child, changes no file, leaves the
  process where it was, and the next transfer command is answered 425 until there is a new PASV
  or PORT.
\<close>

lemma transfer_consumes_data_socket:
  assumes "execute_data_socket_command os c e cmd w = Inr (st, c', w')" "logged_in c"
  shows "data_socket c' = None \<and> fsys w' = fsys w \<and> cwd w' = cwd w \<and>
    length (jobs w') \<le> length (jobs w) + 1 \<and>
    retr_command os cmd2 c' w' = Inr (COMMAND_FAILURE, c', reply c' msg_no_data_socket w') \<and>
    stor_command os cmd2 c' w' = Inr (COMMAND_FAILURE, c', reply c' msg_no_data_socket w') \<and>
    list_command os cmd2 c' w' = Inr (COMMAND_FAILURE, c', reply c' msg_no_data_socket w')"
  using execute_data_socket_contract [OF assms(1)] assms(2)
  by (auto simp: retr_command_def stor_command_def list_command_def)

lemma transfer_consumes_data_socket_witness:
  "\<exists>c' w'. execute_data_socket_command demo_os demo_passive Execute_stor_command
      (demo_command ''STOR'' [''up'']) demo_world = Inr (COMMAND_SUCCESS, c', w') \<and>
    data_socket c' = None \<and> length (jobs w') \<le> length (jobs demo_world) + 1 \<and>
    retr_command demo_os (demo_command ''RETR'' [''up'']) c' w' =
      Inr (COMMAND_FAILURE, c', reply c' msg_no_data_socket w')"
proof -
  from execute_passive [OF demo_passive_ready] obtain w'
    where e: "execute_data_socket_command demo_os demo_passive Execute_stor_command
      (demo_command ''STOR'' [''up'']) demo_world =
      Inr (COMMAND_SUCCESS, demo_passive\<lparr>data_socket := None\<rparr>, w')" by blast
  have "logged_in demo_passive" by (simp add: demo_passive_def demo_user_def)
  from transfer_consumes_data_socket [OF e this] e show ?thesis by blast
qed

text \<open>
  The listening descriptor of a passive data socket is never closed: after the
  transfer the connection has no data socket any more, but the descriptor is still open.
\<close>

lemma passive_listener_stays_open:
  assumes "passive_ready os c w ds fd a pid" "data_sockfd ds \<in> open_fds w" "data_sockfd ds \<noteq> fd"
  shows "\<exists>c' w'. execute_data_socket_command os c e cmd w = Inr (COMMAND_SUCCESS, c', w') \<and>
    data_socket c' = None \<and> data_sockfd ds \<in> open_fds w'"
  using execute_passive [OF assms(1), of e cmd] assms(2,3) by auto

lemma passive_listener_stays_open_witness:
  "\<exists>c' w'. execute_data_socket_command demo_os demo_passive Execute_retr_command
      (demo_command ''RETR'' [''pub/a'']) (demo_world\<lparr>open_fds := {3, 4, 5}\<rparr>) =
      Inr (COMMAND_SUCCESS, c', w') \<and>
    data_socket c' = None \<and> data_sockfd demo_ds \<in> open_fds w'"
  by (rule passive_listener_stays_open [where fd = 7 and pid = 100])
    (use demo_passive_ready in \<open>simp_all add: passive_ready_def demo_ds_def\<close>)

end
