(* ===== verification/Robustness.thy ===== *)
theory Robustness
  imports Confinement
begin

text \<open>
  When a command cannot end in a fault: the directories the handlers ask \<open>getcwd\<close> for exist in a
  file system that is a tree, as long as the directory of the client does.
\<close>

section \<open>Trees\<close>

definition is_dir_at :: "filesys \<Rightarrow> path \<Rightarrow> bool" where
  "is_dir_at fs p = (case lookup fs p of Some (Dir r w x) \<Rightarrow> True | _ \<Rightarrow> False)"

text \<open>Every object is in a directory.\<close>

definition tree_fs :: "filesys \<Rightarrow> bool" where
  "tree_fs fs \<longleftrightarrow> is_dir_at fs [] \<and> list_all (\<lambda>(p, n). is_dir_at fs (butlast p)) fs"

lemma is_dir_atD: "is_dir_at fs p \<Longrightarrow> \<exists>r w x. lookup fs p = Some (Dir r w x)"
  by (auto simp: is_dir_at_def split: option.splits node.splits)

lemma tree_parent: "tree_fs fs \<Longrightarrow> lookup fs p = Some n \<Longrightarrow> is_dir_at fs (butlast p)"
  by (auto simp: tree_fs_def list_all_iff lookup_def dest!: map_of_SomeD)

text \<open>A path name followed from an existing object leads to existing objects.\<close>

lemma walk_Found:
  "walk n fs cur cs = Found p \<Longrightarrow> tree_fs fs \<Longrightarrow> lookup fs cur \<noteq> None \<Longrightarrow> lookup fs p \<noteq> None"
proof (induction n fs cur cs rule: walk.induct)
  case (2 n fs cur c cs)
  obtain x where x: "lookup fs cur = Some x" using "2.prems"(3) by blast
  have s: "searchable fs cur" using "2.prems"(1) by (simp split: if_splits)
  have root: "lookup fs [] \<noteq> None" using "2.prems"(2) by (auto simp: tree_fs_def dest: is_dir_atD)
  consider "c = ''.''" | "c \<noteq> ''.''" "c = ''..''" | "c \<noteq> ''.''" "c \<noteq> ''..''" by blast
  then show ?case
  proof cases
    case 1
    then show ?thesis using 2 s by simp
  next
    case c: 2
    have "lookup fs (butlast cur) \<noteq> None"
      using tree_parent [OF "2.prems"(2) x] by (auto dest: is_dir_atD)
    then show ?thesis using c "2.IH"(2) [OF _ c] "2.prems" s by simp
  next
    case c: 3
    show ?thesis
    proof (cases "lookup fs (cur @ [c])")
      case None
      with c s "2.prems"(1) show ?thesis by (simp split: if_splits)
    next
      case (Some y)
      note next_steps = "2.IH"(3,4,5) [OF _ c Some]
      show ?thesis
      proof (cases y)
        case (Link t)
        with Some c s "2.prems"(1) obtain m where m: "n = Suc m"
          "walk m fs (if absolute t then [] else cur) (components t @ cs) = Found p"
          by (auto split: nat.splits if_splits)
        show ?thesis
          by (rule next_steps(3) [OF _ Link m(1) m(2) "2.prems"(2)]) (use s root x in auto)
      qed (use Some c s "2.prems" next_steps in auto)
    qed
  qed
qed simp

lemma fs_chdir_dir:
  assumes "fs_chdir fs q s = Some p" "tree_fs fs" "is_dir_at fs q"
  shows "is_dir_at fs p"
proof -
  have "lookup fs [] \<noteq> None" "lookup fs q \<noteq> None"
    using assms(2,3) by (auto simp: tree_fs_def dest: is_dir_atD)
  then have "lookup fs p \<noteq> None"
    using assms(1,2)
    by (auto simp: fs_chdir_def resolve_def split: walked.splits if_splits dest: walk_Found)
  moreover have "searchable fs p" using assms(1)
    by (auto simp: fs_chdir_def split: walked.splits if_splits)
  ultimately show ?thesis by (auto simp: searchable_def is_dir_at_def split: node.splits)
qed

text \<open>A client whose directory exists, in a file system that is a tree.\<close>

definition settled :: "connection_t \<Rightarrow> world \<Rightarrow> bool" where
  "settled c w \<longleftrightarrow>
     tree_fs (fsys w) \<and> wf_sockets c \<and> map_option (canonical_dir w) (working_directory c) = Some True"

lemma dir_path_is_dir_at: "dir_path fs p \<Longrightarrow> is_dir_at fs p"
  using dir_path_take [of fs p "length p"] by (auto simp: is_dir_at_def)

lemma settled_target:
  assumes "settled c w"
  shows "\<exists>d. getcwd (cwd_target c s w) = Some d"
proof -
  from assms obtain q where q: "working_directory c = Some (string_of_path q)" "dir_path (fsys w) q"
    by (auto simp: settled_def canonical_dir_def)
  have w1: "snd (chdir_ptr (working_directory c) w) = w\<lparr>cwd := q\<rparr>"
    using chdir_canonical [OF q(2)] by (simp add: q(1) chdir_def)
  have "is_dir_at (fsys w) (cwd (cwd_target c s w))"
    using assms dir_path_is_dir_at [OF q(2)]
    by (auto simp: settled_def cwd_target_def w1 chdir_def split: option.splits intro: fs_chdir_dir)
  from is_dir_atD [OF this] show ?thesis by (auto simp: getcwd_def fs_getcwd_def)
qed

section \<open>Handlers that come to an end\<close>

definition args_match :: "command_t \<Rightarrow> bool" where
  "args_match cmd \<longleftrightarrow> argc cmd = int (length (argv cmd))"

lemma args_match_None: "args_match cmd \<Longrightarrow> argv0 cmd = None \<Longrightarrow> argc cmd = 0"
  by (cases "argv cmd") (auto simp: args_match_def argv0_def)

text \<open>A transfer command may wait for a client that does not connect.\<close>

definition transfer_names :: "string list" where
  "transfer_names = [''RETR'', ''STOR'', ''LIST'']"

definition waits_for_client :: "os \<Rightarrow> connection_t \<Rightarrow> outcome \<Rightarrow> bool" where
  "waits_for_client os c r \<longleftrightarrow> r = Inl Blocked \<and> logged_in c \<and> (\<exists>w'. nobody_connects os c w')"

definition fault_free :: "os \<Rightarrow> string \<Rightarrow> handler \<Rightarrow> bool" where
  "fault_free os n h \<longleftrightarrow> (\<forall>cmd c w. args_match cmd \<longrightarrow> settled c w \<longrightarrow>
     (\<forall>w'. os_malloc os w' Alloc_ports) \<longrightarrow>
     \<not> isl (h cmd c w) \<or> n \<in> set transfer_names \<and> waits_for_client os c (h cmd c w))"

lemma fault_freeI:
  assumes "\<And>cmd c w. args_match cmd \<Longrightarrow> settled c w \<Longrightarrow> (\<And>w'. os_malloc os w' Alloc_ports) \<Longrightarrow>
    \<not> isl (h cmd c w)"
  shows "fault_free os n h"
  using assms by (auto simp: fault_free_def)

lemma transfer_fault_freeI:
  assumes "n \<in> set transfer_names"
    and "\<And>cmd c w. args_match cmd \<Longrightarrow> settled c w \<Longrightarrow> isl (h cmd c w) \<Longrightarrow>
      waits_for_client os c (h cmd c w)"
  shows "fault_free os n h"
  using assms by (auto simp: fault_free_def)

lemma session_fault_free:
  "fault_free os n user_command" "fault_free os n pass_command" "fault_free os n quit_command"
  "fault_free os n noop_command" "fault_free os n help_command" "fault_free os n pwd_command"
  by (auto intro!: fault_freeI simp: user_command_def pass_command_cases quit_command_def
      noop_command_def help_command_def pwd_command_def Let_def split: if_splits option.splits)

lemma type_fault_free: "fault_free os n type_command"
  by (rule fault_freeI)
    (auto simp: type_command_def change_type_def Let_def split: if_splits option.splits
      dest: args_match_None)

lemma dele_fault_free: "fault_free os n dele_command"
  by (rule fault_freeI)
    (auto simp: dele_command_def delete_file_cases Let_def split: if_splits option.splits
      dest: args_match_None)

lemma change_dir_fault_free: "settled c w \<Longrightarrow> \<not> isl (change_dir c s w)"
  using settled_target [of c w s] by (auto simp: change_dir_cases Let_def)

lemma cwd_fault_free: "fault_free os n cwd_command" "fault_free os n cdup_command"
  by (auto intro!: fault_freeI simp: change_dir_fault_free cwd_command_def cdup_command_def
      split: if_splits option.splits dest: args_match_None)

lemma pasv_fault_free: "fault_free os n (pasv_command os)"
proof (rule fault_freeI)
  fix cmd :: command_t and c w
  assume m: "\<And>w'. os_malloc os w' Alloc_ports"
  show "\<not> isl (pasv_command os cmd c w)"
  proof (cases "fst (setup_passive_data_socket os w)")
    case None
    then show ?thesis
      by (auto simp: pasv_command_def create_passive_data_socket_def case_prod_beta Let_def)
  next
    case (Some ds)
    then have "setup_passive_data_socket os w = (Some ds, snd (setup_passive_data_socket os w))"
      by (metis prod.collapse)
    from setup_passive_Some [OF this] show ?thesis
      using m Some
      by (auto simp: pasv_command_def create_passive_data_socket_def split_port_def case_prod_beta
          Let_def)
  qed
qed

lemma port_fault_free: "fault_free os n (port_command os)"
  by (rule fault_freeI)
    (auto simp: port_command_def create_active_data_socket_def case_prod_beta Let_def
      split: if_splits option.splits dest: args_match_None)

lemma execute_fault_free:
  assumes "settled c w" "logged_in c" "execute_data_socket_command os c e cmd w' = Inl f"
    "data_socket c \<noteq> None"
  shows "waits_for_client os c (Inl f)"
proof -
  obtain ds where ds: "data_socket c = Some ds" "wf_data_socket ds"
    using assms(1,4) by (auto simp: settled_def wf_sockets_def)
  show ?thesis
    using execute_data_socket_ok [OF ds, of os w' e cmd] assms(2,3)
    by (auto simp: waits_for_client_def split: if_splits)
qed

lemma retr_fault_free: "fault_free os ''RETR'' (retr_command os)"
proof (rule transfer_fault_freeI)
  fix cmd c w
  assume a: "args_match cmd" and s: "settled c w" and i: "isl (retr_command os cmd c w)"
  then obtain w' where "logged_in c" "data_socket c \<noteq> None"
    "retr_command os cmd c w = execute_data_socket_command os c Execute_retr_command cmd w'"
    by (auto simp: retr_command_def case_prod_beta Let_def split: if_splits option.splits
        dest: args_match_None)
  with i show "waits_for_client os c (retr_command os cmd c w)"
    using execute_fault_free [OF s] by (auto simp: isl_def)
qed (simp add: transfer_names_def)

lemma stor_fault_free: "fault_free os ''STOR'' (stor_command os)"
proof (rule transfer_fault_freeI)
  fix cmd c w
  assume a: "args_match cmd" and s: "settled c w" and i: "isl (stor_command os cmd c w)"
  then have "logged_in c" "data_socket c \<noteq> None"
    "stor_command os cmd c w = execute_data_socket_command os c Execute_stor_command cmd w"
    by (auto simp: stor_command_def split: if_splits)
  with i show "waits_for_client os c (stor_command os cmd c w)"
    using execute_fault_free [OF s] by (auto simp: isl_def)
qed (simp add: transfer_names_def)

lemma list_check_ok: "args_match cmd \<Longrightarrow> settled c w \<Longrightarrow> \<not> isl (list_check c cmd w)"
  using settled_target [of c w "the (argv0 cmd)"]
  by (auto simp: list_check_def list_check_exists_def check_directory_access_def cwd_target_def
      case_prod_beta Let_def split: if_splits option.splits sum.splits dest: args_match_None)

lemma list_fault_free: "fault_free os ''LIST'' (list_command os)"
proof (rule transfer_fault_freeI)
  fix cmd c w
  assume a: "args_match cmd" and s: "settled c w" and i: "isl (list_command os cmd c w)"
  obtain failed w1 where "list_check c cmd w = Inr (failed, w1)"
    using list_check_ok [OF a s] by (cases "list_check c cmd w") auto
  with i have "logged_in c" "data_socket c \<noteq> None"
    "list_command os cmd c w = execute_data_socket_command os c Execute_ls_command cmd w1"
    by (auto simp: list_command_def split: if_splits)
  with i show "waits_for_client os c (list_command os cmd c w)"
    using execute_fault_free [OF s] by (auto simp: isl_def)
qed (simp add: transfer_names_def)

lemma command_handlers_fault_free: "list_all (\<lambda>(n, h). fault_free os n h) (command_handlers os)"
  by (simp add: command_handlers_def session_fault_free type_fault_free dele_fault_free
      cwd_fault_free pasv_fault_free port_fault_free retr_fault_free stor_fault_free list_fault_free)

section \<open>Properties\<close>

text \<open>
  Property C24.  What a command can do instead of returning, while the client's directory exists, in
  a file system that is a tree, and with memory for the two octets of PASV: nothing for twelve of the
  fifteen commands and for any other name; RETR, STOR and LIST of a client that is logged in can wait
  for ever in the server process, for a connection to a passive data socket that nobody makes.  None of
  them runs into undefined behaviour.  (Calls that write are taken to return.)
\<close>

theorem dispatch_no_fault:
  assumes "args_match cmd" "settled c w" "\<And>w'. os_malloc os w' Alloc_ports"
    and "execute_command os (Some cmd) c w = Inl e"
  shows "e = Blocked \<and> logged_in c \<and> (\<exists>w'. nobody_connects os c w') \<and>
    (\<exists>n \<in> {''RETR'', ''STOR'', ''LIST''}. strcmp n (touppercase (name cmd)) = 0)"
proof (cases "find_handler (command_handlers os) (touppercase (name cmd))")
  case None
  then show ?thesis using assms(4) by (simp add: execute_command_def get_command_handler_def)
next
  case (Some h)
  then obtain n where n: "(n, h) \<in> set (command_handlers os)" "strcmp n (touppercase (name cmd)) = 0"
    by (blast dest: find_handler_mem)
  then have f: "fault_free os n h" using command_handlers_fault_free [of os] by (auto simp: list_all_iff)
  have m: "args_match (cmd\<lparr>name := touppercase (name cmd)\<rparr>)"
    using assms(1) by (simp add: args_match_def)
  have e: "h (cmd\<lparr>name := touppercase (name cmd)\<rparr>) c w = Inl e"
    using assms(4) Some by (simp add: execute_command_def get_command_handler_def)
  have "n \<in> set transfer_names \<and> waits_for_client os c (Inl e)"
    using f m assms(2,3) e unfolding fault_free_def by (metis sum.disc(1))
  with n(2) show ?thesis by (auto simp: waits_for_client_def transfer_names_def)
qed

text \<open>A client that asks for a listing and does not connect.\<close>

definition lonely_os :: os where
  "lonely_os = demo_os\<lparr>os_peer := (\<lambda>w fd. False)\<rparr>"

lemma demo_settled: "settled demo_passive demo_world"
proof -
  have "tree_fs (fsys demo_world)" by code_simp
  then show ?thesis
    using demo_canonical
    by (simp add: settled_def wf_sockets_def wf_data_socket_def demo_passive_def demo_ds_def
        demo_user_def demo_conn_def)
qed

lemma lonely_list: "execute_command lonely_os (Some (demo_command ''list'' [])) demo_passive demo_world =
    Inl Blocked"
proof -
  let ?r = "execute_command lonely_os (Some (demo_command ''list'' [])) demo_passive demo_world"
  have "isl ?r" by code_simp
  moreover have "projl ?r = Blocked" by code_simp
  ultimately show ?thesis by (metis sum.collapse(1))
qed

theorem dispatch_no_fault_witness:
  "execute_command lonely_os (Some (demo_command ''list'' [])) demo_passive demo_world = Inl Blocked \<and>
   (\<exists>w'. nobody_connects lonely_os demo_passive w')"
proof -
  have "args_match (demo_command ''list'' [])" by (simp add: args_match_def demo_command_def)
  moreover have "os_malloc lonely_os w' Alloc_ports" for w' by (simp add: lonely_os_def demo_os_def)
  ultimately show ?thesis using dispatch_no_fault [OF _ demo_settled _ lonely_list] lonely_list by blast
qed

end
