(* ===== verification/Control_Input.thy ===== *)
theory Control_Input
  imports Robustness
begin

text \<open>
  The control connection: how the bytes a client sends become lines, whatever packets they come
  in, how a line becomes a command that is executed, and what happens at the ends of a
  connection (QUIT, the peer closing its side, a line that is not finished).
\<close>

section \<open>Lines and packets\<close>

text \<open>The bytes received on a connection and not handled yet.\<close>

definition pending :: "connection_t \<Rightarrow> world \<Rightarrow> string" where
  "pending c w =
     (case stream c of None \<Rightarrow> [] | Some s \<Rightarrow> read_ahead s @ concat (net_in w (fileno s)))"

definition received :: "connection_t \<Rightarrow> world \<Rightarrow> stream_t \<Rightarrow> string \<Rightarrow> string list \<Rightarrow> connection_t \<times> world"
where
  "received c w s rest chunks =
     (c\<lparr>stream := Some (s\<lparr>read_ahead := rest\<rparr>)\<rparr>,
      w\<lparr>net_in := (net_in w)(fileno s := chunks)\<rparr>)"

lemma read_socket_eq:
  assumes "stream c = Some s"
  shows "\<exists>rest chunks. read_socket c w =
      Inr (case line_of (pending c w) (net_eof w (fileno s)) of
             Line l \<Rightarrow> Line (chomp l) | r \<Rightarrow> r, received c w s rest chunks) \<and>
    rest @ concat chunks = rest_of (pending c w) (net_eof w (fileno s))"
proof -
  obtain rest cs where "stream_getline (read_ahead s) (net_in w (fileno s)) (net_eof w (fileno s)) =
      (line_of (read_ahead s @ concat (net_in w (fileno s))) (net_eof w (fileno s)), rest, cs)"
    and "rest @ concat cs =
      rest_of (read_ahead s @ concat (net_in w (fileno s))) (net_eof w (fileno s))"
    using stream_getline_eq by blast
  then show ?thesis
    using assms
    by (auto simp: read_socket_def pending_def received_def Let_def split: line_input.splits)
qed

lemma line_of_command:
  assumes "s = l @ LF # later" "LF \<notin> set l"
  shows "line_of s eof = Line (l @ [LF])" "rest_of s eof = later"
proof -
  have "takeWhile (\<lambda>c. c \<noteq> LF) s = l" "dropWhile (\<lambda>c. c \<noteq> LF) s = LF # later"
    using assms(2) unfolding assms(1) by (induction l) auto
  then show "line_of s eof = Line (l @ [LF])" "rest_of s eof = later"
    using assms(1) by (simp_all add: line_of_def rest_of_def)
qed

lemma chomp_line: "NUL \<notin> set l \<Longrightarrow> chomp (l @ [LF]) = l"
  by (simp add: chomp_def c_str_id)

lemma join_set: "c \<in> set (join d ts) \<Longrightarrow> c = d \<or> (\<exists>t\<in>set ts. c \<in> set t)"
  by (induction d ts rule: join.induct) auto

text \<open>A command as a client writes it: no blanks and no NULs in its name and arguments.\<close>

definition writable_command :: "command_t \<Rightarrow> bool" where
  "writable_command cmd \<longleftrightarrow>
     wf_command cmd \<and> list_all (list_all (\<lambda>c. \<not> isspace c \<and> c \<noteq> NUL)) (name cmd # argv cmd)"

definition command_line :: "command_t \<Rightarrow> string" where
  "command_line cmd = join SP (name cmd # argv cmd) @ [CR]"

lemma print_command_line: "print_command cmd = command_line cmd @ [LF]"
  by (simp add: print_command_def command_line_def)

text \<open>Blanks after the last argument make no difference.\<close>

lemma blank_line_chars:
  assumes "writable_command cmd" "list_all isspace b" "LF \<notin> set b"
  shows "LF \<notin> set (join SP (name cmd # argv cmd) @ b)" "NUL \<notin> set (join SP (name cmd # argv cmd) @ b)"
proof -
  have "c \<noteq> LF \<and> c \<noteq> NUL" if "c \<in> set (join SP (name cmd # argv cmd))" for c
    using join_set [OF that] assms(1)
    by (auto simp: writable_command_def list_all_iff isspace_def)
  then have "LF \<notin> set (join SP (name cmd # argv cmd))" "NUL \<notin> set (join SP (name cmd # argv cmd))"
    by blast+
  moreover have "\<not> isspace NUL" by (simp add: isspace_def)
  then have "NUL \<notin> set b" using assms(2) by (auto simp: list_all_iff)
  ultimately show "LF \<notin> set (join SP (name cmd # argv cmd) @ b)"
    "NUL \<notin> set (join SP (name cmd # argv cmd) @ b)"
    using assms(3) unfolding set_append by blast+
qed

lemma command_line_chars:
  "writable_command cmd \<Longrightarrow> LF \<notin> set (command_line cmd)"
  by (simp only: command_line_def) (rule blank_line_chars(1), simp_all add: isspace_def)

lemma parse_blank_line:
  assumes "writable_command cmd" "list_all isspace b" "alloc Alloc_command" "alloc Alloc_tokens"
  shows "parse_buffer alloc (join SP (name cmd # argv cmd) @ b) = Inr (Some cmd)"
  using assms by (intro parse_line) (auto simp: writable_command_def list_all_iff isspace_def)

lemma handle_line:
  assumes "stream c = Some s" "client_addr c = Some a" "writable_command cmd"
    and "list_all isspace b" "LF \<notin> set b"
    and line: "l = join SP (name cmd # argv cmd) @ b" and "pending c w = l @ LF # later"
    and "\<And>w' site. os_malloc os w' site"
  shows "\<exists>rest chunks c1 w1. (c1, w1) = received c w s rest chunks \<and> rest @ concat chunks = later \<and>
    read_socket c w = Inr (Line l, c1, w1) \<and>
    handle_client_command os c w =
      in_turn (execute_command os (Some cmd) c1 (printf (log_command a l) w1))"
proof -
  note chars = blank_line_chars [OF assms(3-5), folded line]
  from read_socket_eq [OF assms(1), of w] obtain rest chunks
    where r: "read_socket c w = Inr (Line l, received c w s rest chunks)"
    and rest: "rest @ concat chunks = later"
    by (auto simp: line_of_command [OF assms(7) chars(1)] chomp_line chars(2))
  obtain c1 w1 where c1: "received c w s rest chunks = (c1, w1)" by (cases "received c w s rest chunks")
  then have "client_addr c1 = Some a" using assms(2) by (auto simp: received_def)
  moreover have "parse_buffer (os_malloc os w') l = Inr (Some cmd)" for w'
    unfolding line using assms(3,4,8) by (intro parse_blank_line)
  ultimately have "handle_client_command os c w =
      in_turn (execute_command os (Some cmd) c1 (printf (log_command a l) w1))"
    using r c1 by (simp add: handle_client_command_def)
  then show ?thesis using r rest c1 by (intro exI conjI) simp_all
qed

lemma handle_written_command:
  assumes "stream c = Some s" "client_addr c = Some a" "writable_command cmd"
    and "pending c w = print_command cmd @ later" "\<And>w' site. os_malloc os w' site"
  shows "\<exists>rest chunks c1 w1. (c1, w1) = received c w s rest chunks \<and> rest @ concat chunks = later \<and>
    read_socket c w = Inr (Line (command_line cmd), c1, w1) \<and>
    handle_client_command os c w =
      in_turn
        (execute_command os (Some cmd) c1 (printf (log_command a (command_line cmd)) w1))"
  using assms by (intro handle_line [where b = "[CR]"])
    (simp_all add: command_line_def print_command_line isspace_def)

lemma received_stays: "received c w s [] [] = (c, w)"
  if "stream c = Some s" "read_ahead s = []" "net_in w (fileno s) = []"
  using that by (simp add: received_def fun_upd_idem)

lemma closed_peer:
  assumes "stream c = Some s" "read_ahead s = []" "net_in w (fileno s) = []" "net_eof w (fileno s)"
  shows "handle_connection os fd c w = Inr (Some (fd, c, w))"
proof -
  have "stream_getline [] [] True = (At_eof, [], [])" by (simp add: stream_getline.simps)
  then have "read_socket c w = Inr (At_eof, received c w s [] [])"
    using assms by (simp add: read_socket_def received_def Let_def)
  then show ?thesis
    using received_stays [OF assms(1-3)] by (simp add: handle_connection_def handle_client_command_def)
qed

lemma unfinished_line:
  assumes "stream c = Some s" "LF \<notin> set (pending c w)" "\<not> net_eof w (fileno s)"
  shows "handle_connection os fd c w = Inr None"
proof -
  have "line_of (pending c w) (net_eof w (fileno s)) = Would_block"
    using assms(2,3) by (simp add: line_of_def)
  with read_socket_eq [OF assms(1), of w] show ?thesis
    by (auto simp: handle_connection_def handle_client_command_def split: prod.splits)
qed

section \<open>Properties\<close>

text \<open>
  Reading a line does not depend on how the bytes were cut into packets: the line
  returned and the bytes left for the next call are functions of the bytes received so far, so
  that no byte is lost or read twice.
\<close>

lemma line_independent_of_packets:
  "\<exists>rest chunks'. stream_getline buf chunks eof =
      (line_of (buf @ concat chunks) eof, rest, chunks') \<and>
    rest @ concat chunks' = rest_of (buf @ concat chunks) eof"
  by (rule stream_getline_eq)

text \<open>
  Property C9.  From the wire to the handler: the bytes of a command followed by CR LF, however
  they arrive, make the server execute exactly that command, with the bytes after them kept for
  the next time.
\<close>

theorem written_command_is_executed:
  assumes "stream c = Some s" "client_addr c = Some a" "writable_command cmd"
    and "pending c w = print_command cmd @ later" "\<And>w' site. os_malloc os w' site"
  shows "\<exists>rest chunks c1 w1. (c1, w1) = received c w s rest chunks \<and> rest @ concat chunks = later \<and>
    handle_client_command os c w =
      in_turn
        (execute_command os (Some cmd) c1 (printf (log_command a (command_line cmd)) w1))"
  using handle_written_command [OF assms] by blast

theorem written_command_is_executed_witness:
  "\<exists>rest chunks c1 w1. (c1, w1) = received demo_conn
       (demo_world\<lparr>net_in := (\<lambda>_. [''USER anon'', ''ymous'' @ crlf @ ''PA''])\<rparr>)
       \<lparr>fileno = 4, read_ahead = []\<rparr> rest chunks \<and> rest @ concat chunks = ''PA'' \<and>
    handle_client_command demo_os demo_conn
       (demo_world\<lparr>net_in := (\<lambda>_. [''USER anon'', ''ymous'' @ crlf @ ''PA''])\<rparr>) =
      in_turn
        (execute_command demo_os (Some (demo_command ''USER'' [''anonymous''])) c1
          (printf (log_command \<lparr>sin_addr = INADDR_LOOPBACK, sin_port = 50000\<rparr>
            (command_line (demo_command ''USER'' [''anonymous'']))) w1))"
  by (rule written_command_is_executed)
    (simp_all add: demo_conn_def demo_os_def demo_command_def writable_command_def wf_command_def
      isspace_def pending_def print_command_def)

text \<open>
  A client that sends two commands in one packet is answered once: the second
  command is in the stream's buffer when the first has been handled, and nothing is left on the
  socket, which is all that \<open>poll\<close> looks at.
\<close>

lemma pipelined_command_waits:
  assumes "stream c = Some s" "client_addr c = Some a" "writable_command cmd1"
    and "read_ahead s = []" "net_in w (fileno s) = [print_command cmd1 @ print_command cmd2]"
    and "\<And>w' site. os_malloc os w' site"
    and "handle_client_command os c w = Inr (Some (st, c', w'))"
  shows "net_in w' (fileno s) = [] \<and> stream c' = Some (s\<lparr>read_ahead := print_command cmd2\<rparr>)"
proof -
  have one: "stream_getline [] [print_command cmd1 @ print_command cmd2] e =
      (Line (command_line cmd1 @ [LF]), print_command cmd2, [])" for e
  proof -
    let ?b = "command_line cmd1 @ LF # print_command cmd2"
    have "takeWhile (\<lambda>c. c \<noteq> LF) ?b = command_line cmd1"
      "tl (dropWhile (\<lambda>c. c \<noteq> LF) ?b) = print_command cmd2"
      using line_of_command [of ?b "command_line cmd1" "print_command cmd2" e]
        command_line_chars [OF assms(3)] by (simp_all add: line_of_def rest_of_def)
    then have "stream_getline ?b [] e = (Line (command_line cmd1 @ [LF]), print_command cmd2, [])"
      by (subst stream_getline.simps) simp
    then show ?thesis by (subst stream_getline.simps) (simp add: print_command_line)
  qed
  have "pending c w = print_command cmd1 @ print_command cmd2"
    using assms(1,4,5) by (simp add: pending_def)
  from handle_written_command [OF assms(1-3) this assms(6)] obtain rest chunks c1 w1
    where r: "(c1, w1) = received c w s rest chunks" "read_socket c w = Inr (Line (command_line cmd1), c1, w1)"
    and h: "handle_client_command os c w =
      in_turn (execute_command os (Some cmd1) c1 (printf (log_command a (command_line cmd1)) w1))"
    by blast
  have "stream c1 = Some (s\<lparr>read_ahead := print_command cmd2\<rparr>)" "net_in w1 (fileno s) = []"
    using r(2) assms(1) one by (auto simp: read_socket_def Let_def assms(4,5))
  moreover from h assms(7) have e: "execute_command os (Some cmd1) c1
      (printf (log_command a (command_line cmd1)) w1) = Inr (st, c', w')"
    by (auto simp: map_sum_def split: sum.splits)
  from execute_command_contract [OF e] have "stream c' = stream c1" "net_in w' = net_in w1"
    by (simp_all add: same_peer_def)
  ultimately show ?thesis by simp
qed

lemma pipelined_command_waits_witness:
  "\<exists>st c' w'. handle_client_command demo_os demo_conn
       (demo_world\<lparr>net_in := (\<lambda>_. [print_command (demo_command ''QUIT'' []) @
         print_command (demo_command ''NOOP'' [])])\<rparr>) = Inr (Some (st, c', w')) \<and>
     net_in w' 4 = [] \<and>
     stream c' = Some \<lparr>fileno = 4, read_ahead = print_command (demo_command ''NOOP'' [])\<rparr>"
proof -
  let ?s = "\<lparr>fileno = 4, read_ahead = []\<rparr>" and ?q = "demo_command ''QUIT'' []"
  let ?w = "demo_world\<lparr>net_in := (\<lambda>_. [print_command ?q @ print_command (demo_command ''NOOP'' [])])\<rparr>"
  have c: "stream demo_conn = Some ?s"
    "client_addr demo_conn = Some \<lparr>sin_addr = INADDR_LOOPBACK, sin_port = 50000\<rparr>"
    by (simp_all add: demo_conn_def)
  have q: "writable_command ?q"
    by (simp add: writable_command_def wf_command_def demo_command_def isspace_def)
  have m: "os_malloc demo_os w' site" for w' site by (simp add: demo_os_def)
  have "pending demo_conn ?w = print_command ?q @ print_command (demo_command ''NOOP'' [])"
    by (simp add: pending_def demo_conn_def)
  from handle_written_command [OF c q this m] obtain c1 w1
    where "handle_client_command demo_os demo_conn ?w =
      in_turn (execute_command demo_os (Some ?q) c1 w1)" by blast
  moreover have "touppercase (name ?q) = ''QUIT''" "nul_free ?q" by code_simp+
  then have "execute_command demo_os (Some ?q) c1 w1 = Inr (COMMAND_QUIT, c1, w1)"
    by (simp add: execute_by_name map_of_session_commands quit_command_def)
  ultimately have h: "handle_client_command demo_os demo_conn ?w = Inr (Some (COMMAND_QUIT, c1, w1))"
    by simp
  from pipelined_command_waits [OF c q _ _ m h] h show ?thesis by auto
qed

text \<open>
  A client that closes its side without QUIT is not noticed: handling the event
  changes nothing at all, neither the slot's descriptor nor the connection nor the state, so the
  next \<open>poll\<close> reports the same event and the slot stays taken.
\<close>

lemma closed_peer_keeps_slot:
  assumes "stream c = Some s" "read_ahead s = []" "net_in w (fileno s) = []" "net_eof w (fileno s)"
  shows "handle_connection os fd c w = Inr (Some (fd, c, w))"
  using assms by (rule closed_peer)

lemma closed_peer_keeps_slot_witness:
  "handle_connection demo_os 4 demo_conn (demo_world\<lparr>net_eof := (\<lambda>_. True)\<rparr>) =
     Inr (Some (4, demo_conn, demo_world\<lparr>net_eof := (\<lambda>_. True)\<rparr>))"
  by (rule closed_peer_keeps_slot [where s = "\<lparr>fileno = 4, read_ahead = []\<rparr>"])
    (simp_all add: demo_conn_def demo_world_def)

text \<open>
  QUIT: the client is told goodbye on its own connection, the stream is closed, and
  the slot becomes free; no file changes.
\<close>

lemma quit_frees_slot:
  assumes "handle_client_command os c w = Inr (Some (COMMAND_QUIT, c1, w1))"
    and "wf_sockets c1" "client_addr c1 \<noteq> None" "stream c1 = Some s" "fileno s = fd"
  shows "\<exists>w'. handle_connection os fd c w = Inr (Some (-1, c1, w')) \<and> fd \<notin> open_fds w' \<and>
    fsys w' = fsys w1 \<and>
    bytes_sent (self_pid w1) fd (trace w') = bytes_sent (self_pid w1) fd (trace w1) @ msg_closing"
proof -
  let ?w = "dprintf fd msg_closing w1"
  from destroy_connection_ok [OF assms(2), of True ?w] assms(3,4) obtain w2
    where d: "destroy_connection c1 True ?w = Inr w2" by auto
  have q: "quiet ?w w2" by (rule destroy_connection_quiet [OF d])
  have "bytes_sent (self_pid w1) fd (trace w2) = bytes_sent (self_pid w1) fd (trace w1) @ msg_closing"
    using quiet_bytes_sent [OF q] by simp
  then show ?thesis
    using assms(1) d quietD [OF q] by (simp add: handle_connection_def Let_def)
qed

lemma quit_frees_slot_witness:
  "\<exists>(w1 :: world) w'. handle_connection demo_os 4 demo_conn
       (demo_world\<lparr>net_in := (\<lambda>_. [print_command (demo_command ''QUIT'' [])])\<rparr>) =
      Inr (Some (-1, demo_conn, w')) \<and> 4 \<notin> open_fds w' \<and> fsys w' = fsys w1 \<and>
    bytes_sent (self_pid w1) 4 (trace w') = bytes_sent (self_pid w1) 4 (trace w1) @ msg_closing"
proof -
  let ?q = "demo_command ''QUIT'' []" and ?a = "\<lparr>sin_addr = INADDR_LOOPBACK, sin_port = 50000\<rparr>"
  let ?w = "demo_world\<lparr>net_in := (\<lambda>_. [print_command ?q])\<rparr>"
  have "LF \<in> set (print_command ?q)" by (simp add: print_command_line)
  have "touppercase (name ?q) = ''QUIT''" "nul_free ?q" by code_simp+
  then have x: "execute_command demo_os (Some ?q) c w = Inr (COMMAND_QUIT, c, w)" for c w
    by (simp add: execute_by_name map_of_session_commands quit_command_def)
  have "writable_command ?q"
    by (simp add: writable_command_def wf_command_def demo_command_def isspace_def)
  from handle_written_command [OF _ _ this, of demo_conn "\<lparr>fileno = 4, read_ahead = []\<rparr>" ?a ?w "[]"
      demo_os] x
  obtain w1 where h: "handle_client_command demo_os demo_conn ?w =
      Inr (Some (COMMAND_QUIT, demo_conn, w1))"
    by (auto simp: pending_def demo_conn_def demo_os_def received_def)
  have "\<exists>w'. handle_connection demo_os 4 demo_conn ?w = Inr (Some (-1, demo_conn, w')) \<and>
      4 \<notin> open_fds w' \<and> fsys w' = fsys w1 \<and>
      bytes_sent (self_pid w1) 4 (trace w') = bytes_sent (self_pid w1) 4 (trace w1) @ msg_closing"
    by (rule quit_frees_slot [OF h, where s = "\<lparr>fileno = 4, read_ahead = []\<rparr>"]) (simp_all add: demo_conn_def wf_sockets_def)
  then show ?thesis by blast
qed

end
