(* ===== verification/Server_Loop.thy ===== *)
theory Server_Loop
  imports Server Transfers Control_Input Robustness
begin

text \<open>
  The poll loop as a transition system.  A step is a turn of the loop, a packet or the end of
  input on a control connection, a child that runs to its end or dies, or a signal, in any order.
  The invariant of the slots and of the root directory holds in every reachable state; the other
  lemmas say what a turn does to the slots, one by one.
\<close>

section \<open>The invariant\<close>

text \<open>A live slot holds a connection of this server on the slot's descriptor.\<close>

definition slot_ok :: "server_t \<Rightarrow> int \<Rightarrow> connection_t option \<Rightarrow> bool" where
  "slot_ok sv fd co \<longleftrightarrow>
     fd < 0 \<or>
     (\<exists>c. co = Some c \<and> server c = sv \<and> client_sockfd c = fd \<and> client_addr c \<noteq> None \<and>
        map_option fileno (stream c) = Some fd \<and> conn_inv c)"

definition server_inv :: "path \<Rightarrow> server_state \<Rightarrow> bool" where
  "server_inv p st \<longleftrightarrow>
     length (pollfds st) = MAX_CLIENTS + 1 \<and> length (conns st) = MAX_CLIENTS + 1 \<and>
     srv_path (srv st) = string_of_path p \<and> root_safe (fsys (sys st)) p \<and>
     (\<forall>i. 1 \<le> i \<and> i < MAX_CLIENTS + 1 \<longrightarrow> slot_ok (srv st) (pollfds st ! i) (conns st ! i))"

text \<open>The two allocations of \<open>init_connection\<close> succeed; it goes on when they fail.\<close>

definition reliable_os :: "os \<Rightarrow> bool" where
  "reliable_os os \<longleftrightarrow> (\<forall>w fd. os_fdopen os w fd) \<and> (\<forall>w. os_malloc os w Alloc_client_addr)"

lemma slot_ok_update:
  assumes "server_inv p st" "slot_ok (srv st) fd (Some c)" "root_safe (fsys w) p"
  shows "server_inv p (st\<lparr>pollfds := (pollfds st)[i := fd], conns := (conns st)[i := Some c], sys := w\<rparr>)"
proof -
  have "slot_ok (srv st) ((pollfds st)[i := fd] ! j) ((conns st)[i := Some c] ! j)"
    if "1 \<le> j" "j < MAX_CLIENTS + 1" for j
    using assms that by (cases "j = i") (auto simp: server_inv_def)
  with assms show ?thesis by (simp add: server_inv_def)
qed

lemma server_inv_sys: "server_inv p st \<Longrightarrow> root_safe (fsys w) p \<Longrightarrow> server_inv p (st\<lparr>sys := w\<rparr>)"
  by (simp add: server_inv_def)

section \<open>One connection\<close>

lemma read_socket_keeps:
  assumes "read_socket c w = Inr (l, c1, w1)"
  shows "server c1 = server c \<and> client_sockfd c1 = client_sockfd c \<and>
    client_addr c1 = client_addr c \<and>
    map_option fileno (stream c1) = map_option fileno (stream c) \<and> conn_inv c1 = conn_inv c \<and>
    fsys w1 = fsys w \<and> cwd w1 = cwd w \<and> trace w1 = trace w \<and> self_pid w1 = self_pid w \<and>
    jobs w1 = jobs w \<and> open_fds w1 = open_fds w"
  using assms
  by (auto simp: read_socket_def Let_def conn_inv_def wf_sockets_def wd_inside_def
      split: option.splits prod.splits line_input.splits)

text \<open>What the handling of one line keeps, whatever the line is.\<close>

lemma handle_client_command_keeps:
  assumes h: "handle_client_command os c w = Inr (Some (r, c', w'))"
    and inv: "conn_inv c" and root: "root_safe (fsys w) p" "srv_path (server c) = string_of_path p"
  shows "server c' = server c \<and> client_sockfd c' = client_sockfd c \<and>
    client_addr c' = client_addr c \<and>
    map_option fileno (stream c') = map_option fileno (stream c) \<and> conn_inv c' \<and>
    root_safe (fsys w') p \<and> replies_to (client_sockfd c) w w'"
proof -
  from h obtain l c1 w1 where rs: "read_socket c w = Inr (l, c1, w1)"
    by (auto simp: handle_client_command_def split: sum.splits)
  note k = read_socket_keeps [OF rs]
  have w1: "replies_to (client_sockfd c) w w1" using k by (intro replies_to_quiet) auto
  show ?thesis
  proof (cases "l = At_eof")
    case True
    with h rs have "c' = c1 \<and> w' = w1" by (simp add: handle_client_command_def)
    with k w1 inv root show ?thesis by simp
  next
    case False
    with h rs obtain b a cmd where l: "l = Line b" "client_addr c1 = Some a"
      and e: "execute_command os cmd c1 (printf (log_command a b) w1) = Inr (r, c', w')"
      by (auto simp: handle_client_command_def map_sum_def Let_def
          split: line_input.splits option.splits sum.splits)
    have w2: "root_safe (fsys (printf (log_command a b) w1)) p" using k root by simp
    have "canonical_dir (printf (log_command a b) w1) (srv_path (server c1))"
      using root_safe_canonical [OF w2] k root(2) by simp
    then have "conn_inv c'" using k inv by (intro execute_command_inv [OF e]) simp_all
    moreover have "replies_to (client_sockfd c) w w'"
      using w1 execute_command_contract [OF e] k
      by (metis replies_to_trans replies_to_printf)
    ultimately show ?thesis
      using k execute_command_contract [OF e] execute_command_root [OF e w2]
      by (simp add: same_peer_def)
  qed
qed

lemma handle_connection_keeps:
  assumes h: "handle_connection os fd c w = Inr (Some (fd', c', w'))"
    and slot: "slot_ok sv fd (Some c)" "0 \<le> fd"
    and root: "root_safe (fsys w) p" "srv_path sv = string_of_path p"
  shows "slot_ok sv fd' (Some c') \<and> root_safe (fsys w') p \<and> (fd' = fd \<or> fd' = -1) \<and>
    replies_to fd w w'"
proof -
  from slot have c: "server c = sv" "client_sockfd c = fd" "client_addr c \<noteq> None"
    "map_option fileno (stream c) = Some fd" "conn_inv c" by (auto simp: slot_ok_def)
  from h obtain r c1 w1 where h1: "handle_client_command os c w = Inr (Some (r, c1, w1))"
    by (auto simp: handle_connection_def split: sum.splits option.splits)
  have k: "server c1 = sv \<and> client_sockfd c1 = fd \<and> client_addr c1 = client_addr c \<and>
      map_option fileno (stream c1) = Some fd \<and> conn_inv c1 \<and> root_safe (fsys w1) p \<and>
      replies_to fd w w1"
    using handle_client_command_keeps [OF h1 c(5) root(1)] root(2) c by simp
  show ?thesis
  proof (cases "r = COMMAND_QUIT")
    case False
    with h h1 have "fd' = fd \<and> c' = c1 \<and> w' = w1" by (simp add: handle_connection_def)
    with k c show ?thesis by (auto simp: slot_ok_def)
  next
    case True
    with h h1 obtain w2 where d: "destroy_connection c1 True (dprintf fd msg_closing w1) = Inr w2"
      and r: "fd' = -1" "w' = close fd w2"
      by (auto simp: handle_connection_def Let_def split: sum.splits)
    have q: "quiet (dprintf fd msg_closing w1) w'"
      using quiet_trans [OF destroy_connection_quiet [OF d] quiet_steps(3)] r(2) by simp
    have "replies_to fd w1 (dprintf fd msg_closing w1)" by (rule replies_to_emit) auto
    then have "replies_to fd w w'"
      using k quiet_replies_to [OF q] by (blast intro: replies_to_trans)
    then show ?thesis using k quietD(2) [OF q] r(1) by (simp add: slot_ok_def)
  qed
qed

section \<open>One turn of the loop\<close>

lemma free_slot_Some:
  "free_slot fds i m = Some k \<Longrightarrow>
   i \<le> k \<and> k < m \<and> fds ! k < 0 \<and> (\<forall>j. i \<le> j \<and> j < k \<longrightarrow> 0 \<le> fds ! j)"
proof (induction fds i m rule: free_slot.induct)
  case (1 fds i m)
  show ?case
  proof (cases "i < m \<and> 0 \<le> fds ! i")
    case True
    with 1 have "free_slot fds (Suc i) m = Some k" by (simp add: free_slot.simps [of fds i])
    with 1 True have "Suc i \<le> k \<and> k < m \<and> fds ! k < 0 \<and> (\<forall>j. Suc i \<le> j \<and> j < k \<longrightarrow> 0 \<le> fds ! j)"
      by simp
    with True show ?thesis by (auto simp: Suc_le_eq dest: le_neq_implies_less)
  next
    case False
    with 1(2) show ?thesis by (auto simp: free_slot.simps [of fds i] split: if_splits)
  qed
qed

lemma free_slot_None:
  "free_slot fds i m = None \<longleftrightarrow> (\<forall>j. i \<le> j \<and> j < m \<longrightarrow> 0 \<le> fds ! j)"
proof (induction fds i m rule: free_slot.induct)
  case (1 fds i m)
  show ?case
  proof (cases "i < m \<and> 0 \<le> fds ! i")
    case True
    with 1 show ?thesis
      by (auto simp: free_slot.simps [of fds i] Suc_le_eq) (metis le_neq_implies_less)
  next
    case False
    then show ?thesis by (auto simp: free_slot.simps [of fds i])
  qed
qed

lemma init_connection_slot:
  assumes "reliable_os os"
  shows "\<exists>c. init_connection os sv fd a w = (c, w) \<and> slot_ok sv fd (Some c) \<and> \<not> logged_in c \<and>
    working_directory c = Some (srv_path sv) \<and> data_socket c = None"
  using assms
  by (auto simp: init_connection_def reliable_os_def slot_ok_def conn_inv_def wf_sockets_def
      wd_inside_def)

lemma accept_new_connection_cases:
  assumes "reliable_os os"
  obtains (failed) w where "accept_new_connection os st = st\<lparr>sys := w\<rparr>" "fsys w = fsys (sys st)"
  | (stored) i fd c w where "free_slot (pollfds st) 1 (MAX_CLIENTS + 1) = Some i"
      "accept_new_connection os st =
        st\<lparr>pollfds := (pollfds st)[i := fd], conns := (conns st)[i := Some c], sys := w\<rparr>"
      "slot_ok (srv st) fd (Some c)" "fsys w = fsys (sys st)"
proof -
  obtain r w where a: "accept os (srv_sockfd (srv st)) (sys st) = (r, w)" by (metis prod.collapse)
  have w: "fsys w = fsys (sys st)" using accept_simps(2) [of os "srv_sockfd (srv st)" "sys st"] a by simp
  show thesis
  proof (cases r)
    case None
    then show ?thesis
      using a w by (intro failed [of "perror ''accept'' w"]) (auto simp: accept_new_connection_def)
  next
    case (Some fa)
    obtain fd ad where fa: "fa = (fd, ad)" by (cases fa)
    let ?w = "dprintf fd msg_welcome (printf (log_connection ad) w)"
    show ?thesis
    proof (cases "free_slot (pollfds st) 1 (MAX_CLIENTS + 1)")
      case None
      then show ?thesis using a w Some fa
        by (intro failed [of ?w]) (auto simp: accept_new_connection_def)
    next
      case (Some i)
      obtain c where "init_connection os (srv st) fd ad ?w = (c, ?w)" "slot_ok (srv st) fd (Some c)"
        using init_connection_slot [OF assms] by blast
      then show ?thesis using a w \<open>r = Some fa\<close> fa Some
        by (intro stored [where i = i and fd = fd and c = c and w = ?w])
          (auto simp: accept_new_connection_def)
    qed
  qed
qed

lemma accept_new_connection_inv:
  assumes "reliable_os os" "server_inv p st"
  shows "server_inv p (accept_new_connection os st)"
  using assms(1)
proof (cases rule: accept_new_connection_cases [where st = st])
  case (failed w)
  with assms(2) show ?thesis by (simp add: server_inv_def)
next
  case (stored i fd c w)
  have "root_safe (fsys w) p" using assms(2) stored(4) by (simp add: server_inv_def)
  with assms(2) stored(3) show ?thesis unfolding stored(2) by (rule slot_ok_update)
qed

lemma process_client_events_step:
  assumes "i < m"
  shows "process_client_events os revents i m st =
    (if pollfds st ! i < 0 \<or> \<not> revents ! i then process_client_events os revents (Suc i) m st
     else case conns st ! i of
       None \<Rightarrow> Inl Uninit_read
     | Some c \<Rightarrow>
         (case handle_connection os (pollfds st ! i) c (sys st) of
            Inl e \<Rightarrow> Inl e
          | Inr None \<Rightarrow> Inr None
          | Inr (Some (fd, c, w)) \<Rightarrow>
              process_client_events os revents (Suc i) m
                (st\<lparr>pollfds := (pollfds st)[i := fd], conns := (conns st)[i := Some c], sys := w\<rparr>)))"
  using assms by (simp add: process_client_events.simps [of os revents i])

text \<open>
  The loop as an invariant rule: what every handled event keeps holds after the loop.
\<close>

lemma process_client_events_induct:
  assumes "process_client_events os revents i m st = Inr (Some st')" "P st"
    and "\<And>st j c fd c' w'. i \<le> j \<Longrightarrow> j < m \<Longrightarrow> revents ! j \<Longrightarrow> 0 \<le> pollfds st ! j \<Longrightarrow>
      conns st ! j = Some c \<Longrightarrow>
      handle_connection os (pollfds st ! j) c (sys st) = Inr (Some (fd, c', w')) \<Longrightarrow> P st \<Longrightarrow>
      P (st\<lparr>pollfds := (pollfds st)[j := fd], conns := (conns st)[j := Some c'], sys := w'\<rparr>)"
  shows "P st'"
  using assms
proof (induction os revents i m st rule: process_client_events.induct)
  case (1 os revents i m st)
  show ?case
  proof (cases "i < m")
    case False
    with "1.prems"(1,2) show ?thesis by (simp add: process_client_events.simps [of os revents i])
  next
    case i: True
    show ?thesis
    proof (cases "pollfds st ! i < 0 \<or> \<not> revents ! i")
      case True
      from i True "1.prems"(1) have r: "process_client_events os revents (Suc i) m st = Inr (Some st')"
        by (simp add: process_client_events_step)
      show ?thesis by (rule "1.IH"(1) [OF i True r "1.prems"(2)]) (rule "1.prems"(3), auto)
    next
      case False
      with i "1.prems"(1) obtain c fd c' w' where c: "conns st ! i = Some c"
        and h: "handle_connection os (pollfds st ! i) c (sys st) = Inr (Some (fd, c', w'))"
        and r: "process_client_events os revents (Suc i) m
          (st\<lparr>pollfds := (pollfds st)[i := fd], conns := (conns st)[i := Some c'], sys := w'\<rparr>) =
          Inr (Some st')"
        by (auto simp: process_client_events_step split: option.splits sum.splits)
      have "P (st\<lparr>pollfds := (pollfds st)[i := fd], conns := (conns st)[i := Some c'], sys := w'\<rparr>)"
        using i False by (intro "1.prems"(3) [OF _ _ _ _ c h "1.prems"(2)]) auto
      from "1.IH"(2) [OF i False c h refl refl refl r this] show ?thesis
        by this (rule "1.prems"(3), auto)
    qed
  qed
qed

lemma process_client_events_inv:
  assumes "process_client_events os revents 1 (MAX_CLIENTS + 1) st = Inr (Some st')" "server_inv p st"
  shows "server_inv p st'"
  using assms
proof (rule process_client_events_induct)
  fix st j c fd c' w'
  assume j: "1 \<le> j" "j < MAX_CLIENTS + 1" "0 \<le> pollfds st ! j" "conns st ! j = Some c"
    and h: "handle_connection os (pollfds st ! j) c (sys st) = Inr (Some (fd, c', w'))"
    and inv: "server_inv p st"
  have "slot_ok (srv st) (pollfds st ! j) (Some c)" using inv j unfolding server_inv_def by metis
  from handle_connection_keeps [OF h this j(3)] inv
  show "server_inv p (st\<lparr>pollfds := (pollfds st)[j := fd], conns := (conns st)[j := Some c'], sys := w'\<rparr>)"
    by (intro slot_ok_update) (auto simp: server_inv_def)
qed

lemma process_connection_inv:
  assumes "process_connection os (Polled revents) st = Inr (Some (r, st'))" "reliable_os os"
    and "server_inv p st"
  shows "server_inv p st'"
proof -
  let ?st = "if revents ! 0 then accept_new_connection os st else st"
  from assms(1) have "process_client_events os revents 1 (MAX_CLIENTS + 1) ?st = Inr (Some st')"
    by (auto simp: process_connection_def map_sum_def Let_def split: sum.splits)
  moreover have "server_inv p ?st" using assms(2,3) accept_new_connection_inv by simp
  ultimately show ?thesis by (rule process_client_events_inv)
qed

section \<open>Children\<close>

lemma root_safe_append_file: "root_safe (fsys w) p \<Longrightarrow> root_safe (fsys (append_file q s w)) p"
  by (auto simp: append_file_def intro: root_safe_write_file split: option.splits node.splits)

lemma root_safe_append_all:
  "root_safe (fsys w) p \<Longrightarrow> root_safe (fsys (fold (append_file q) ls w)) p"
  by (induction ls arbitrary: w) (auto intro: root_safe_append_file)

lemma transfer_file_data_root:
  "transfer_file_data os q fd w = Inr (r, w') \<Longrightarrow> root_safe (fsys w) p \<Longrightarrow> root_safe (fsys w') p"
  by (auto simp: transfer_file_data_def root_safe_append_all Let_def split: if_splits option.splits)

lemma fsys_send_chunks [simp]: "fsys (send_chunks fd d w) = fsys w"
  by (simp add: send_chunks_eq)

lemma execute_ls_fsys: "execute_ls_command os c cmd w = Inr (st, w') \<Longrightarrow> fsys w' = fsys w"
  by (auto simp: execute_ls_command_def goto_path_def list_directory_def Let_def case_prod_beta
      split: if_splits option.splits sum.splits)

lemma execute_retr_fsys: "execute_retr_command c cmd w = Inr (st, w') \<Longrightarrow> fsys w' = fsys w"
  by (auto simp: execute_retr_command_def Let_def split: option.splits)

lemma execute_stor_root:
  "execute_stor_command os c cmd w = Inr (st, w') \<Longrightarrow> root_safe (fsys w) p \<Longrightarrow> root_safe (fsys w') p"
  by (auto simp: execute_stor_command_def Let_def root_safe_fopen_w
      split: option.splits sum.splits elim!: transfer_file_data_root)

lemma run_job_root:
  assumes "run_job os j w = Inr w'" "root_safe (fsys w) p"
  shows "root_safe (fsys w') p"
proof -
  let ?v = "w\<lparr>self_pid := job_pid j, cwd := job_cwd j, open_fds := job_fds j\<rparr>"
  from assms(1) obtain st v1 v2
    where e: "run_execution os (job_execution j) (job_connection j) (job_command j) ?v = Inr (st, v1)"
    and d: "destroy_connection (job_connection j) False
      (close (srv_sockfd (server (job_connection j))) v1) = Inr v2"
    and w': "fsys w' = fsys v2"
    by (auto simp: run_job_def child_main_def map_sum_def Let_def split: sum.splits)
  have "root_safe (fsys v1) p"
    using e assms(2) execute_ls_fsys execute_retr_fsys execute_stor_root
    by (cases "job_execution j") (fastforce simp: run_execution_def)+
  then show ?thesis using quietD(2) [OF destroy_connection_quiet [OF d]] w' by simp
qed

section \<open>The server as a transition system\<close>

inductive server_step :: "os \<Rightarrow> server_state \<Rightarrow> server_state \<Rightarrow> bool" for os where
  turn: "process_connection os (Polled revents) st = Inr (Some (r, st')) \<Longrightarrow> server_step os st st'"
| packet: "server_step os st
    (st\<lparr>sys := (sys st)\<lparr>net_in := (net_in (sys st))(fd := net_in (sys st) fd @ [s])\<rparr>\<rparr>)"
| hang_up: "server_step os st (st\<lparr>sys := (sys st)\<lparr>net_eof := (net_eof (sys st))(fd := True)\<rparr>\<rparr>)"
| child: "jobs (sys st) = js @ j # js' \<Longrightarrow>
    run_job os j ((sys st)\<lparr>jobs := js @ js'\<rparr>) = Inr w \<Longrightarrow> server_step os st (st\<lparr>sys := w\<rparr>)"
| child_dies: "jobs (sys st) = js @ j # js' \<Longrightarrow>
    server_step os st (st\<lparr>sys := (sys st)\<lparr>jobs := js @ js'\<rparr>\<rparr>)"
| signal: "server_step os st (handle_signal st)"

inductive_cases server_stepE [consumes 1, case_names turn packet hang_up child child_dies signal]:
  "server_step os st st'"

inductive reachable :: "os \<Rightarrow> server_state \<Rightarrow> server_state \<Rightarrow> bool" for os st0 where
  start: "reachable os st0 st0"
| step: "reachable os st0 st \<Longrightarrow> server_step os st st' \<Longrightarrow> reachable os st0 st'"

lemma server_step_inv:
  assumes "server_step os st st'" "reliable_os os" "server_inv p st"
  shows "server_inv p st'"
  using assms(1)
proof (cases rule: server_stepE)
  case (turn revents r)
  from turn(1) assms(2,3) show ?thesis by (rule process_connection_inv)
next
  case (child js j js' w)
  have "root_safe (fsys ((sys st)\<lparr>jobs := js @ js'\<rparr>)) p" using assms(3) by (simp add: server_inv_def)
  with run_job_root [OF child(3)] child(1) assms(3) show ?thesis by (simp add: server_inv_sys)
qed (use assms(3) in \<open>simp_all add: server_inv_def handle_signal_def\<close>)

lemma reachable_inv:
  "reachable os st0 st \<Longrightarrow> reliable_os os \<Longrightarrow> server_inv p st0 \<Longrightarrow> server_inv p st"
  by (induction rule: reachable.induct) (auto intro: server_step_inv)

text \<open>No step changes the server structure or takes the stop flag back.\<close>

definition same_server :: "server_state \<Rightarrow> server_state \<Rightarrow> bool" where
  "same_server st st' \<longleftrightarrow> srv st' = srv st \<and> (stop_server st \<longrightarrow> stop_server st')"

lemma accept_new_connection_server: "same_server st (accept_new_connection os st)"
  by (simp add: same_server_def accept_new_connection_def Let_def
      split: option.splits prod.splits)

lemma process_connection_server:
  assumes "process_connection os (Polled revents) st = Inr (Some (r, st'))"
  shows "same_server st st'"
proof -
  let ?st = "if revents ! 0 then accept_new_connection os st else st"
  from assms have "process_client_events os revents 1 (MAX_CLIENTS + 1) ?st = Inr (Some st')"
    by (auto simp: process_connection_def map_sum_def Let_def split: sum.splits)
  then have "same_server ?st st'"
    by (rule process_client_events_induct) (simp_all add: same_server_def)
  then show ?thesis using accept_new_connection_server [of st os] by (auto simp: same_server_def split: if_splits)
qed

lemma server_step_server: "server_step os st st' \<Longrightarrow> same_server st st'"
  by (cases rule: server_stepE, assumption)
    (auto simp: process_connection_server, simp_all add: same_server_def handle_signal_def)

lemma reachable_server: "reachable os st0 st \<Longrightarrow> same_server st0 st"
  by (induction rule: reachable.induct) (use server_step_server in \<open>auto simp: same_server_def\<close>)

lemma reachable_trans: "reachable os st1 st2 \<Longrightarrow> reachable os st0 st1 \<Longrightarrow> reachable os st0 st2"
  by (induction rule: reachable.induct) (auto intro: reachable.step)

lemma init_poll_fds_nth: "1 \<le> i \<Longrightarrow> i < MAX_CLIENTS + 1 \<Longrightarrow> init_poll_fds fd ! i = -1"
  by (simp add: init_poll_fds_def)

lemma length_init_poll_fds: "length (init_poll_fds fd) = MAX_CLIENTS + 1"
  by (simp add: init_poll_fds_def)

lemma init_state_inv:
  "root_safe (fsys w) p \<Longrightarrow> srv_path sv = string_of_path p \<Longrightarrow> server_inv p (init_state sv w)"
  using init_poll_fds_nth
  by (auto simp: server_inv_def init_state_def slot_ok_def length_init_poll_fds)

section \<open>Slots that are not ready\<close>

lemma process_client_events_skip:
  assumes "i \<le> m" "k \<le> i" "\<And>j. k \<le> j \<Longrightarrow> j < i \<Longrightarrow> \<not> revents ! j"
  shows "process_client_events os revents k m st = process_client_events os revents i m st"
  using assms
proof (induction "i - k" arbitrary: k)
  case (Suc n)
  then have "k < m" "\<not> revents ! k" "n = i - Suc k" "Suc k \<le> i" by auto
  with Suc show ?case by (simp add: process_client_events_step)
qed simp

lemma idle_turn:
  assumes "revents ! 0" "\<And>j. 1 \<le> j \<Longrightarrow> j < MAX_CLIENTS + 1 \<Longrightarrow> \<not> revents ! j"
  shows "process_connection os (Polled revents) st = Inr (Some (0, accept_new_connection os st))"
proof -
  have "process_client_events os revents 1 (MAX_CLIENTS + 1) st' = Inr (Some st')" for st'
    using process_client_events_skip [of "MAX_CLIENTS + 1" "MAX_CLIENTS + 1" 1 revents os st']
      assms(2) by (simp add: process_client_events.simps)
  then show ?thesis using assms(1) by (simp add: process_connection_def)
qed

text \<open>A slot that is not ready, and the bytes its client sees.\<close>

definition idle_kept :: "server_state \<Rightarrow> nat \<Rightarrow> int \<Rightarrow> server_state \<Rightarrow> bool" where
  "idle_kept st k fd st' \<longleftrightarrow>
     pollfds st' ! k = pollfds st ! k \<and> conns st' ! k = conns st ! k \<and>
     self_pid (sys st') = self_pid (sys st) \<and>
     bytes_sent (self_pid (sys st)) fd (trace (sys st')) =
       bytes_sent (self_pid (sys st)) fd (trace (sys st)) \<and>
     (\<forall>j. j \<noteq> k \<longrightarrow> pollfds st' ! j \<noteq> fd \<or> pollfds st ! j = fd)"

lemma process_client_events_idle:
  assumes "process_client_events os revents 1 (MAX_CLIENTS + 1) st = Inr (Some st')"
    and inv: "server_inv p st" and k: "\<not> revents ! k" "0 \<le> fd"
    and other: "\<And>j. 1 \<le> j \<Longrightarrow> j < MAX_CLIENTS + 1 \<Longrightarrow> j \<noteq> k \<Longrightarrow> pollfds st ! j \<noteq> fd"
  shows "idle_kept st k fd st'"
proof -
  define P where "P s \<longleftrightarrow> server_inv p s \<and> pollfds s ! k = pollfds st ! k \<and> conns s ! k = conns st ! k \<and>
     self_pid (sys s) = self_pid (sys st) \<and>
     bytes_sent (self_pid (sys st)) fd (trace (sys s)) =
       bytes_sent (self_pid (sys st)) fd (trace (sys st)) \<and>
     (\<forall>j. pollfds s ! j = pollfds st ! j \<or> pollfds s ! j = -1)" for s
  have "P st'"
    using assms(1)
  proof (rule process_client_events_induct)
    show "P st" using inv by (simp add: P_def)
    fix s j c f c' w'
    assume j: "1 \<le> j" "j < MAX_CLIENTS + 1" "revents ! j" "0 \<le> pollfds s ! j" "conns s ! j = Some c"
      and h: "handle_connection os (pollfds s ! j) c (sys s) = Inr (Some (f, c', w'))" and s: "P s"
    have inv': "server_inv p s" using s by (simp add: P_def)
    have "slot_ok (srv s) (pollfds s ! j) (Some c)" using inv' j unfolding server_inv_def by metis
    with inv' have keeps: "slot_ok (srv s) f (Some c') \<and> root_safe (fsys w') p \<and>
        (f = pollfds s ! j \<or> f = -1) \<and> replies_to (pollfds s ! j) (sys s) w'"
      using j(4) by (intro handle_connection_keeps [OF h]) (auto simp: server_inv_def)
    have jk: "j \<noteq> k" using j(3) k(1) by auto
    have "pollfds s ! j = pollfds st ! j" using s j(4) unfolding P_def by (metis not_one_le_zero neg_0_le_iff_le)
    then have fd: "pollfds s ! j \<noteq> fd" using other [OF j(1,2) jk] by simp
    have "bytes_sent (self_pid (sys st)) fd (trace w') =
        bytes_sent (self_pid (sys st)) fd (trace (sys s))"
      using bytes_sent_other [of "pollfds s ! j" "sys s" w' fd "self_pid (sys st)"] keeps fd by auto
    moreover have "self_pid w' = self_pid (sys s)" using keeps by (simp add: replies_to_def)
    moreover have "server_inv p (s\<lparr>pollfds := (pollfds s)[j := f], conns := (conns s)[j := Some c'],
        sys := w'\<rparr>)"
      using slot_ok_update [OF inv'] keeps by simp
    moreover have "(pollfds s)[j := f] ! i = pollfds st ! i \<or> (pollfds s)[j := f] ! i = -1" for i
      using s keeps inv' j(2) by (cases "i = j") (auto simp: P_def server_inv_def)
    ultimately show "P (s\<lparr>pollfds := (pollfds s)[j := f], conns := (conns s)[j := Some c'], sys := w'\<rparr>)"
      using s jk by (simp add: P_def)
  qed
  then show ?thesis using k(2) unfolding P_def idle_kept_def by (metis neg_0_le_iff_le not_one_le_zero)
qed

section \<open>The end of the server\<close>

lemma destroy_clients_ok:
  assumes "server_inv p st" "1 \<le> i"
  shows "\<exists>st'. destroy_clients i st = Inr st' \<and> pollfds st' = pollfds st \<and> srv st' = srv st \<and>
    open_fds (sys st') \<subseteq> open_fds (sys st) \<and> self_pid (sys st') = self_pid (sys st) \<and>
    set (trace (sys st)) \<subseteq> set (trace (sys st')) \<and>
    (\<forall>k. i \<le> k \<and> k < MAX_CLIENTS + 1 \<and> 0 \<le> pollfds st ! k \<longrightarrow>
      pollfds st ! k \<notin> open_fds (sys st') \<and>
      Sent (self_pid (sys st)) (pollfds st ! k) msg_closing \<in> set (trace (sys st')))"
  using assms
proof (induction i st rule: destroy_clients.induct)
  case (1 i st)
  show ?case
  proof (cases "i < MAX_CLIENTS + 1")
    case False
    then show ?thesis by (auto simp: destroy_clients.simps [of i])
  next
    case i: True
    show ?thesis
    proof (cases "0 \<le> pollfds st ! i")
      case False
      with i have "destroy_clients i st = destroy_clients (Suc i) st"
        by (simp add: destroy_clients.simps [of i])
      moreover have "i \<le> k \<longleftrightarrow> k = i \<or> Suc i \<le> k" for k by auto
      ultimately show ?thesis using "1.IH"(2) [OF i False "1.prems"(1)] False by auto
    next
      case live: True
      let ?fd = "pollfds st ! i" and ?w = "dprintf (pollfds st ! i) msg_closing (sys st)"
      have "slot_ok (srv st) ?fd (conns st ! i)" using "1.prems" i by (simp add: server_inv_def)
      with live obtain c where c: "conns st ! i = Some c" "client_addr c \<noteq> None" "stream c \<noteq> None"
        "wf_sockets c" by (auto simp: slot_ok_def conn_inv_def)
      from destroy_connection_ok [OF c(4), of True ?w] c obtain w1
        where d: "destroy_connection c True ?w = Inr w1" by auto
      have q: "quiet ?w w1" by (rule destroy_connection_quiet [OF d])
      let ?st = "st\<lparr>sys := close ?fd w1\<rparr>"
      have inv: "server_inv p ?st" using "1.prems"(1) quietD(2) [OF q] by (simp add: server_inv_def)
      from q obtain es where es: "trace w1 = trace (sys st) @ [Sent (self_pid (sys st)) ?fd msg_closing] @ es"
        by (auto simp: quiet_def)
      have fds: "open_fds w1 \<subseteq> open_fds (sys st)"
        using destroy_connection_fds [OF d] by simp
      have "destroy_clients i st = destroy_clients (Suc i) ?st"
        using i live c(1) d by (simp add: destroy_clients.simps [of i])
      moreover from "1.IH"(1) [OF i live refl refl c(1) d inv]
      obtain st' where st': "destroy_clients (Suc i) ?st = Inr st'" "pollfds st' = pollfds st"
        "srv st' = srv st" "open_fds (sys st') \<subseteq> open_fds w1 - {?fd}"
        "self_pid (sys st') = self_pid w1"
        "set (trace w1) \<subseteq> set (trace (sys st'))"
        "\<forall>k. Suc i \<le> k \<and> k < MAX_CLIENTS + 1 \<and> 0 \<le> pollfds st ! k \<longrightarrow>
          pollfds st ! k \<notin> open_fds (sys st') \<and>
          Sent (self_pid w1) (pollfds st ! k) msg_closing \<in> set (trace (sys st'))"
        by auto
      moreover have "i \<le> k \<longleftrightarrow> k = i \<or> Suc i \<le> k" for k by auto
      ultimately show ?thesis using quietD(1) [OF q] es fds by auto
    qed
  qed
qed

section \<open>Properties\<close>

text \<open>
  Property C4.  Safety of the whole server: in every state that can be reached from the start, by
  turns of the loop, packets, hang-ups, children and signals in any order, every live slot holds
  a connection of this server on the slot's descriptor whose directory has a path that begins
  with the root's, and the root directory is still there.
\<close>

theorem server_keeps_clients_inside:
  assumes "reliable_os os" "root_safe (fsys w) p" "srv_path sv = string_of_path p"
    and "reachable os (init_state sv w) st"
  shows "server_inv p st"
  using assms(4,1) init_state_inv [OF assms(2,3)] by (rule reachable_inv)

definition demo_revents :: "bool list" where
  "demo_revents = True # replicate 128 False"

lemma demo_reliable: "reliable_os demo_os"
  by (simp add: reliable_os_def demo_os_def)

lemma demo_root_safe: "root_safe (fsys demo_world) [''srv'', ''ftp'']"
  using demo_dir_path
  by (simp add: root_safe_def demo_world_def writable_dir_def lookup_def demo_fs_def)

lemma demo_revents_idle: "1 \<le> j \<Longrightarrow> j < MAX_CLIENTS + 1 \<Longrightarrow> \<not> demo_revents ! j"
  by (cases j) (auto simp: demo_revents_def MAX_CLIENTS_def)

lemma demo_turn:
  "process_connection demo_os (Polled demo_revents) (init_state demo_server demo_world) =
     Inr (Some (0, accept_new_connection demo_os (init_state demo_server demo_world)))"
  using demo_revents_idle by (intro idle_turn) (auto simp: demo_revents_def)

theorem server_keeps_clients_inside_witness:
  "server_inv [''srv'', ''ftp'']
     (accept_new_connection demo_os (init_state demo_server demo_world))"
proof (rule server_keeps_clients_inside [OF demo_reliable demo_root_safe])
  show "srv_path demo_server = string_of_path [''srv'', ''ftp'']"
    by (simp add: demo_server_def demo_root_def)
  show "reachable demo_os (init_state demo_server demo_world)
      (accept_new_connection demo_os (init_state demo_server demo_world))"
    by (rule reachable.step [OF reachable.start server_step.turn [OF demo_turn]])
qed

text \<open>
  A new client is greeted with 220 and takes the first free slot, logged out and in
  the root of the server; the other slots are not touched.
\<close>

lemma new_client_takes_first_slot:
  assumes "os_accept os (sys st) (srv_sockfd (srv st)) = Some (fd, a)" "reliable_os os"
    and "1 \<le> i" "i < MAX_CLIENTS + 1" "pollfds st ! i < 0"
    and "\<And>j. 1 \<le> j \<Longrightarrow> j < i \<Longrightarrow> 0 \<le> pollfds st ! j"
  shows "\<exists>c w. accept_new_connection os st =
      st\<lparr>pollfds := (pollfds st)[i := fd], conns := (conns st)[i := Some c], sys := w\<rparr> \<and>
    slot_ok (srv st) fd (Some c) \<and> \<not> logged_in c \<and>
    working_directory c = Some (srv_path (srv st)) \<and> data_socket c = None \<and>
    bytes_sent (self_pid (sys st)) fd (trace w) =
      bytes_sent (self_pid (sys st)) fd (trace (sys st)) @ msg_welcome"
proof -
  have "free_slot (pollfds st) 1 (MAX_CLIENTS + 1) = Some i"
  proof (cases "free_slot (pollfds st) 1 (MAX_CLIENTS + 1)")
    case None
    with assms(3,4,5) show ?thesis by (fastforce simp: free_slot_None)
  next
    case (Some k)
    from free_slot_Some [OF this] assms(3-6) have "\<not> k < i" "\<not> i < k" by (metis not_less)+
    with Some show ?thesis by simp
  qed
  moreover define v where
    "v = dprintf fd msg_welcome (printf (log_connection a)
      ((sys st)\<lparr>open_fds := insert fd (open_fds (sys st))\<rparr>))"
  moreover obtain c where "init_connection os (srv st) fd a v = (c, v)"
    and c: "slot_ok (srv st) fd (Some c)" "\<not> logged_in c"
      "working_directory c = Some (srv_path (srv st))" "data_socket c = None"
    using init_connection_slot [OF assms(2)] by blast
  ultimately have "accept_new_connection os st =
      st\<lparr>pollfds := (pollfds st)[i := fd], conns := (conns st)[i := Some c], sys := v\<rparr>"
    using assms(1) by (simp add: accept_new_connection_def accept_def Let_def)
  with c show ?thesis by (intro exI [of _ c] exI [of _ v]) (simp add: v_def)
qed

lemma new_client_takes_first_slot_witness:
  "\<exists>c w. accept_new_connection demo_os (init_state demo_server demo_world) =
      (init_state demo_server demo_world)\<lparr>
        pollfds := (pollfds (init_state demo_server demo_world))[1 := 7],
        conns := (conns (init_state demo_server demo_world))[1 := Some c], sys := w\<rparr> \<and>
    slot_ok (srv (init_state demo_server demo_world)) 7 (Some c) \<and> \<not> logged_in c \<and>
    working_directory c = Some (srv_path (srv (init_state demo_server demo_world))) \<and>
    data_socket c = None \<and>
    bytes_sent (self_pid (sys (init_state demo_server demo_world))) 7 (trace w) =
      bytes_sent (self_pid (sys (init_state demo_server demo_world))) 7
        (trace (sys (init_state demo_server demo_world))) @ msg_welcome"
proof (rule new_client_takes_first_slot [OF _ demo_reliable])
  show "pollfds (init_state demo_server demo_world) ! 1 < 0"
    using init_poll_fds_nth [of 1] by (simp add: init_state_def MAX_CLIENTS_def)
qed (simp_all add: demo_os_def MAX_CLIENTS_def)

text \<open>
  With all 128 slots taken a further client is accepted and greeted all the same,
  but stored nowhere: its descriptor stays open and no turn will ever look at it.
\<close>

lemma full_table_forgets_client:
  assumes "os_accept os (sys st) (srv_sockfd (srv st)) = Some (fd, a)"
    and "\<And>i. 1 \<le> i \<Longrightarrow> i < MAX_CLIENTS + 1 \<Longrightarrow> 0 \<le> pollfds st ! i"
  shows "pollfds (accept_new_connection os st) = pollfds st \<and>
    conns (accept_new_connection os st) = conns st \<and>
    fd \<in> open_fds (sys (accept_new_connection os st)) \<and>
    bytes_sent (self_pid (sys st)) fd (trace (sys (accept_new_connection os st))) =
      bytes_sent (self_pid (sys st)) fd (trace (sys st)) @ msg_welcome"
proof -
  have "free_slot (pollfds st) 1 (MAX_CLIENTS + 1) = None" using assms(2) by (simp add: free_slot_None)
  then show ?thesis using assms(1) by (simp add: accept_new_connection_def accept_def Let_def)
qed

definition demo_full :: server_state where
  "demo_full = (init_state demo_server demo_world)\<lparr>pollfds := replicate 129 4\<rparr>"

lemma full_table_forgets_client_witness:
  "pollfds (accept_new_connection demo_os demo_full) = pollfds demo_full \<and>
    conns (accept_new_connection demo_os demo_full) = conns demo_full \<and>
    7 \<in> open_fds (sys (accept_new_connection demo_os demo_full)) \<and>
    bytes_sent (self_pid (sys demo_full)) 7 (trace (sys (accept_new_connection demo_os demo_full))) =
      bytes_sent (self_pid (sys demo_full)) 7 (trace (sys demo_full)) @ msg_welcome"
  by (rule full_table_forgets_client)
    (simp_all add: demo_full_def demo_os_def MAX_CLIENTS_def)

text \<open>
  Clients do not disturb each other: whatever the commands of the other clients are
  in a turn, a client that is not ready keeps its slot and its connection, field by field, and
  gets no byte from the server process.
\<close>

lemma idle_client_untouched:
  assumes "process_client_events os revents 1 (MAX_CLIENTS + 1) st = Inr (Some st')"
    and "server_inv p st" "\<not> revents ! k" "pollfds st ! k = fd" "0 \<le> fd"
    and "\<And>j. 1 \<le> j \<Longrightarrow> j < MAX_CLIENTS + 1 \<Longrightarrow> j \<noteq> k \<Longrightarrow> pollfds st ! j \<noteq> fd"
  shows "pollfds st' ! k = fd \<and> conns st' ! k = conns st ! k \<and>
    bytes_sent (self_pid (sys st)) fd (trace (sys st')) =
      bytes_sent (self_pid (sys st)) fd (trace (sys st))"
  using process_client_events_idle [OF assms(1,2,3,5,6)] assms(4) by (simp add: idle_kept_def)

definition demo_two :: server_state where
  "demo_two = (init_state demo_server (demo_world\<lparr>net_eof := (\<lambda>_. True)\<rparr>))\<lparr>
     pollfds := (replicate 129 (-1))[1 := 4, 2 := 6],
     conns := (replicate 129 None)[1 := Some demo_conn,
       2 := Some (demo_conn\<lparr>client_sockfd := 6, stream := Some \<lparr>fileno = 6, read_ahead = []\<rparr>\<rparr>)]\<rparr>"

lemma demo_conn_inv: "conn_inv demo_conn"
  by (simp add: conn_inv_def wf_sockets_def wd_inside_def demo_conn_def demo_server_def)

lemma demo_two_inv: "server_inv [''srv'', ''ftp''] demo_two"
proof -
  have "slot_ok (srv demo_two) (pollfds demo_two ! i) (conns demo_two ! i)" if "i < 129" for i
    using demo_conn_inv that
    by (cases "i = 1"; cases "i = 2")
      (auto simp: demo_two_def slot_ok_def init_state_def demo_conn_def conn_inv_def wf_sockets_def
        wd_inside_def)
  then show ?thesis
    using demo_root_safe
    by (simp add: server_inv_def MAX_CLIENTS_def demo_two_def init_state_def demo_server_def
        demo_root_def)
qed

lemma idle_client_untouched_witness:
  "\<exists>st'. process_client_events demo_os ((replicate 129 False)[1 := True]) 1 (MAX_CLIENTS + 1)
      demo_two = Inr (Some st') \<and>
    pollfds st' ! 2 = 6 \<and> conns st' ! 2 = conns demo_two ! 2 \<and>
    bytes_sent (self_pid (sys demo_two)) 6 (trace (sys st')) =
      bytes_sent (self_pid (sys demo_two)) 6 (trace (sys demo_two))"
proof -
  let ?r = "(replicate 129 False)[1 := True]"
  have two: "pollfds demo_two ! 1 = 4" "conns demo_two ! 1 = Some demo_conn" "pollfds demo_two ! 2 = 6"
    "length (pollfds demo_two) = 129"
    by (simp_all add: demo_two_def)
  have h: "handle_connection demo_os 4 demo_conn (sys demo_two) = Inr (Some (4, demo_conn, sys demo_two))"
    by (rule closed_peer [where s = "\<lparr>fileno = 4, read_ahead = []\<rparr>"])
      (simp_all add: demo_conn_def demo_two_def init_state_def demo_world_def)
  let ?st = "demo_two\<lparr>pollfds := (pollfds demo_two)[1 := 4],
      conns := (conns demo_two)[1 := Some demo_conn], sys := sys demo_two\<rparr>"
  have "process_client_events demo_os ?r 1 (MAX_CLIENTS + 1) demo_two =
      process_client_events demo_os ?r 2 (MAX_CLIENTS + 1) ?st"
    by (subst process_client_events_step)
      (simp_all add: MAX_CLIENTS_def two h numeral_2_eq_2 [symmetric] del: One_nat_def)
  also have "\<dots> = process_client_events demo_os ?r (MAX_CLIENTS + 1) (MAX_CLIENTS + 1) ?st"
    by (rule process_client_events_skip) (auto simp: MAX_CLIENTS_def nth_list_update)
  also have "\<dots> = Inr (Some ?st)" by (simp add: process_client_events.simps)
  finally have e: "process_client_events demo_os ?r 1 (MAX_CLIENTS + 1) demo_two = Inr (Some ?st)" .
  have "pollfds demo_two ! j \<noteq> 6" if "j < MAX_CLIENTS + 1" "j \<noteq> 2" for j
    using that by (cases "j = 1") (auto simp: demo_two_def MAX_CLIENTS_def)
  with idle_client_untouched [OF e demo_two_inv, of 2 6] two(3) e show ?thesis by auto
qed

text \<open>
  Property C37.  One client can stop the server: when the first ready slot has part of a line and
  the peer sends no line feed, the turn never comes to an end, for no one.
\<close>

theorem unfinished_line_blocks_server:
  assumes "1 \<le> i" "i < MAX_CLIENTS + 1" "revents ! i" "\<And>j. j < i \<Longrightarrow> \<not> revents ! j"
    and "0 \<le> pollfds st ! i" "conns st ! i = Some c" "stream c = Some s"
    and "LF \<notin> set (pending c (sys st))" "\<not> net_eof (sys st) (fileno s)" "\<not> stop_server st"
  shows "serve os (((\<lambda>st. st), Polled revents) # inputs) st = Inr None"
proof -
  have "process_client_events os revents 1 (MAX_CLIENTS + 1) st =
      process_client_events os revents i (MAX_CLIENTS + 1) st"
    using assms(1,2,4) by (intro process_client_events_skip) auto
  also have "\<dots> = Inr None"
    using assms(2,3,5,6) unfinished_line [OF assms(7-9)] by (simp add: process_client_events_step)
  finally have "process_connection os (Polled revents) st = Inr None"
    using assms(1) assms(4) [of 0] by (simp add: process_connection_def)
  then show ?thesis using assms(10) by (simp add: is_server_stopped_def)
qed

theorem unfinished_line_blocks_server_witness:
  "serve demo_os [((\<lambda>st. st), Polled [False, True]), ((\<lambda>st. st), Poll_error False)]
     (demo_two\<lparr>sys := (sys demo_two)\<lparr>net_in := (\<lambda>_. [''US'']), net_eof := (\<lambda>_. False)\<rparr>\<rparr>) = Inr None"
  by (rule unfinished_line_blocks_server [where i = 1 and c = demo_conn and
        s = "\<lparr>fileno = 4, read_ahead = []\<rparr>"])
    (simp_all add: MAX_CLIENTS_def demo_two_def demo_conn_def pending_def init_state_def)

text \<open>The server's half of a transfer when nobody connects to the passive data socket.\<close>

lemma transfer_blocks:
  assumes "nul_free cmd" "logged_in c" "data_socket c = Some ds" "data_socket_mode ds = PASSIVE"
    and "\<And>w. \<not> os_peer os w (data_sockfd ds)"
    and "touppercase (name cmd) = ''LIST'' \<and> argc cmd = 0 \<or>
      touppercase (name cmd) = ''STOR'' \<and> argc cmd = 1"
  shows "execute_command os (Some cmd) c w = Inl Blocked"
proof -
  have "execute_data_socket_command os c e k v = Inl Blocked" for e k v
    using assms(3-5) establish_Inl [of os ds v Blocked] by (simp add: execute_data_socket_command_def)
  then show ?thesis
    using assms
    by (auto simp: execute_by_name command_handlers_def list_command_def list_check_def stor_command_def)
qed

text \<open>
  Property C32.  One client can stop the server in another way: it asks for a passive data socket,
  then for a listing or an upload, and does not connect.  \<open>accept\<close> waits in the server process, not in
  a child, so the turn never comes to an end, for no one.
\<close>

theorem absent_client_blocks_server:
  assumes "1 \<le> i" "i < MAX_CLIENTS + 1" "revents ! i" "\<And>j. j < i \<Longrightarrow> \<not> revents ! j"
    and "0 \<le> pollfds st ! i" "conns st ! i = Some c" "stream c = Some s" "client_addr c = Some a"
    and "writable_command cmd" "pending c (sys st) = print_command cmd @ later"
    and "touppercase (name cmd) = ''LIST'' \<and> argc cmd = 0 \<or>
      touppercase (name cmd) = ''STOR'' \<and> argc cmd = 1"
    and "logged_in c" "data_socket c = Some ds" "data_socket_mode ds = PASSIVE"
    and "\<And>w. \<not> os_peer os w (data_sockfd ds)" "\<And>w site. os_malloc os w site" "\<not> stop_server st"
  shows "serve os (((\<lambda>st. st), Polled revents) # inputs) st = Inr None"
proof -
  from handle_written_command [OF assms(7-10) assms(16)] obtain rest chunks c1 w1
    where c1: "(c1, w1) = received c (sys st) s rest chunks"
    and h: "handle_client_command os c (sys st) =
      in_turn (execute_command os (Some cmd) c1 (printf (log_command a (command_line cmd)) w1))"
    by blast
  have "nul_free cmd" using assms(9) by (auto simp: writable_command_def nul_free_def list_all_iff)
  moreover have "logged_in c1" "data_socket c1 = Some ds"
    using c1 assms(12,13) by (simp_all add: received_def)
  ultimately have "handle_connection os (pollfds st ! i) c (sys st) = Inr None"
    using h transfer_blocks [OF _ _ _ assms(14,15,11)] by (simp add: handle_connection_def)
  moreover have "process_client_events os revents 1 (MAX_CLIENTS + 1) st =
      process_client_events os revents i (MAX_CLIENTS + 1) st"
    using assms(1,2,4) by (intro process_client_events_skip) auto
  ultimately have "process_client_events os revents 1 (MAX_CLIENTS + 1) st = Inr None"
    using assms(2,3,5,6) by (simp add: process_client_events_step)
  then have "process_connection os (Polled revents) st = Inr None"
    using assms(1) assms(4) [of 0] by (simp add: process_connection_def)
  then show ?thesis using assms(17) by (simp add: is_server_stopped_def)
qed

definition demo_absent :: server_state where
  "demo_absent = (init_state demo_server
     (demo_world\<lparr>net_in := (\<lambda>_. [print_command (demo_command ''LIST'' [])])\<rparr>))\<lparr>
     pollfds := (replicate 129 (-1))[1 := 4], conns := (replicate 129 None)[1 := Some demo_passive]\<rparr>"

theorem absent_client_blocks_server_witness:
  "serve lonely_os [((\<lambda>st. st), Polled [False, True]), ((\<lambda>st. st), Poll_error False)] demo_absent =
     Inr None"
  by (rule absent_client_blocks_server [where i = 1 and c = demo_passive and ds = demo_ds and
        s = "\<lparr>fileno = 4, read_ahead = []\<rparr>" and cmd = "demo_command ''LIST'' []" and later = "[]"])
    (simp_all add: MAX_CLIENTS_def demo_absent_def demo_passive_def demo_user_def demo_conn_def
      demo_ds_def lonely_os_def demo_os_def pending_def init_state_def demo_world_def demo_command_def
      writable_command_def wf_command_def isspace_def touppercase_def)

text \<open>
  From every state of the invariant \<open>destroy_server\<close>
  succeeds, has told every live client goodbye, and leaves neither a client's descriptor nor the
  listening one open.
\<close>

lemma shutdown_closes_all:
  assumes "server_inv p st"
  shows "\<exists>st'. destroy_server st = Inr st' \<and> srv_sockfd (srv st) \<notin> open_fds (sys st') \<and>
    (\<forall>k. 1 \<le> k \<and> k < MAX_CLIENTS + 1 \<and> 0 \<le> pollfds st ! k \<longrightarrow>
      pollfds st ! k \<notin> open_fds (sys st') \<and>
      Sent (self_pid (sys st)) (pollfds st ! k) msg_closing \<in> set (trace (sys st')))"
proof -
  from destroy_clients_ok [OF assms, of 1] obtain st'
    where "destroy_clients 1 st = Inr st'" "srv st' = srv st"
      "\<forall>k. 1 \<le> k \<and> k < MAX_CLIENTS + 1 \<and> 0 \<le> pollfds st ! k \<longrightarrow>
        pollfds st ! k \<notin> open_fds (sys st') \<and>
        Sent (self_pid (sys st)) (pollfds st ! k) msg_closing \<in> set (trace (sys st'))" by auto
  then show ?thesis by (auto simp: destroy_server_def)
qed

lemma shutdown_closes_all_witness:
  "\<exists>st'. destroy_server demo_two = Inr st' \<and> srv_sockfd (srv demo_two) \<notin> open_fds (sys st') \<and>
    (\<forall>k. 1 \<le> k \<and> k < MAX_CLIENTS + 1 \<and> 0 \<le> pollfds demo_two ! k \<longrightarrow>
      pollfds demo_two ! k \<notin> open_fds (sys st') \<and>
      Sent (self_pid (sys demo_two)) (pollfds demo_two ! k) msg_closing \<in> set (trace (sys st')))"
  by (rule shutdown_closes_all [OF demo_two_inv])

text \<open>
  Property C16.  The end of the server.  Let SIGINT or SIGTERM arrive in any state the server can
  reach, and let anything happen until the loop looks at its flag again: turns under way, packets,
  children, more signals.  Then the loop runs no further turn and the program ends: every client
  that is connected has been told goodbye, and neither the descriptor of a client nor the listening
  one is open.
\<close>

theorem signal_ends_server:
  assumes "reliable_os os" "root_safe (fsys w) p" "srv_path sv = string_of_path p"
    and "reachable os (init_state sv w) st"
    and "deliver (\<lambda>_. handle_signal) (setup_signal sigs) sig st = Some st0" "sig \<in> {SIGINT, SIGTERM}"
    and "reachable os st0 st1"
  shows "\<exists>st2. serve os (((\<lambda>s. s), result) # inputs) st1 = Inr (Some st2) \<and>
    srv_sockfd sv \<notin> open_fds (sys st2) \<and>
    (\<forall>k. 1 \<le> k \<and> k < MAX_CLIENTS + 1 \<and> 0 \<le> pollfds st1 ! k \<longrightarrow>
      pollfds st1 ! k \<notin> open_fds (sys st2) \<and>
      Sent (self_pid (sys st1)) (pollfds st1 ! k) msg_closing \<in> set (trace (sys st2)))"
proof -
  have st0: "st0 = handle_signal st"
    using assms(5,6) by (auto simp: deliver_def setup_signal_def split: if_splits)
  have run: "reachable os (init_state sv w) st1"
    using assms(7) reachable.step [OF assms(4) server_step.signal] unfolding st0 by (rule reachable_trans)
  have "server_inv p st1" using run assms(1) init_state_inv [OF assms(2,3)] by (rule reachable_inv)
  moreover have "srv st1 = sv"
    using reachable_server [OF run] by (simp add: same_server_def init_state_def)
  moreover have "stop_server st1"
    using reachable_server [OF assms(7)] by (simp add: same_server_def st0 handle_signal_def)
  ultimately show ?thesis
    using shutdown_closes_all [of p st1] by (auto simp: is_server_stopped_def)
qed

theorem signal_ends_server_witness:
  "\<exists>st2. serve demo_os [((\<lambda>s. s), Poll_error True)]
      (handle_signal (accept_new_connection demo_os (init_state demo_server demo_world))) =
      Inr (Some st2) \<and> srv_sockfd demo_server \<notin> open_fds (sys st2)"
proof -
  let ?st = "accept_new_connection demo_os (init_state demo_server demo_world)"
  have "reachable demo_os (init_state demo_server demo_world) ?st"
    by (rule reachable.step [OF reachable.start server_step.turn [OF demo_turn]])
  moreover have "srv_path demo_server = string_of_path [''srv'', ''ftp'']"
    by (simp add: demo_server_def demo_root_def)
  moreover have "deliver (\<lambda>_. handle_signal) (setup_signal (\<lambda>_. Sig_default)) SIGINT ?st =
      Some (handle_signal ?st)" by (rule signals_after_setup(1)) simp
  ultimately show ?thesis
    using signal_ends_server [OF demo_reliable demo_root_safe, of demo_server ?st "\<lambda>_. Sig_default"
        SIGINT "handle_signal ?st" "handle_signal ?st" "Poll_error True" "[]"] reachable.start
    by blast
qed

end
