(* ===== verification/Startup.thy ===== *)
theory Startup
  imports Server
begin

text \<open>
  \<open>main\<close> up to the loop: which arguments start a server, with which root directory, and the exit
  codes of the runs that do not.
\<close>

section \<open>The listening socket\<close>

lemma getcwd_cong: "fsys w' = fsys w \<Longrightarrow> cwd w' = cwd w \<Longrightarrow> getcwd w' = getcwd w"
  by (simp add: getcwd_def)

lemma setup_socket_started:
  assumes "setup_socket os port path w = (sv, w')" "srv_sockfd sv \<noteq> 0"
  shows "srv_sockfd sv \<noteq> -1 \<and> srv_addr sv = init_sockin port \<and> fsys w' = fsys w \<and>
    cwd w' = (case fs_chdir (fsys w) (cwd w) path of None \<Rightarrow> cwd w | Some p \<Rightarrow> p) \<and>
    getcwd w' = Some (srv_path sv)"
proof -
  have z: "srv_sockfd zero_server = 0" by (simp add: zero_server_def)
  define fd w1 where "fd = fst (setup_socket_fd os w)" and "w1 = snd (setup_socket_fd os w)"
  define w2 where "w2 = snd (bind_socket os fd (init_sockin port) w1)"
  define w3 where "w3 = snd (listen_socket os fd w2)"
  have "quiet w w1" unfolding w1_def by (rule setup_socket_fd_quiet)
  also have "quiet w1 w2" unfolding w2_def by (rule bind_socket_quiet)
  also have "quiet w2 w3" unfolding w3_def by (rule listen_socket_quiet)
  finally have q: "quiet w w3" .
  from assms z have "fd \<noteq> -1" "w' = snd (chdir path w3)" "getcwd w' = Some (srv_path sv)"
    "srv_sockfd sv = fd" "srv_addr sv = init_sockin port"
    by (auto simp: setup_socket_def fd_def w1_def w2_def w3_def Let_def case_prod_beta
        split: if_splits option.splits)
  then show ?thesis
    using quietD [OF q] by (auto simp: chdir_def split: option.splits)
qed

lemma main_cases:
  "fst (main os av w) =
     (if length av \<noteq> 3 then Inl 84
      else if strcmp (av ! 1) ''-help'' = 0 then Inl 0
      else if atoi (av ! 1) \<in> {1..65535} \<and> fs_access (fsys w) (cwd w) (av ! 2) then
        (if srv_sockfd (fst (setup_socket os (atoi (av ! 1)) (av ! 2) w)) = 0 then Inl 0
         else Inr (fst (setup_socket os (atoi (av ! 1)) (av ! 2) w)))
      else Inl 84)"
  by (auto simp: main_def myftp_def check_args_def check_path_def Let_def case_prod_beta)

section \<open>Properties\<close>

text \<open>
  What the start-up checks ensure: a server is only started with two arguments, a
  port between 1 and 65535 and a path that exists; it listens on that port, and its root is the
  working directory it then has.
\<close>

lemma main_start_checks:
  assumes "main os av w = (Inr sv, w')"
  shows "length av = 3 \<and> 1 \<le> atoi (av ! 1) \<and> atoi (av ! 1) \<le> 65535 \<and>
    fs_access (fsys w) (cwd w) (av ! 2) \<and>
    sin_port (srv_addr sv) = word_of_int (atoi (av ! 1)) \<and>
    srv_sockfd sv \<noteq> 0 \<and> srv_sockfd sv \<noteq> -1 \<and> getcwd w' = Some (srv_path sv)"
proof -
  from assms have m: "length av = 3" "1 \<le> atoi (av ! 1)" "atoi (av ! 1) \<le> 65535"
    "fs_access (fsys w) (cwd w) (av ! 2)" "myftp os (atoi (av ! 1)) (av ! 2) w = (Inr sv, w')"
    by (auto simp: main_def check_args_def check_path_def Let_def
        split: if_splits sum.splits prod.splits)
  from m(5) obtain w1 where s: "setup_socket os (atoi (av ! 1)) (av ! 2) w = (sv, w1)" "srv_sockfd sv \<noteq> 0"
    and w': "fsys w' = fsys w1" "cwd w' = cwd w1"
    by (auto simp: myftp_def Let_def split: if_splits prod.splits)
  from setup_socket_started [OF s] m(1-4) s(2) getcwd_cong [OF w'] show ?thesis
    by (simp add: init_sockin_def)
qed

lemma main_start_checks_witness:
  "\<exists>sv w'. main demo_os [''./myftp'', ''4242'', ''/srv/ftp''] demo_world = (Inr sv, w') \<and>
    srv_sockfd sv \<noteq> 0 \<and> getcwd w' = Some (srv_path sv)"
proof -
  let ?m = "main demo_os [''./myftp'', ''4242'', ''/srv/ftp''] demo_world"
  have "atoi ''4242'' = 4242" "strcmp ''4242'' ''-help'' \<noteq> 0" by code_simp+
  moreover have "fs_access (fsys demo_world) (cwd demo_world) ''/srv/ftp''" by code_simp
  moreover have "srv_sockfd (fst (setup_socket demo_os 4242 ''/srv/ftp'' demo_world)) \<noteq> 0" by code_simp
  ultimately have "isl (fst ?m) = False" by (simp add: main_cases)
  then obtain sv w' where m: "?m = (Inr sv, w')" by (cases ?m; cases "fst ?m") auto
  from main_start_checks [OF m] m show ?thesis by simp
qed

text \<open>
  A path that exists but is no directory passes the checks, because the result of
  \<open>chdir\<close> is not looked at: the server starts and serves the directory it was started in.
\<close>

lemma main_serves_start_directory:
  assumes "main os av w = (Inr sv, w')" "fs_chdir (fsys w) (cwd w) (av ! 2) = None"
  shows "Some (srv_path sv) = getcwd w \<and> cwd w' = cwd w"
proof -
  from assms(1) obtain w1 where s: "setup_socket os (atoi (av ! 1)) (av ! 2) w = (sv, w1)" "srv_sockfd sv \<noteq> 0"
    and w': "fsys w' = fsys w1" "cwd w' = cwd w1"
    by (auto simp: main_def myftp_def check_args_def check_path_def Let_def
        split: if_splits sum.splits prod.splits)
  from setup_socket_started [OF s] assms(2)
  have "fsys w1 = fsys w" "cwd w1 = cwd w" "getcwd w1 = Some (srv_path sv)" by simp_all
  then show ?thesis using w' getcwd_cong [of w1 w] by simp
qed

lemma main_serves_start_directory_witness:
  "\<exists>sv w'. main demo_os [''./myftp'', ''4242'', ''pub/a''] demo_world = (Inr sv, w') \<and>
    Some (srv_path sv) = getcwd demo_world \<and> cwd w' = cwd demo_world"
proof -
  let ?m = "main demo_os [''./myftp'', ''4242'', ''pub/a''] demo_world"
  have "atoi ''4242'' = 4242" "strcmp ''4242'' ''-help'' \<noteq> 0" by code_simp+
  moreover have "fs_access (fsys demo_world) (cwd demo_world) ''pub/a''" by code_simp
  moreover have "srv_sockfd (fst (setup_socket demo_os 4242 ''pub/a'' demo_world)) \<noteq> 0" by code_simp
  ultimately have "isl (fst ?m) = False" by (simp add: main_cases)
  then obtain sv w' where m: "?m = (Inr sv, w')" by (cases ?m; cases "fst ?m") auto
  have "fs_chdir (fsys demo_world) (cwd demo_world) ([''./myftp'', ''4242'', ''pub/a''] ! 2) = None"
    by code_simp
  from main_serves_start_directory [OF m this] m show ?thesis by simp
qed

text \<open>
  The exit codes of the runs that start no server: 84 without exactly two
  arguments, which includes \<open>-help\<close> on its own; 0 with \<open>-help\<close> and one argument more; 84 for a
  bad port or a path that does not exist; and 0, not 84, when the socket cannot be set up.
\<close>

lemma main_exit_codes:
  "fst (main os av w) =
     (if length av \<noteq> 3 then Inl 84
      else if strcmp (av ! 1) ''-help'' = 0 then Inl 0
      else if atoi (av ! 1) \<in> {1..65535} \<and> fs_access (fsys w) (cwd w) (av ! 2) then
        (if srv_sockfd (fst (setup_socket os (atoi (av ! 1)) (av ! 2) w)) = 0 then Inl 0
         else Inr (fst (setup_socket os (atoi (av ! 1)) (av ! 2) w)))
      else Inl 84)"
  by (rule main_cases)

end
