(* ===== verification/Client_World.thy ===== *)
theory Client_World
  imports File_Stream
begin

text \<open>
  The client of \<open>bonus/\<close>: its data types (\<open>bonus/include/myftp.h\<close>), the runs of its functions,
  and \<open>bonus/src/reading.c\<close>, \<open>utils.c\<close> and \<open>signal.c\<close>.  The client is a process of its own with a
  \<open>world\<close> of its own: \<open>fsys\<close> and \<open>cwd\<close> are the files on its side, \<open>net_in w 0\<close> is what the user
  types, and \<open>net_in w fd\<close> what the successive reads of the control socket return.
\<close>

section \<open>The data types\<close>

record client_data_socket_t =
  cds_sockfd :: int
  cds_addr :: sockaddr
  cds_address :: "int list"
  cds_port :: int

text \<open>
  \<open>cl_data_socket\<close> is \<open>None\<close> for the NULL pointer; \<open>malloc\<close> leaves the field unset, and every
  function that reads it runs after \<open>initialize_client_data_socket\<close> has written it.
\<close>

record client_t =
  cl_sockfd :: int
  cl_port :: int
  cl_ip :: string
  cl_data_socket :: "client_data_socket_t option"

text \<open>
  The environment of the client: the system calls, the flag that the signal handler sets, whether
  a signal interrupts a read that waits, and whether \<open>errno\<close> holds an error other than \<open>EINTR\<close>.
\<close>

record client_env =
  env_os :: os
  env_stopped :: "world \<Rightarrow> bool"
  env_interrupt :: "world \<Rightarrow> bool"
  env_errno :: "world \<Rightarrow> bool"

section \<open>Runs\<close>

text \<open>
  A call can end with a result, run into a fault, or wait in a read for bytes that are not there.
\<close>

datatype 'a run = Crash fault | Waits world | Done 'a world

fun and_then :: "'a run \<Rightarrow> ('a \<Rightarrow> world \<Rightarrow> 'b run) \<Rightarrow> 'b run" where
  "and_then (Crash e) k = Crash e"
| "and_then (Waits w) k = Waits w"
| "and_then (Done a w) k = k a w"

lemma and_then_assoc [simp]:
  "and_then (and_then m k) h = and_then m (\<lambda>a w. and_then (k a w) h)"
  by (cases m) auto

lemma and_then_cong [fundef_cong]:
  "m = m' \<Longrightarrow> (\<And>a w. m' = Done a w \<Longrightarrow> k a w = k' a w) \<Longrightarrow> and_then m k = and_then m' k'"
  by (cases m') auto

lemma and_then_Done:
  "and_then m k = Done b w' \<longleftrightarrow> (\<exists>a w. m = Done a w \<and> k a w = Done b w')"
  by (cases m) auto

text \<open>\<open>on_done P m\<close>: if the run \<open>m\<close> returns, its result and the world it leaves satisfy \<open>P\<close>.\<close>

fun on_done :: "('a \<Rightarrow> world \<Rightarrow> bool) \<Rightarrow> 'a run \<Rightarrow> bool" where
  "on_done P (Done a w) \<longleftrightarrow> P a w"
| "on_done P _ \<longleftrightarrow> True"

lemma on_done_bind:
  "(\<And>a w. m = Done a w \<Longrightarrow> on_done P (k a w)) \<Longrightarrow> on_done P (and_then m k)"
  by (cases m) auto

lemma on_doneD: "on_done P m \<Longrightarrow> m = Done a w \<Longrightarrow> P a w"
  by simp

lemma on_done_mono: "on_done P m \<Longrightarrow> (\<And>a w. P a w \<Longrightarrow> Q a w) \<Longrightarrow> on_done Q m"
  by (cases m) auto

section \<open>Signals\<close>

text \<open>The flag \<open>stop_client\<close>, which \<open>handle_signal\<close> sets.\<close>

definition client_handle_signal :: "int \<Rightarrow> bool \<Rightarrow> bool" where
  "client_handle_signal sig stop_client = True"

definition client_setup_signal :: "signals \<Rightarrow> signals" where
  "client_setup_signal sigs = sigs(SIGINT := Sig_handler, SIGTERM := Sig_handler)"

lemma client_signals_after_setup:
  "deliver client_handle_signal (client_setup_signal sigs) SIGINT stop_client = Some True"
  "deliver client_handle_signal (client_setup_signal sigs) SIGTERM stop_client = Some True"
  by (simp_all add: deliver_def client_setup_signal_def client_handle_signal_def SIGINT_def SIGTERM_def)

definition is_client_stopped :: "client_env \<Rightarrow> world \<Rightarrow> bool" where
  "is_client_stopped env w = env_stopped env w"

section \<open>Reading\<close>

text \<open>
  The user's terminal is one stream for the whole run, so what \<open>getline\<close> has read ahead stays in
  front of what follows.  A read that a signal interrupts ends the line like the end of the
  stream.
\<close>

definition read_input :: "client_env \<Rightarrow> world \<Rightarrow> string option run" where
  "read_input env w =
     (let (line, rest, chunks) =
            stream_getline [] (net_in w 0) (net_eof w 0 \<or> env_interrupt env w);
          w = w\<lparr>net_in := (net_in w)(0 := if rest = [] then chunks else rest # chunks)\<rparr>
      in case line of
           Would_block \<Rightarrow> Waits w
         | At_eof \<Rightarrow> Done None (if env_errno env w then perror ''getline'' w else w)
         | Line buffer \<Rightarrow> Done (Some buffer) w)"

text \<open>
  Each call makes a new stream for the socket: the bytes it has read ahead are gone with it.
\<close>

definition read_response :: "client_env \<Rightarrow> int \<Rightarrow> world \<Rightarrow> string option run" where
  "read_response env sockfd w =
     (if \<not> os_fdopen (env_os env) w sockfd then Crash Null_deref
      else
        let (line, rest, chunks) =
              stream_getline [] (net_in w sockfd) (net_eof w sockfd \<or> env_interrupt env w);
            w = w\<lparr>net_in := (net_in w)(sockfd := chunks)\<rparr>
        in case line of
             Would_block \<Rightarrow> Waits w
           | At_eof \<Rightarrow> Done None (if env_errno env w then perror ''getline'' w else w)
           | Line buffer \<Rightarrow> Done (Some buffer) w)"

text \<open>\<open>strncmp(response, code, 3) == 0\<close>, and the string at \<open>response + 4\<close>.\<close>

definition has_code :: "string \<Rightarrow> string \<Rightarrow> bool" where
  "has_code code response \<longleftrightarrow> strncmp (c_str response) code 3 = 0"

definition after_code :: "string \<Rightarrow> string result" where
  "after_code response =
     (if length response < 4 then Inl Uninit_read else Inr (c_str (drop 4 response)))"

section \<open>utils.c\<close>

text \<open>Copies of the server's helpers, with the same effect.\<close>

definition client_touppercase :: "string \<Rightarrow> string" where
  "client_touppercase str =
     map (\<lambda>c. if of_char (CHR ''a'') \<le> (of_char c :: nat) \<and> (of_char c :: nat) \<le> of_char (CHR ''z'')
              then char_of (of_char c - 32 :: nat) else c) str"

definition client_trim :: "string \<Rightarrow> string" where
  "client_trim str =
     (if str = [] then str
      else let start = trim_start str
           in if start = [] then [] else trim_end start)"

definition client_merge_port :: "(int \<times> int) option \<Rightarrow> int" where
  "client_merge_port ports =
     (case ports of
        None \<Rightarrow> -1
      | Some (p0, p1) \<Rightarrow>
          if p0 < 0 \<or> p0 > 255 \<or> p1 < 0 \<or> p1 > 255 then -1 else p0 * 256 + p1)"

lemma client_utils [simp]:
  "client_touppercase = touppercase" "client_trim = trim" "client_merge_port = merge_port"
  by (intro ext, simp add: client_touppercase_def touppercase_def client_trim_def trim_def
      client_merge_port_def merge_port_def)+

text \<open>\<open>strrchr(filepath, '/')\<close>; \<open>alloc\<close> says whether \<open>strdup\<close> succeeds.\<close>

definition get_filename_from_filepath :: "bool \<Rightarrow> string \<Rightarrow> string option" where
  "get_filename_from_filepath alloc filepath =
     (if alloc then Some (List.rev (takeWhile (\<lambda>c. c \<noteq> SLASH) (List.rev filepath))) else None)"

section \<open>What every step of the client keeps\<close>

text \<open>
  \<open>talks w w'\<close>: from \<open>w\<close> to \<open>w'\<close> the client may have read from its streams and written to its
  sockets and its terminal; its files and its directory are the same, and no read gives bytes
  back.
\<close>

named_theorems talking_intros "the client keeps to its streams and its directory"

definition input_left :: "int \<Rightarrow> world \<Rightarrow> nat" where
  "input_left fd w = length (concat (net_in w fd))"

definition talks :: "world \<Rightarrow> world \<Rightarrow> bool" where
  "talks w w' \<longleftrightarrow>
     self_pid w' = self_pid w \<and> fsys w' = fsys w \<and> cwd w' = cwd w \<and> jobs w' = jobs w \<and>
     net_eof w' = net_eof w \<and>
     (\<forall>fd. input_left fd w' \<le> input_left fd w) \<and> prefix (trace w) (trace w')"

lemma talks_refl [simp]: "talks w w"
  by (simp add: talks_def)

lemma talks_trans [trans]: "talks w w' \<Longrightarrow> talks w' w'' \<Longrightarrow> talks w w''"
  unfolding talks_def by (auto intro: le_trans prefix_order.trans)

lemma talks_input: "talks w w' \<Longrightarrow> input_left fd w' \<le> input_left fd w"
  by (simp add: talks_def)

lemma talks_same:
  "self_pid w' = self_pid w \<Longrightarrow> fsys w' = fsys w \<Longrightarrow> cwd w' = cwd w \<Longrightarrow> jobs w' = jobs w \<Longrightarrow> net_eof w' = net_eof w \<Longrightarrow>
   net_in w' = net_in w \<Longrightarrow> prefix (trace w) (trace w') \<Longrightarrow> talks w w'"
  by (simp add: talks_def input_left_def)

lemma talks_quiet: "quiet w w' \<Longrightarrow> talks w w'"
  by (auto simp: quiet_def talks_def input_left_def)

lemma talks_steps [simp]:
  "talks w (printf s w)" "talks w (eprintf s w)" "talks w (perror s w)" "talks w (dprintf fd s w)"
  "talks w (close fd w)" "talks w (snd (socket os w))"
  by (rule talks_same; simp)+

lemma talks_then [talking_intros, intro]:
  "talks w w1 \<Longrightarrow> talks w (printf s w1)" "talks w w1 \<Longrightarrow> talks w (eprintf s w1)"
  "talks w w1 \<Longrightarrow> talks w (perror s w1)" "talks w w1 \<Longrightarrow> talks w (dprintf fd s w1)"
  "talks w w1 \<Longrightarrow> talks w (close fd w1)" "talks w w1 \<Longrightarrow> talks w (snd (socket os w1))"
  by (rule talks_trans, assumption, simp)+

text \<open>What \<open>getline\<close> leaves is never more than what was there, and less when it returns a line.\<close>

lemma stream_getline_left:
  assumes "stream_getline buf chunks eof = (line, rest, cs)"
  shows "length rest + length (concat cs) \<le> length buf + length (concat chunks)"
    and "line = Line l \<Longrightarrow> l \<noteq> [] \<and> length rest + length (concat cs) < length buf + length (concat chunks)"
proof -
  let ?s = "buf @ concat chunks"
  have line: "line = line_of ?s eof" and rest: "rest @ concat cs = rest_of ?s eof"
    using stream_getline_eq [of buf chunks eof] assms by auto
  have tl: "length (tl (dropWhile P x)) \<le> length x" for P :: "char \<Rightarrow> bool" and x
    using length_dropWhile_le [of P x] by simp
  have le: "length (rest_of s eof) \<le> length s" for s
    using tl [of "\<lambda>c. c \<noteq> LF" s] unfolding rest_of_def by (simp del: length_tl)
  show "length rest + length (concat cs) \<le> length buf + length (concat chunks)"
    using arg_cong [OF rest, of length] le [of ?s] by simp
  assume "line = Line l"
  with line have l: "line_of ?s eof = Line l" by simp
  have "length (rest_of ?s eof) < length ?s" if "LF \<in> set ?s"
  proof -
    from that have "dropWhile (\<lambda>c. c \<noteq> LF) ?s \<noteq> []" by (auto simp: dropWhile_eq_Nil_conv)
    then have "length (tl (dropWhile (\<lambda>c. c \<noteq> LF) ?s)) < length (dropWhile (\<lambda>c. c \<noteq> LF) ?s)" by simp
    also have "\<dots> \<le> length ?s" by (rule length_dropWhile_le)
    finally show ?thesis using that by (simp only: rest_of_def if_True)
  qed
  then have "l \<noteq> [] \<and> length (rest_of ?s eof) < length ?s"
    using l by (auto simp: line_of_def rest_of_def split: if_splits)
  then show "l \<noteq> [] \<and> length rest + length (concat cs) < length buf + length (concat chunks)"
    using arg_cong [OF rest, of length] by simp
qed

lemma read_input_talks:
  "on_done (\<lambda>r w'. talks w w' \<and> (\<forall>l. r = Some l \<longrightarrow> l \<noteq> [] \<and> input_left 0 w' < input_left 0 w))
     (read_input env w)"
proof -
  obtain line rest cs where g: "stream_getline [] (net_in w 0) (net_eof w 0 \<or> env_interrupt env w) =
      (line, rest, cs)" by (metis prod_cases3)
  let ?w = "w\<lparr>net_in := (net_in w)(0 := if rest = [] then cs else rest # cs)\<rparr>"
  have "talks w ?w" using stream_getline_left(1) [OF g] by (simp add: talks_def input_left_def)
  moreover have "l \<noteq> [] \<and> input_left 0 ?w < input_left 0 w" if "line = Line l" for l
    using stream_getline_left(2) [OF g that] by (auto simp: input_left_def)
  ultimately show ?thesis by (cases line) (auto simp: read_input_def g Let_def)
qed

text \<open>
  The same for runs: \<open>talking w m\<close>, for a run \<open>m\<close> that started in \<open>w\<close>.  The rules follow the
  structure of the functions, so that most of them are one application of \<open>talking\<close>.
\<close>

definition talking :: "world \<Rightarrow> 'a run \<Rightarrow> bool" where
  "talking w m \<longleftrightarrow> on_done (\<lambda>_ w'. talks w w') m"

lemma talking_simps [simp]:
  "talking w (Done a w') \<longleftrightarrow> talks w w'" "talking w (Crash e)" "talking w (Waits w')"
  by (simp_all add: talking_def)

lemma talking_bind [talking_intros]:
  "talking w m \<Longrightarrow> (\<And>a w1. m = Done a w1 \<Longrightarrow> talks w w1 \<Longrightarrow> talking w (k a w1)) \<Longrightarrow>
   talking w (and_then m k)"
  by (cases m) (auto simp: talking_def)

lemma talkingD: "talking w m \<Longrightarrow> m = Done a w' \<Longrightarrow> talks w w'"
  by (simp add: talking_def)

lemma talking_from: "talks w w1 \<Longrightarrow> talking w1 m \<Longrightarrow> talking w m"
  by (cases m) (auto simp: talking_def intro: talks_trans)

lemma read_input_talking [talking_intros]: "talks w w1 \<Longrightarrow> talking w (read_input env w1)"
  by (rule talking_from) (auto simp: talking_def intro: on_done_mono [OF read_input_talks])

lemma read_response_talking [talking_intros]:
  "talks w w1 \<Longrightarrow> talking w (read_response env fd w1)"
proof (rule talking_from)
  obtain line rest cs where g: "stream_getline [] (net_in w1 fd) (net_eof w1 fd \<or> env_interrupt env w1) =
      (line, rest, cs)" by (metis prod_cases3)
  have "talks w1 (w1\<lparr>net_in := (net_in w1)(fd := cs)\<rparr>)"
    using stream_getline_left(1) [OF g] by (simp add: talks_def input_left_def)
  then show "talking w1 (read_response env fd w1)"
    by (cases line) (auto simp: read_response_def g Let_def)
qed

text \<open>
  \<open>downloads w w'\<close>: the client may also have written files, but only those that a name without a
  slash leads to from its directory; they were missing or plain files and are plain files now.
\<close>

definition local_writes :: "world \<Rightarrow> world \<Rightarrow> bool" where
  "local_writes w w' \<longleftrightarrow>
     (\<forall>q. lookup (fsys w') q \<noteq> lookup (fsys w) q \<longrightarrow>
        (\<exists>filename. SLASH \<notin> set filename \<and>
           resolve (fsys w) (cwd w) filename \<in> {Found q, Missing q}) \<and>
        (\<exists>m data. lookup (fsys w') q = Some (File m True data)) \<and>
        (lookup (fsys w) q = None \<or> (\<exists>m data. lookup (fsys w) q = Some (File m True data))))"

definition downloads :: "world \<Rightarrow> world \<Rightarrow> bool" where
  "downloads w w' \<longleftrightarrow> talks w (w'\<lparr>fsys := fsys w\<rparr>) \<and> local_writes w w'"

lemma talks_downloads:
  assumes "talks w w'"
  shows "downloads w w'"
proof -
  from assms have fs: "fsys w' = fsys w" by (simp add: talks_def)
  then have "w'\<lparr>fsys := fsys w\<rparr> = w'" by (intro world.equality) simp_all
  with assms fs show ?thesis by (simp only: downloads_def local_writes_def) simp
qed

lemma talks_then_downloads:
  assumes "talks w w1" "downloads w1 w2"
  shows "downloads w w2"
proof -
  have "fsys w1 = fsys w" "cwd w1 = cwd w" using assms(1) by (simp_all add: talks_def)
  then show ?thesis
    using assms by (auto simp: downloads_def local_writes_def intro: talks_trans)
qed

lemma downloads_then:
  assumes "downloads w w1"
  shows "downloads w (printf s w1)" "downloads w (close fd w1)"
  using assms by (auto simp: downloads_def local_writes_def talks_def input_left_def
      intro: prefix_order.trans)

lemma basename_no_slash:
  "get_filename_from_filepath a path = Some filename \<Longrightarrow> SLASH \<notin> set filename"
  by (auto simp: get_filename_from_filepath_def dest!: set_takeWhileD split: if_splits)

section \<open>Packets\<close>

text \<open>
  The next packet on the control socket holds a whole line: that line is the response, and the
  rest of the packet is lost.
\<close>

lemma read_response_packet:
  assumes "net_in w fd = (l @ LF # later) # ps" "LF \<notin> set l" "os_fdopen (env_os env) w fd"
  shows "read_response env fd w = Done (Some (l @ [LF])) (w\<lparr>net_in := (net_in w)(fd := ps)\<rparr>)"
proof -
  have "takeWhile (\<lambda>c. c \<noteq> LF) (l @ LF # later) = l" using assms(2) by (induction l) auto
  then have "\<exists>rest. stream_getline [] (net_in w fd) e = (Line (l @ [LF]), rest, ps)" for e
    using assms(1) by (simp add: stream_getline.simps)
  then obtain rest where
    "stream_getline [] (net_in w fd) (net_eof w fd \<or> env_interrupt env w) = (Line (l @ [LF]), rest, ps)"
    by blast
  then show ?thesis using assms(3) by (simp add: read_response_def)
qed

text \<open>With no packet left, and neither the end of the stream nor a signal, the client waits.\<close>

lemma read_response_waits:
  assumes "net_in w fd = []" "\<not> net_eof w fd" "\<not> env_interrupt env w" "os_fdopen (env_os env) w fd"
  shows "read_response env fd w = Waits (w\<lparr>net_in := (net_in w)(fd := [])\<rparr>)"
  using assms by (simp add: read_response_def stream_getline.simps)

end
