(* ===== verification/Client_Data_Socket.thy ===== *)
theory Client_Data_Socket
  imports Client_World
begin

text \<open>
  The sockets of the client: \<open>bonus/src/socket.c\<close>, \<open>data_socket.c\<close> and the destructors of
  \<open>destroyers.c\<close>.  The client only knows passive transfers: it asks for an address with PASV and
  connects to it.
\<close>

section \<open>socket.c\<close>

definition client_init_sockin :: "string \<Rightarrow> int \<Rightarrow> world \<Rightarrow> sockaddr \<times> world" where
  "client_init_sockin ip port w =
     (case inet_pton ip of
        None \<Rightarrow> (zero_sockaddr, perror ''inet_pton'' w)
      | Some a \<Rightarrow> (\<lparr>sin_addr = a, sin_port = word_of_int port\<rparr>, w))"

section \<open>destroyers.c\<close>

definition client_destroy_data_socket :: "client_data_socket_t option \<Rightarrow> world \<Rightarrow> world" where
  "client_destroy_data_socket dsock w =
     (case dsock of
        None \<Rightarrow> w
      | Some ds \<Rightarrow> if cds_sockfd ds \<noteq> -1 then close (cds_sockfd ds) w else w)"

definition destroy_client :: "client_t option \<Rightarrow> world \<Rightarrow> world" where
  "destroy_client client w =
     (case client of
        None \<Rightarrow> w
      | Some client \<Rightarrow>
          if cl_sockfd client \<noteq> -1
          then close (cl_sockfd client) (dprintf (cl_sockfd client) (''QUIT'' @ crlf) w)
          else w)"

section \<open>data_socket.c\<close>

text \<open>The fields that are still unset have no value here: only the descriptor is returned.\<close>

definition client_init_data_socket :: "os \<Rightarrow> world \<Rightarrow> int option \<times> world" where
  "client_init_data_socket os w =
     (if \<not> os_malloc os w Alloc_data_socket then (None, perror ''malloc'' w)
      else
        let (fd, w) = socket os w
        in if fd = -1 then (None, perror ''socket'' w) else (Some fd, w))"

definition init_data_socket_sockin :: "int list \<Rightarrow> int \<Rightarrow> sockaddr" where
  "init_data_socket_sockin address port =
     \<lparr>sin_addr = word_of_int (address ! 0 * 2 ^ 24 + address ! 1 * 2 ^ 16 + address ! 2 * 2 ^ 8 +
                   address ! 3),
      sin_port = word_of_int port\<rparr>"

text \<open>
  \<open>host_port\<close> are the six cells of the array; reading one that \<open>sscanf\<close> did not write is a
  fault.  The last two are read before the results of \<open>malloc\<close> are looked at.
\<close>

definition setup_data_socket ::
    "os \<Rightarrow> int option list \<Rightarrow> world \<Rightarrow> client_data_socket_t option run" where
  "setup_data_socket os host_port w =
     (let (dsock, w) = client_init_data_socket os w;
          address_ok = os_malloc os w Alloc_address
      in case (host_port ! 4, host_port ! 5) of
           (Some p0, Some p1) \<Rightarrow>
             (let port = client_merge_port (Some (p0, p1))
              in case dsock of
                   None \<Rightarrow> Done None (perror ''malloc'' w)
                 | Some fd \<Rightarrow>
                     if \<not> address_ok then Done None (perror ''malloc'' w)
                     else if None \<in> set (take 4 host_port) then Crash Uninit_read
                     else
                       let address = map the (take 4 host_port)
                       in Done (Some \<lparr>cds_sockfd = fd,
                                  cds_addr = init_data_socket_sockin address port,
                                  cds_address = address, cds_port = port\<rparr>) w)
         | _ \<Rightarrow> Crash Uninit_read)"

definition send_pasv_command :: "client_env \<Rightarrow> client_t \<Rightarrow> world \<Rightarrow> string option run" where
  "send_pasv_command env client w =
     (let w = dprintf (cl_sockfd client) (''PASV'' @ crlf) w
      in and_then (read_response env (cl_sockfd client) w) (\<lambda>response w.
           case response of
             None \<Rightarrow> Done None (eprintf (''Error reading PASV response'' @ [LF]) w)
           | Some response \<Rightarrow>
               if \<not> has_code ''227'' response
               then Done None (eprintf (''Error: '' @ c_str response @ [LF]) w)
               else Done (Some response) w))"

definition pasv_format :: string where
  "pasv_format = ''227 Entering Passive Mode (%d,%d,%d,%d,%d,%d)''"

text \<open>The six cells: those \<open>sscanf\<close> fills, then the ones it leaves as \<open>malloc\<close> made them.\<close>

definition parse_pasv_response ::
    "os \<Rightarrow> string \<Rightarrow> world \<Rightarrow> int option list option \<times> world" where
  "parse_pasv_response os response w =
     (if \<not> os_malloc os w Alloc_host_port then (None, perror ''malloc'' w)
      else
        let values = sscanf pasv_format (c_str response)
        in (Some (map Some values @ replicate (6 - length values) None), w))"

definition create_data_socket ::
    "client_env \<Rightarrow> client_t \<Rightarrow> world \<Rightarrow> client_data_socket_t option run" where
  "create_data_socket env client w =
     and_then (send_pasv_command env client w) (\<lambda>response w.
       case response of
         None \<Rightarrow> Done None w
       | Some response \<Rightarrow>
           (case parse_pasv_response (env_os env) response w of
              (None, w) \<Rightarrow> Done None w
            | (Some host_port, w) \<Rightarrow> setup_data_socket (env_os env) host_port w))"

definition connect_data_socket ::
    "os \<Rightarrow> client_data_socket_t \<Rightarrow> world \<Rightarrow> command_status_t \<times> world" where
  "connect_data_socket os ds w =
     (if \<not> os_connect os w (cds_sockfd ds) (cds_addr ds)
      then (COMMAND_FAILURE, perror ''connect'' w)
      else (COMMAND_SUCCESS, w))"

definition initialize_client_data_socket ::
    "client_env \<Rightarrow> client_t \<Rightarrow> world \<Rightarrow> (command_status_t \<times> client_t) run" where
  "initialize_client_data_socket env client w =
     and_then (create_data_socket env client w) (\<lambda>dsock w.
       let client = client\<lparr>cl_data_socket := dsock\<rparr>
       in case dsock of
            None \<Rightarrow> Done (COMMAND_FAILURE, client) (eprintf (''Error creating data socket'' @ [LF]) w)
          | Some ds \<Rightarrow>
              (case connect_data_socket (env_os env) ds w of
                 (st, w) \<Rightarrow>
                   if st = COMMAND_FAILURE then Done (COMMAND_FAILURE, client) w
                   else Done (COMMAND_SUCCESS, client) w))"

section \<open>What setting up a data socket keeps\<close>

lemma destroy_data_socket_talks [talking_intros]:
  "talks w w1 \<Longrightarrow> talks w (client_destroy_data_socket d w1)"
  by (auto simp: client_destroy_data_socket_def split: option.splits)

lemma init_data_socket_talks: "talks w (snd (client_init_data_socket os w))"
  by (auto simp: client_init_data_socket_def Let_def case_prod_beta)

lemma setup_data_socket_talking [talking_intros]:
  "talks w w1 \<Longrightarrow> talking w (setup_data_socket os host_port w1)"
  by (rule talking_from)
    (auto simp: setup_data_socket_def Let_def case_prod_beta init_data_socket_talks
      split: option.splits)

lemma send_pasv_talking [talking_intros]:
  "talks w w1 \<Longrightarrow> talking w (send_pasv_command env client w1)"
  by (auto simp: send_pasv_command_def Let_def intro!: talking_intros split: option.splits)

lemma parse_pasv_talks: "parse_pasv_response os r w = (h, w') \<Longrightarrow> talks w w'"
  by (auto simp: parse_pasv_response_def Let_def split: if_splits)

lemma create_data_socket_talking [talking_intros]:
  "talks w w1 \<Longrightarrow> talking w (create_data_socket env client w1)"
  by (auto simp: create_data_socket_def intro!: talking_intros intro: talks_trans [OF _ parse_pasv_talks]
      split: option.splits prod.splits)

lemma initialize_talking [talking_intros]:
  "talks w w1 \<Longrightarrow> talking w (initialize_client_data_socket env client w1)"
  by (auto simp: initialize_client_data_socket_def connect_data_socket_def Let_def
      intro!: talking_intros split: option.splits)

lemma initialize_result:
  "initialize_client_data_socket env client w = Done (st, client') w' \<Longrightarrow>
   (\<exists>d. client' = client\<lparr>cl_data_socket := d\<rparr>) \<and> st \<noteq> COMMAND_NOT_FOUND \<and>
   (st \<noteq> COMMAND_FAILURE \<longrightarrow> cl_data_socket client' \<noteq> None)"
  by (auto simp: initialize_client_data_socket_def connect_data_socket_def Let_def and_then_Done
      split: option.splits if_splits)

end
