(* ===== verification/Client_Commands.thy ===== *)
theory Client_Commands
  imports Client_Data_Socket
begin

text \<open>
  \<open>bonus/src/commands/\<close>: the eight commands a user of the client can type.  Each sends a command of
  the protocol, reads the response and shows what it says; \<open>get\<close>, \<open>put\<close> and \<open>ls\<close> set up a data
  socket first.
\<close>

type_synonym client_handler = "command_t \<Rightarrow> client_t \<Rightarrow> world \<Rightarrow> (command_status_t \<times> client_t) run"

text \<open>\<open>command->argv[0]\<close>; \<open>None\<close> is the NULL that closes an empty \<open>argv\<close>.\<close>

definition client_argv0 :: "command_t \<Rightarrow> string option" where
  "client_argv0 command = (case argv command of [] \<Rightarrow> None | a # as \<Rightarrow> Some a)"

section \<open>The contract of the commands\<close>

text \<open>What the loop of the client relies on for every command.\<close>

definition same_server :: "client_t \<Rightarrow> client_t \<Rightarrow> bool" where
  "same_server c c' \<longleftrightarrow>
     cl_sockfd c' = cl_sockfd c \<and> cl_ip c' = cl_ip c \<and> cl_port c' = cl_port c"

lemma same_server_refl [simp]: "same_server c c" "same_server c (c\<lparr>cl_data_socket := d\<rparr>)"
  by (simp_all add: same_server_def)

lemma same_server_update [simp]: "same_server (c\<lparr>cl_data_socket := d\<rparr>) c' \<longleftrightarrow> same_server c c'"
  by (simp add: same_server_def)

lemma same_server_trans [trans]: "same_server c c' \<Longrightarrow> same_server c' c'' \<Longrightarrow> same_server c c''"
  by (simp add: same_server_def)

locale client_command =
  fixes handle :: client_handler
  assumes server_kept: "handle cmd c w = Done (st, c') w' \<Longrightarrow> same_server c c'"
    and known: "handle cmd c w = Done (st, c') w' \<Longrightarrow> st \<noteq> COMMAND_NOT_FOUND"
    and effect: "handle cmd c w = Done (st, c') w' \<Longrightarrow> downloads w w'"
begin

text \<open>A command never adds to what the user has typed, and never leaves the directory.\<close>

lemma input_kept:
  "handle cmd c w = Done (st, c') w' \<Longrightarrow> input_left fd w' \<le> input_left fd w \<and> cwd w' = cwd w"
  by (auto dest!: effect simp: downloads_def talks_def input_left_def)

end

text \<open>Most commands write no file.\<close>

lemma talking_command:
  assumes talk: "\<And>cmd c w. talking w (h cmd c w)"
    and same: "\<And>cmd c w. on_done (\<lambda>(st, c') _. same_server c c' \<and> st \<noteq> COMMAND_NOT_FOUND) (h cmd c w)"
  shows "client_command h"
proof
  fix cmd c w st c' w'
  assume d: "h cmd c w = Done (st, c') w'"
  from on_doneD [OF same d] show "same_server c c'" "st \<noteq> COMMAND_NOT_FOUND" by simp_all
  from talkingD [OF talk d] show "downloads w w'" by (rule talks_downloads)
qed

section \<open>quit, exit and help\<close>

definition client_quit_command :: "client_env \<Rightarrow> client_handler" where
  "client_quit_command env command client w =
     (let w = dprintf (cl_sockfd client) (''QUIT'' @ crlf) w
      in and_then (read_response env (cl_sockfd client) w) (\<lambda>response w.
           case response of
             None \<Rightarrow> Done (COMMAND_FAILURE, client) (eprintf (''Error reading response'' @ [LF]) w)
           | Some response \<Rightarrow>
               if \<not> has_code ''221'' response
               then Done (COMMAND_FAILURE, client) (eprintf (''Error: '' @ c_str response @ [LF]) w)
               else Done (COMMAND_QUIT, client) (printf (''Connection closed by server'' @ [LF]) w)))"

definition exit_command :: client_handler where
  "exit_command command client w = Done (COMMAND_QUIT, client) w"

definition client_help_command :: client_handler where
  "client_help_command command client w =
     (let w = printf (''Available commands:'' @ [LF]) w;
          w = printf (''HELP QUIT EXIT LS PWD CD GET PUT'' @ [LF]) w
      in Done (COMMAND_SUCCESS, client) w)"

section \<open>pwd and cd\<close>

text \<open>
  The text between the first double quote and the next one, or the end; \<open>None\<close> without a quote.
\<close>

abbreviation QUOTE :: char where "QUOTE \<equiv> CHR 0x22"

definition quoted :: "string \<Rightarrow> string option" where
  "quoted response =
     (case dropWhile (\<lambda>c. c \<noteq> QUOTE) (c_str response) of
        [] \<Rightarrow> None
      | q # path \<Rightarrow> Some (takeWhile (\<lambda>c. c \<noteq> QUOTE) path))"

definition log_invalid_response :: "string \<Rightarrow> string" where
  "log_invalid_response response = ''Invalid response format: '' @ c_str response @ [LF]"

definition log_current_directory :: "string \<Rightarrow> string" where
  "log_current_directory path = ''Current directory: '' @ path @ [LF]"

definition log_new_directory :: "string \<Rightarrow> string" where
  "log_new_directory path = ''New directory: '' @ path @ [LF]"

definition display_current_path :: "string \<Rightarrow> world \<Rightarrow> world" where
  "display_current_path response w =
     (case quoted response of
        Some path \<Rightarrow> printf (log_current_directory path) w
      | None \<Rightarrow> eprintf (log_invalid_response response) w)"

definition client_pwd_command :: "client_env \<Rightarrow> client_handler" where
  "client_pwd_command env command client w =
     (if argc command \<noteq> 0
      then Done (COMMAND_FAILURE, client) (eprintf (''Usage: pwd'' @ [LF]) w)
      else
        let w = dprintf (cl_sockfd client) (''PWD'' @ crlf) w
        in and_then (read_response env (cl_sockfd client) w) (\<lambda>response w.
             case response of
               None \<Rightarrow>
                 Done (COMMAND_FAILURE, client)
                   (eprintf (''Failed to read response from server'' @ [LF]) w)
             | Some response \<Rightarrow>
                 if \<not> has_code ''257'' response
                 then (case after_code response of
                         Inl e \<Rightarrow> Crash e
                       | Inr s \<Rightarrow> Done (COMMAND_FAILURE, client) (eprintf (''Error: '' @ s) w))
                 else Done (COMMAND_SUCCESS, client) (display_current_path response w)))"

text \<open>\<open>display_current_path\<close> of \<open>cd.c\<close>.\<close>

definition cd_display_current_path :: "string \<Rightarrow> world \<Rightarrow> world" where
  "cd_display_current_path response w =
     (case quoted response of
        Some path \<Rightarrow> printf (log_new_directory path) w
      | None \<Rightarrow> eprintf (log_invalid_response response) w)"

text \<open>
  A missing response is reported and then compared; a response that is an error is reported, freed
  and then displayed.
\<close>

definition display_new_path :: "client_env \<Rightarrow> client_t \<Rightarrow> world \<Rightarrow> unit run" where
  "display_new_path env client w =
     (let w = dprintf (cl_sockfd client) (''PWD'' @ crlf) w
      in and_then (read_response env (cl_sockfd client) w) (\<lambda>response w.
           case response of
             None \<Rightarrow> Crash Null_deref
           | Some response \<Rightarrow>
               if \<not> has_code ''257'' response
               then (case after_code response of
                       Inl e \<Rightarrow> Crash e
                     | Inr s \<Rightarrow> Crash Use_after_free)
               else Done () (cd_display_current_path response w)))"

definition cd_command :: "client_env \<Rightarrow> client_handler" where
  "cd_command env command client w =
     (if argc command \<noteq> 1
      then Done (COMMAND_FAILURE, client) (eprintf (''Usage: cd <directory>'' @ [LF]) w)
      else
        let w = dprintf (cl_sockfd client) (''CWD '' @ percent_s (client_argv0 command) @ crlf) w
        in and_then (read_response env (cl_sockfd client) w) (\<lambda>response w.
             case response of
               None \<Rightarrow>
                 Done (COMMAND_FAILURE, client)
                   (eprintf (''Failed to read response from server'' @ [LF]) w)
             | Some response \<Rightarrow>
                 if \<not> has_code ''250'' response
                 then (case after_code response of
                         Inl e \<Rightarrow> Crash e
                       | Inr s \<Rightarrow> Done (COMMAND_FAILURE, client) (eprintf (''Error: '' @ s) w))
                 else and_then (display_new_path env client w) (\<lambda>_ w.
                   Done (COMMAND_SUCCESS, client) w)))"

section \<open>The commands meet their contract\<close>

lemma display_path_talks [talking_intros]:
  "talks w w1 \<Longrightarrow> talks w (display_current_path r w1)"
  "talks w w1 \<Longrightarrow> talks w (cd_display_current_path r w1)"
  by (auto simp: display_current_path_def cd_display_current_path_def split: option.splits)

lemma display_new_path_talking [talking_intros]:
  "talks w w1 \<Longrightarrow> talking w (display_new_path env client w1)"
  by (auto simp: display_new_path_def Let_def intro!: talking_intros split: option.splits sum.splits)

interpretation client_quit: client_command "client_quit_command env" for env
  by (rule talking_command)
    (auto simp: client_quit_command_def Let_def intro!: talking_intros on_done_bind
      split: option.splits if_splits)

interpretation client_exit: client_command exit_command
  by (rule talking_command) (auto simp: exit_command_def)

interpretation client_help: client_command client_help_command
  by (rule talking_command) (auto simp: client_help_command_def Let_def)

interpretation client_pwd: client_command "client_pwd_command env" for env
  by (rule talking_command)
    (auto simp: client_pwd_command_def Let_def intro!: talking_intros on_done_bind
      split: option.splits sum.splits if_splits)

interpretation client_cd: client_command "cd_command env" for env
  by (rule talking_command)
    (auto simp: cd_command_def Let_def intro!: talking_intros on_done_bind
      split: option.splits sum.splits if_splits)

end
