(* ===== verification/Client_Transfers.thy ===== *)
theory Client_Transfers
  imports Client_Commands
begin

text \<open>
  \<open>get.c\<close>, \<open>put.c\<close> and \<open>ls.c\<close> of \<open>bonus/src/commands/\<close>.  What the server sends on a data
  connection until it closes it is \<open>os_recv\<close>; \<open>get\<close> and \<open>ls\<close> read it only after the response
  that ends the transfer, and wait as long as the server keeps the connection open.
\<close>

section \<open>get\<close>

text \<open>
  The local file is created or emptied before either stream is looked at.
\<close>

definition get_result :: "client_env \<Rightarrow> int \<Rightarrow> string \<Rightarrow> world \<Rightarrow> unit run" where
  "get_result env sockfd filename w =
     (let client_stream = os_fdopen (env_os env) w sockfd;
          file_stream = fs_fopen_w (fsys w) (cwd w) filename;
          w = (case file_stream of None \<Rightarrow> w | Some (p, fs') \<Rightarrow> w\<lparr>fsys := fs'\<rparr>)
      in case file_stream of
           None \<Rightarrow> Done () (perror ''fdopen'' w)
         | Some (p, _) \<Rightarrow>
             if \<not> client_stream then Done () (perror ''fdopen'' w)
             else case os_recv (env_os env) w sockfd of
                    None \<Rightarrow> Waits w
                  | Some data \<Rightarrow>
                      let w = fold (append_file p) (read_lines getline (length data) data) w
                      in Done () (close sockfd w))"

definition check_get_response :: "client_env \<Rightarrow> int \<Rightarrow> world \<Rightarrow> command_status_t run" where
  "check_get_response env sockfd w =
     and_then (read_response env sockfd w) (\<lambda>response w.
       case response of
         None \<Rightarrow> Done COMMAND_FAILURE w
       | Some response \<Rightarrow>
           if \<not> has_code ''150'' response then Done COMMAND_FAILURE w
           else and_then (read_response env sockfd w) (\<lambda>response w.
             case response of
               None \<Rightarrow> Done COMMAND_FAILURE w
             | Some response \<Rightarrow>
                 if \<not> has_code ''226'' response then Done COMMAND_FAILURE w
                 else Done COMMAND_SUCCESS w))"

definition log_downloaded :: "string \<Rightarrow> string" where
  "log_downloaded filename = ''File '' @ CHR 0x27 # filename @ CHR 0x27 # '' downloaded successfully'' @ [LF]"

definition execute_get_command ::
    "client_env \<Rightarrow> client_t \<Rightarrow> string \<Rightarrow> world \<Rightarrow> (command_status_t \<times> client_t) run" where
  "execute_get_command env client filepath w =
     (case get_filename_from_filepath (os_malloc (env_os env) w Alloc_filename) filepath of
        None \<Rightarrow>
          Done (COMMAND_FAILURE, client)
            (eprintf (''Error: Failed to extract filename from filepath'' @ [LF]) w)
      | Some filename \<Rightarrow>
          let w = dprintf (cl_sockfd client) (''RETR '' @ filepath @ crlf) w
          in and_then (check_get_response env (cl_sockfd client) w) (\<lambda>st w.
               if st = COMMAND_FAILURE then
                 let w = eprintf (''Error: GET command failed'' @ [LF]) w;
                     w = client_destroy_data_socket (cl_data_socket client) w
                 in Done (COMMAND_FAILURE, client\<lparr>cl_data_socket := None\<rparr>) w
               else
                 (case cl_data_socket client of
                    None \<Rightarrow> Crash Null_deref
                  | Some ds \<Rightarrow>
                      and_then (get_result env (cds_sockfd ds) filename w) (\<lambda>_ w.
                        let w = printf (log_downloaded filename) w;
                            w = client_destroy_data_socket (Some ds) w
                        in Done (COMMAND_SUCCESS, client\<lparr>cl_data_socket := None\<rparr>) w))))"

definition get_command :: "client_env \<Rightarrow> client_handler" where
  "get_command env command client w =
     (if argc command \<noteq> 1
      then Done (COMMAND_FAILURE, client) (eprintf (''Usage: GET <filename>'' @ [LF]) w)
      else and_then (initialize_client_data_socket env client w) (\<lambda>(st, client) w.
        if st = COMMAND_FAILURE then Done (COMMAND_FAILURE, client) w
        else (case client_argv0 command of
                None \<Rightarrow> Crash Null_deref
              | Some filepath \<Rightarrow>
                  and_then (execute_get_command env client filepath w) (\<lambda>(st, client) w.
                    if st = COMMAND_FAILURE then Done (COMMAND_FAILURE, client) w
                    else Done (COMMAND_SUCCESS, client) w))))"

section \<open>put\<close>

definition put_result :: "client_env \<Rightarrow> int \<Rightarrow> string \<Rightarrow> world \<Rightarrow> world" where
  "put_result env sockfd filepath w =
     (let client_stream = os_fdopen (env_os env) w sockfd;
          file_stream = fs_fopen_r (fsys w) (cwd w) filepath
      in case file_stream of
           None \<Rightarrow> perror ''fdopen'' w
         | Some data \<Rightarrow>
             if \<not> client_stream then perror ''fdopen'' w
             else
               let w = fold (\<lambda>line w. dprintf sockfd line w)
                         (read_lines getline (length data) data) w
               in close sockfd w)"

definition check_put_response ::
    "client_env \<Rightarrow> client_t \<Rightarrow> string \<Rightarrow> world \<Rightarrow> command_status_t run" where
  "check_put_response env client filepath w =
     and_then (read_response env (cl_sockfd client) w) (\<lambda>response w.
       case response of
         None \<Rightarrow> Done COMMAND_FAILURE w
       | Some response \<Rightarrow>
           if \<not> has_code ''150'' response then Done COMMAND_FAILURE w
           else (case cl_data_socket client of
                   None \<Rightarrow> Crash Null_deref
                 | Some ds \<Rightarrow>
                     let w = put_result env (cds_sockfd ds) filepath w
                     in and_then (read_response env (cl_sockfd client) w) (\<lambda>response w.
                          case response of
                            None \<Rightarrow> Done COMMAND_FAILURE w
                          | Some response \<Rightarrow>
                              if \<not> has_code ''226'' response then Done COMMAND_FAILURE w
                              else Done COMMAND_SUCCESS w)))"

definition log_uploaded :: "string \<Rightarrow> string" where
  "log_uploaded filename = ''File '' @ CHR 0x27 # filename @ CHR 0x27 # '' uploaded successfully'' @ [LF]"

text \<open>A file that cannot be read ends the command with the data socket still open.\<close>

definition execute_put_command ::
    "client_env \<Rightarrow> client_t \<Rightarrow> string \<Rightarrow> world \<Rightarrow> (command_status_t \<times> client_t) run" where
  "execute_put_command env client filepath w =
     (let filename = get_filename_from_filepath (os_malloc (env_os env) w Alloc_filename) filepath
      in if \<not> fs_access_read (fsys w) (cwd w) filepath
         then Done (COMMAND_FAILURE, client)
                (eprintf (''Error: Cannot access file '' @ filepath @ [LF]) w)
         else
           let w = dprintf (cl_sockfd client) (''STOR '' @ percent_s filename @ crlf) w
           in and_then (check_put_response env client filepath w) (\<lambda>st w.
                if st = COMMAND_FAILURE then
                  let w = eprintf (''Error: PUT command failed'' @ [LF]) w;
                      w = client_destroy_data_socket (cl_data_socket client) w
                  in Done (COMMAND_FAILURE, client\<lparr>cl_data_socket := None\<rparr>) w
                else
                  let w = printf (log_uploaded (percent_s filename)) w;
                      w = client_destroy_data_socket (cl_data_socket client) w
                  in Done (COMMAND_SUCCESS, client\<lparr>cl_data_socket := None\<rparr>) w))"

definition put_command :: "client_env \<Rightarrow> client_handler" where
  "put_command env command client w =
     (if argc command \<noteq> 1
      then Done (COMMAND_FAILURE, client) (eprintf (''Usage: PUT <filename>'' @ [LF]) w)
      else and_then (initialize_client_data_socket env client w) (\<lambda>(st, client) w.
        if st = COMMAND_FAILURE then Done (COMMAND_FAILURE, client) w
        else (case client_argv0 command of
                None \<Rightarrow> Crash Null_deref
              | Some filepath \<Rightarrow>
                  and_then (execute_put_command env client filepath w) (\<lambda>(st, client) w.
                    if st = COMMAND_FAILURE then Done (COMMAND_FAILURE, client) w
                    else Done (COMMAND_SUCCESS, client) w))))"

section \<open>ls\<close>

definition list_result :: "client_env \<Rightarrow> int \<Rightarrow> world \<Rightarrow> unit run" where
  "list_result env sockfd w =
     (if \<not> os_fdopen (env_os env) w sockfd then Done () (perror ''fdopen'' w)
      else case os_recv (env_os env) w sockfd of
             None \<Rightarrow> Waits w
           | Some data \<Rightarrow>
               let w = fold (\<lambda>line w. printf (c_str line) w) (read_lines getline (length data) data) w
               in Done () (close sockfd w))"

definition check_list_response :: "client_env \<Rightarrow> int \<Rightarrow> world \<Rightarrow> command_status_t run" where
  "check_list_response env sockfd w =
     and_then (read_response env sockfd w) (\<lambda>response w.
       case response of
         None \<Rightarrow> Done COMMAND_FAILURE w
       | Some response \<Rightarrow>
           if \<not> has_code ''150'' response then Done COMMAND_FAILURE w
           else and_then (read_response env sockfd w) (\<lambda>response w.
             case response of
               None \<Rightarrow> Done COMMAND_FAILURE w
             | Some response \<Rightarrow>
                 if \<not> has_code ''226'' response then Done COMMAND_FAILURE w
                 else Done COMMAND_SUCCESS w))"

definition client_execute_ls_command ::
    "client_env \<Rightarrow> client_t \<Rightarrow> command_t \<Rightarrow> world \<Rightarrow> (command_status_t \<times> client_t) run" where
  "client_execute_ls_command env client command w =
     (let path = (case client_argv0 command of Some a \<Rightarrow> a | None \<Rightarrow> ''.'');
          w = dprintf (cl_sockfd client) (''LIST '' @ path @ crlf) w
      in and_then (check_list_response env (cl_sockfd client) w) (\<lambda>st w.
           if st = COMMAND_FAILURE then
             let w = eprintf (''Error: LIST command failed'' @ [LF]) w;
                 w = client_destroy_data_socket (cl_data_socket client) w
             in Done (COMMAND_FAILURE, client\<lparr>cl_data_socket := None\<rparr>) w
           else
             (case cl_data_socket client of
                None \<Rightarrow> Crash Null_deref
              | Some ds \<Rightarrow>
                  and_then (list_result env (cds_sockfd ds) w) (\<lambda>_ w.
                    let w = client_destroy_data_socket (Some ds) w
                    in Done (COMMAND_SUCCESS, client\<lparr>cl_data_socket := None\<rparr>) w))))"

definition ls_command :: "client_env \<Rightarrow> client_handler" where
  "ls_command env command client w =
     and_then (initialize_client_data_socket env client w) (\<lambda>(st, client) w.
       if st = COMMAND_FAILURE then Done (COMMAND_FAILURE, client) w
       else and_then (client_execute_ls_command env client command w) (\<lambda>(st, client) w.
         if st = COMMAND_FAILURE then Done (COMMAND_FAILURE, client) w
         else Done (COMMAND_SUCCESS, client) w))"

section \<open>The streams\<close>

text \<open>The loops of \<open>put\<close> and \<open>ls\<close> add to the history only; their pieces are the whole data.\<close>

lemma put_loop:
  "fold (\<lambda>line w. dprintf fd line w) ls w = w\<lparr>trace := trace w @ map (Sent (self_pid w) fd) ls\<rparr>"
  by (induction ls arbitrary: w) (simp_all add: dprintf_def emit_def)

lemma list_loop:
  "fold (\<lambda>line w. printf (c_str line) w) ls w = w\<lparr>trace := trace w @ map (\<lambda>l. Printed (c_str l)) ls\<rparr>"
  by (induction ls arbitrary: w) (simp_all add: printf_def emit_def)

lemma put_result_talks [talking_intros]: "talks w w1 \<Longrightarrow> talks w (put_result env fd path w1)"
proof (rule talks_trans)
  show "talks w1 (put_result env fd path w1)"
    by (auto simp: put_result_def put_loop Let_def intro: talks_same split: option.splits)
qed

lemma list_result_talks [talking_intros]: "talks w w1 \<Longrightarrow> talking w (list_result env fd w1)"
  by (auto simp: list_result_def list_loop Let_def split: option.splits
      intro: talks_trans [OF _ talks_same])

text \<open>\<open>get\<close> changes one file, the one its name leads to.\<close>

lemma get_result_file:
  assumes "fs_fopen_w (fsys w) (cwd w) filename = Some (p, fs')" "os_fdopen (env_os env) w fd"
    and "os_recv (env_os env) (w\<lparr>fsys := fs'\<rparr>) fd = Some data"
  shows "\<exists>w' r. get_result env fd filename w = Done () (close fd w') \<and>
    lookup (fsys w') = (lookup (fsys w))(p \<mapsto> File r True data) \<and>
    (lookup (fsys w) p = None \<and> r \<or> (\<exists>old. lookup (fsys w) p = Some (File r True old))) \<and>
    w' = w\<lparr>fsys := fsys w'\<rparr>"
proof -
  from fill_file [OF assms(1), of "read_lines getline (length data) data"] show ?thesis
    using assms by (auto simp: get_result_def Let_def getline_reader.read_lines_concat)
qed

lemma get_result_downloads:
  assumes "SLASH \<notin> set filename" and dn: "get_result env fd filename w = Done u w''"
  shows "downloads w w''"
proof (cases "fs_fopen_w (fsys w) (cwd w) filename")
  case None
  with dn show ?thesis by (auto simp: get_result_def talks_downloads)
next
  case (Some r)
  then obtain p fs' where o: "fs_fopen_w (fsys w) (cwd w) filename = Some (p, fs')" by (cases r) auto
  have target: "resolve (fsys w) (cwd w) filename \<in> {Found p, Missing p}"
    using o by (auto simp: fs_fopen_w_def split: walked.splits option.splits node.splits if_splits)
  from fs_fopen_w_target [OF o] have fs': "fs' = write_file (fsys w) p []"
    and old: "lookup (fsys w) p = None \<or> (\<exists>m d. lookup (fsys w) p = Some (File m True d))" by auto
  have local: "local_writes w w'"
    if new: "lookup (fsys w') = (lookup (fsys w))(p \<mapsto> File m True d)" for w' m d
    unfolding local_writes_def
  proof (intro allI impI)
    fix q
    assume "lookup (fsys w') q \<noteq> lookup (fsys w) q"
    with new have "q = p" by (auto split: if_splits)
    with new target old assms show "(\<exists>filename. SLASH \<notin> set filename \<and>
        resolve (fsys w) (cwd w) filename \<in> {Found q, Missing q}) \<and>
      (\<exists>m d. lookup (fsys w') q = Some (File m True d)) \<and>
      (lookup (fsys w) q = None \<or> (\<exists>m d. lookup (fsys w) q = Some (File m True d)))" by auto
  qed
  show ?thesis
  proof (cases "os_fdopen (env_os env) w fd")
    case True
    from dn o True obtain data where d: "os_recv (env_os env) (w\<lparr>fsys := fs'\<rparr>) fd = Some data"
      by (auto simp: get_result_def Let_def split: option.splits)
    from get_result_file [OF o True d] dn obtain w' m where g: "w'' = close fd w'"
      and l: "lookup (fsys w') = (lookup (fsys w))(p \<mapsto> File m True data)"
      and eq: "w' = w\<lparr>fsys := fsys w'\<rparr>"
      by auto
    have "talks w (w'\<lparr>fsys := fsys w\<rparr>)" by (subst eq) (auto intro: talks_same)
    then show ?thesis
      unfolding g using local [OF l] by (intro downloads_then) (simp add: downloads_def)
  next
    case False
    from old obtain m where "lookup fs' = (lookup (fsys w))(p \<mapsto> File m True [])"
      unfolding fs' by (fastforce simp: lookup_write_file)
    then have "local_writes w (perror ''fdopen'' (w\<lparr>fsys := fs'\<rparr>))" using local by auto
    then show ?thesis
      using o False dn by (auto simp: get_result_def Let_def downloads_def intro: talks_same)
  qed
qed

section \<open>The commands meet their contract\<close>

lemma check_get_talking [talking_intros]: "talks w w1 \<Longrightarrow> talking w (check_get_response env fd w1)"
  by (auto simp: check_get_response_def intro!: talking_intros split: option.splits)

lemma check_list_talking [talking_intros]: "talks w w1 \<Longrightarrow> talking w (check_list_response env fd w1)"
  by (auto simp: check_list_response_def intro!: talking_intros split: option.splits)

lemma check_put_talking [talking_intros]:
  "talks w w1 \<Longrightarrow> talking w (check_put_response env client path w1)"
  by (auto simp: check_put_response_def Let_def intro!: talking_intros split: option.splits)

lemma execute_put_talking [talking_intros]:
  "talks w w1 \<Longrightarrow> talking w (execute_put_command env client path w1)"
  by (auto simp: execute_put_command_def Let_def intro!: talking_intros)

lemma execute_ls_talking [talking_intros]:
  "talks w w1 \<Longrightarrow> talking w (client_execute_ls_command env client command w1)"
  by (auto simp: client_execute_ls_command_def Let_def intro!: talking_intros split: option.splits)

lemma execute_put_result:
  "on_done (\<lambda>(st, c') _. same_server c c') (execute_put_command env c path w)"
  by (auto simp: execute_put_command_def Let_def intro!: on_done_bind)

lemma execute_ls_result:
  "on_done (\<lambda>(st, c') _. same_server c c') (client_execute_ls_command env c command w)"
  by (auto simp: client_execute_ls_command_def Let_def intro!: on_done_bind split: option.splits)

interpretation client_put: client_command "put_command env" for env
proof (rule talking_command)
  show "on_done (\<lambda>(st, c') _. same_server c c' \<and> st \<noteq> COMMAND_NOT_FOUND) (put_command env cmd c w)"
    for cmd c w
    by (auto simp: put_command_def intro!: on_done_bind split: option.splits
        dest!: initialize_result on_doneD [OF execute_put_result] intro: same_server_trans)
qed (auto simp: put_command_def intro!: talking_intros split: option.splits)

interpretation client_ls: client_command "ls_command env" for env
proof (rule talking_command)
  show "on_done (\<lambda>(st, c') _. same_server c c' \<and> st \<noteq> COMMAND_NOT_FOUND) (ls_command env cmd c w)"
    for cmd c w
    by (auto simp: ls_command_def intro!: on_done_bind split: option.splits
        dest!: initialize_result on_doneD [OF execute_ls_result] intro: same_server_trans)
qed (auto simp: ls_command_def intro!: talking_intros)

lemma execute_get_contract:
  assumes "execute_get_command env c path w = Done (st, c') w'"
  shows "same_server c c' \<and> downloads w w'"
proof (cases "get_filename_from_filepath (os_malloc (env_os env) w Alloc_filename) path")
  case None
  with assms show ?thesis by (auto simp: execute_get_command_def intro: talks_downloads)
next
  case (Some filename)
  let ?w = "dprintf (cl_sockfd c) (''RETR '' @ path @ crlf) w"
  from assms Some obtain r w1 where r: "check_get_response env (cl_sockfd c) ?w = Done r w1"
    by (auto simp: execute_get_command_def and_then_Done)
  have "talking w (check_get_response env (cl_sockfd c) ?w)" by (auto intro: talking_intros)
  then have t: "talks w w1" using r by simp
  have "downloads w w2" if "get_result env fd filename w1 = Done u w2" for fd u w2
    using t get_result_downloads [OF basename_no_slash [OF Some] that] by (rule talks_then_downloads)
  then have "downloads w (client_destroy_data_socket (Some d) (printf s w2))"
    if "get_result env fd filename w1 = Done u w2" for d s fd u w2
    using that by (simp add: client_destroy_data_socket_def downloads_then)
  then show ?thesis
    using assms Some r t
    by (auto simp: execute_get_command_def Let_def and_then_Done split: if_splits option.splits)
      (auto intro!: talks_downloads talking_intros)
qed

interpretation client_get: client_command "get_command env" for env
proof
  fix cmd c w st c' w'
  assume g: "get_command env cmd c w = Done (st, c') w'"
  have "same_server c c' \<and> st \<noteq> COMMAND_NOT_FOUND \<and> downloads w w'"
  proof (cases "argc cmd = 1")
    case False
    with g show ?thesis by (auto simp: get_command_def intro: talks_downloads)
  next
    case True
    with g obtain s1 c1 w1 where i: "initialize_client_data_socket env c w = Done (s1, c1) w1"
      by (auto simp: get_command_def and_then_Done)
    have "talking w (initialize_client_data_socket env c w)" by (auto intro: talking_intros)
    then have t: "talks w w1" using i by simp
    have c1: "same_server c c1" using initialize_result [OF i] by auto
    show ?thesis
      using g True i t c1
      by (auto simp: get_command_def and_then_Done split: if_splits option.splits prod.splits
          dest!: execute_get_contract intro: talks_downloads talks_then_downloads same_server_trans)
  qed
  then show "same_server c c'" "st \<noteq> COMMAND_NOT_FOUND" "downloads w w'" by simp_all
qed

end
