(* ===== verification/Client_Login.thy ===== *)
theory Client_Login
  imports Client_World
begin

text \<open>
  \<open>bonus/src/login.c\<close>: the client asks for a name and a password until the server accepts them.
  A line the user types is sent as it is, with the line feed \<open>getline\<close> leaves at its end.
\<close>

section \<open>The attempts\<close>

text \<open>\<open>errno != EINTR && errno != 0\<close> decides whether a missing line is reported.\<close>

definition get_username :: "client_env \<Rightarrow> world \<Rightarrow> string option run" where
  "get_username env w =
     (let w = printf ''Username: '' w
      in and_then (read_input env w) (\<lambda>username w.
           Done username
             (if username = None \<and> env_errno env w
              then eprintf (''Error reading username'' @ [LF]) w else w)))"

definition client_get_password :: "client_env \<Rightarrow> world \<Rightarrow> string option run" where
  "client_get_password env w =
     (let w = printf ''Password: '' w
      in and_then (read_input env w) (\<lambda>password w.
           Done password
             (if password = None \<and> env_errno env w
              then eprintf (''Error reading password'' @ [LF]) w else w)))"

definition send_user_command :: "client_env \<Rightarrow> client_t \<Rightarrow> string \<Rightarrow> world \<Rightarrow> bool run" where
  "send_user_command env client username w =
     (let w = dprintf (cl_sockfd client) (''USER '' @ c_str username) w
      in and_then (read_response env (cl_sockfd client) w) (\<lambda>response w.
           case response of
             None \<Rightarrow> Done False (eprintf (''Error sending username: No response'' @ [LF]) w)
           | Some response \<Rightarrow>
               if \<not> has_code ''331'' response
               then Done False (eprintf (''Error sending username: '' @ c_str response @ [LF]) w)
               else Done True w))"

definition msg_no_response :: string where
  "msg_no_response = ''No response from server'' @ [LF]"

definition msg_login_successful :: string where
  "msg_login_successful = ''Login successful'' @ [LF]"

definition send_pass_command :: "client_env \<Rightarrow> client_t \<Rightarrow> string \<Rightarrow> world \<Rightarrow> bool run" where
  "send_pass_command env client password w =
     (let w = dprintf (cl_sockfd client) (''PASS '' @ c_str password) w
      in and_then (read_response env (cl_sockfd client) w) (\<lambda>response w.
           case response of
             None \<Rightarrow> Done False (eprintf msg_no_response w)
           | Some response \<Rightarrow>
               if has_code ''230'' response
               then Done True (printf msg_login_successful w)
               else (case after_code response of
                       Inl e \<Rightarrow> Crash e
                     | Inr s \<Rightarrow> Done False (eprintf (''Login failed: '' @ s) w))))"

text \<open>84 when a line or the first response is missing, else the truth value of the login.\<close>

definition attempt_login :: "client_env \<Rightarrow> client_t \<Rightarrow> world \<Rightarrow> int run" where
  "attempt_login env client w =
     and_then (get_username env w) (\<lambda>username w.
       case username of
         None \<Rightarrow> Done 84 w
       | Some username \<Rightarrow>
           and_then (send_user_command env client username w) (\<lambda>sent w.
             if \<not> sent then Done 84 w
             else and_then (client_get_password env w) (\<lambda>password w.
               case password of
                 None \<Rightarrow> Done 84 w
               | Some password \<Rightarrow>
                   and_then (send_pass_command env client password w) (\<lambda>logged_in w.
                     Done (if logged_in then 1 else 0) w))))"

section \<open>The loop\<close>

lemma get_username_talking [talking_intros]: "talks w w1 \<Longrightarrow> talking w (get_username env w1)"
  by (auto simp: get_username_def Let_def intro!: talking_intros)

lemma get_password_talking [talking_intros]:
  "talks w w1 \<Longrightarrow> talking w (client_get_password env w1)"
  by (auto simp: client_get_password_def Let_def intro!: talking_intros)

lemma send_user_talking [talking_intros]:
  "talks w w1 \<Longrightarrow> talking w (send_user_command env client u w1)"
  by (auto simp: send_user_command_def Let_def intro!: talking_intros split: option.splits)

lemma send_pass_talking [talking_intros]:
  "talks w w1 \<Longrightarrow> talking w (send_pass_command env client p w1)"
  by (auto simp: send_pass_command_def Let_def intro!: talking_intros
      split: option.splits sum.splits)

lemma attempt_login_talking [talking_intros]:
  "talks w w1 \<Longrightarrow> talking w (attempt_login env client w1)"
  by (auto simp: attempt_login_def intro!: talking_intros split: option.splits)

text \<open>An attempt that leads to another one has taken a line from the user.\<close>

lemma get_username_takes:
  assumes "get_username env w = Done (Some u) w1"
  shows "input_left 0 w1 < input_left 0 w"
proof -
  let ?w = "printf ''Username: '' w"
  from assms obtain w2 where "read_input env ?w = Done (Some u) w2" "w1 = w2"
    by (auto simp: get_username_def Let_def and_then_Done)
  with on_doneD [OF read_input_talks [of ?w env]] show ?thesis by (auto simp: input_left_def)
qed

lemma attempt_login_takes:
  assumes "attempt_login env client w = Done 0 w'"
  shows "input_left 0 w' < input_left 0 w"
proof -
  from assms obtain u w1 where u: "get_username env w = Done (Some u) w1"
    by (auto simp: attempt_login_def and_then_Done split: option.splits)
  then have "talking w1 (attempt_login env client w)"
    by (auto simp: attempt_login_def intro!: talking_intros split: option.splits)
  then have "input_left 0 w' \<le> input_left 0 w1" using assms by (simp add: talks_input)
  with get_username_takes [OF u] show ?thesis by simp
qed

text \<open>
  \<open>while (logged_in == 0 && !is_client_stopped())\<close>: every turn takes a line the user has typed,
  so the loop ends.
\<close>

function login_loop :: "client_env \<Rightarrow> client_t \<Rightarrow> world \<Rightarrow> int run" where
  "login_loop env client w =
     (if is_client_stopped env w then Done 0 w
      else and_then (attempt_login env client w) (\<lambda>logged_in w.
        if logged_in = 0 then login_loop env client w else Done logged_in w))"
  by pat_completeness auto
termination
  by (relation "measure (\<lambda>(env, client, w). input_left 0 w)")
    (auto dest: attempt_login_takes)

declare login_loop.simps [simp del]

definition login :: "client_env \<Rightarrow> client_t \<Rightarrow> world \<Rightarrow> int run" where
  "login env client w =
     and_then (read_response env (cl_sockfd client) w) (\<lambda>_ w. login_loop env client w)"

lemma login_loop_talking: "talking w (login_loop env client w)"
proof (induction env client w rule: login_loop.induct)
  case (1 env client w)
  then show ?case
    by (subst login_loop.simps)
      (auto intro!: talking_intros intro: talking_from)
qed

lemma login_talking [talking_intros]: "talks w w1 \<Longrightarrow> talking w (login env client w1)"
  by (auto simp: login_def intro!: talking_intros intro: talking_from [OF _ login_loop_talking])

end
