(* ===== verification/Client_Session.thy ===== *)
theory Client_Session
  imports Client_Transfers Client_Login
begin

text \<open>
  The client as a whole: the parser and the dispatcher of its command lines
  (\<open>bonus/src/command_parser.c\<close>, \<open>command_executor.c\<close>), its loop (\<open>client.c\<close>) and \<open>main.c\<close>.
\<close>

section \<open>The parser\<close>

text \<open>
  The client has its own copy of the server's parser.  It is translated on its own, from the same
  library functions, and \<open>client_parse_buffer_eq\<close> shows that the two are one function.
\<close>

definition client_count_args :: "string \<Rightarrow> nat" where
  "client_count_args buffer = count_list buffer SP + 1"

definition client_tokenize_buffer :: "(alloc_site \<Rightarrow> bool) \<Rightarrow> string \<Rightarrow> nat \<Rightarrow>
    string option list option result" where
  "client_tokenize_buffer alloc buffer token_count =
     (if \<not> alloc Alloc_tokens then Inr None
      else case store_tokens (strtok_loop buffer) (token_count + 1) of
        Inl e \<Rightarrow> Inl e
      | Inr tokens \<Rightarrow>
          (case strip_char CR (token_count - 1) tokens of
             Inl e \<Rightarrow> Inl e
           | Inr tokens \<Rightarrow>
               (case strip_char LF (token_count - 1) tokens of
                  Inl e \<Rightarrow> Inl e
                | Inr tokens \<Rightarrow> Inr (Some (take token_count tokens)))))"

definition client_setup_command :: "string option list \<Rightarrow> nat \<Rightarrow> command_t result" where
  "client_setup_command tokens token_count =
     (if None \<in> set tokens then Inl Uninit_read
      else case map the tokens of
        [] \<Rightarrow> Inl Out_of_bounds
      | t # ts \<Rightarrow> Inr \<lparr>name = t, argc = int token_count - 1, argv = ts\<rparr>)"

definition client_parse_buffer :: "(alloc_site \<Rightarrow> bool) \<Rightarrow> string \<Rightarrow> command_t option result" where
  "client_parse_buffer alloc buffer =
     (if \<not> alloc Alloc_command then Inr None
      else let buffer = client_trim buffer
           in if buffer = [] then Inr None
              else let token_count = client_count_args buffer
                   in case client_tokenize_buffer alloc buffer token_count of
                        Inl e \<Rightarrow> Inl e
                      | Inr None \<Rightarrow> Inr None
                      | Inr (Some tokens) \<Rightarrow>
                          (case client_setup_command tokens token_count of
                             Inl e \<Rightarrow> Inl e
                           | Inr command \<Rightarrow> Inr (Some command)))"

lemma client_parse_buffer_eq: "client_parse_buffer = parse_buffer"
proof -
  have "client_count_args = count_args" "client_setup_command = setup_command"
    "client_tokenize_buffer = tokenize_buffer"
    by (intro ext, simp add: client_count_args_def count_args_def client_setup_command_def
        setup_command_def client_tokenize_buffer_def tokenize_buffer_def)+
  then show ?thesis by (intro ext) (simp only: client_parse_buffer_def parse_buffer_def client_utils)
qed

section \<open>The dispatcher\<close>

definition client_command_handlers :: "client_env \<Rightarrow> (string \<times> client_handler) list" where
  "client_command_handlers env =
     [(''QUIT'', client_quit_command env), (''EXIT'', exit_command), (''HELP'', client_help_command),
      (''LS'', ls_command env), (''CD'', cd_command env), (''PWD'', client_pwd_command env),
      (''GET'', get_command env), (''PUT'', put_command env)]"

fun client_find_handler :: "(string \<times> client_handler) list \<Rightarrow> string \<Rightarrow> client_handler option" where
  "client_find_handler [] nm = None"
| "client_find_handler ((n, h) # hs) nm =
     (if strcmp n nm = 0 then Some h else client_find_handler hs nm)"

definition client_get_command_handler ::
    "client_env \<Rightarrow> command_t \<Rightarrow> client_handler option \<times> command_t" where
  "client_get_command_handler env command =
     (let command = command\<lparr>name := client_touppercase (name command)\<rparr>
      in (client_find_handler (client_command_handlers env) (name command), command))"

definition msg_unknown_command :: string where
  "msg_unknown_command = ''Unknown command'' @ crlf"

definition client_execute_command :: "client_env \<Rightarrow> command_t option \<Rightarrow> client_t \<Rightarrow> world \<Rightarrow>
    (command_status_t \<times> client_t) run" where
  "client_execute_command env command client w =
     (case command of
        None \<Rightarrow> Done (COMMAND_NOT_FOUND, client) (printf msg_unknown_command w)
      | Some command \<Rightarrow>
          (case client_get_command_handler env command of
             (None, command) \<Rightarrow> Done (COMMAND_NOT_FOUND, client) (printf msg_unknown_command w)
           | (Some handler, command) \<Rightarrow> handler command client w))"

section \<open>client.c\<close>

definition init_client :: "os \<Rightarrow> int \<Rightarrow> string \<Rightarrow> int \<Rightarrow> world \<Rightarrow> client_t option \<times> world" where
  "init_client os sockfd ip port w =
     (if \<not> os_malloc os w Alloc_client then (None, perror ''malloc'' w)
      else (Some \<lparr>cl_sockfd = sockfd, cl_port = port, cl_ip = ip, cl_data_socket = None\<rparr>, w))"

text \<open>A descriptor that cannot be connected stays open.\<close>

definition connect_to_server :: "os \<Rightarrow> string \<Rightarrow> int \<Rightarrow> world \<Rightarrow> client_t option \<times> world" where
  "connect_to_server os ip port w =
     (let (sockfd, w) = socket os w;
          (addr, w) = client_init_sockin ip port w
      in if sockfd = -1 then (None, perror ''socket'' w)
         else if \<not> os_connect os w sockfd addr then (None, perror ''connect'' w)
         else init_client os sockfd ip port w)"

text \<open>One turn: the end of the input and a blank line both leave the client.\<close>

definition loop_execution ::
    "client_env \<Rightarrow> client_t \<Rightarrow> world \<Rightarrow> (command_status_t \<times> client_t) run" where
  "loop_execution env client w =
     (let w = printf ''myftp> '' w
      in and_then (read_input env w) (\<lambda>buffer w.
           case buffer of
             None \<Rightarrow> Done (COMMAND_QUIT, client) w
           | Some buffer \<Rightarrow>
               (case client_parse_buffer (os_malloc (env_os env) w) (c_str buffer) of
                  Inl e \<Rightarrow> Crash e
                | Inr None \<Rightarrow> Done (COMMAND_QUIT, client) w
                | Inr (Some command) \<Rightarrow> client_execute_command env (Some command) client w)))"

lemma client_handlers_contract: "(n, h) \<in> set (client_command_handlers env) \<Longrightarrow> client_command h"
  by (auto simp: client_command_handlers_def client_quit.client_command_axioms
      client_exit.client_command_axioms client_help.client_command_axioms
      client_ls.client_command_axioms client_cd.client_command_axioms
      client_pwd.client_command_axioms client_get.client_command_axioms
      client_put.client_command_axioms)

lemma client_find_handler_in: "client_find_handler hs nm = Some h \<Longrightarrow> \<exists>n. (n, h) \<in> set hs"
  by (induction hs nm rule: client_find_handler.induct) (auto split: if_splits)

lemma client_execute_cases:
  assumes "client_execute_command env (Some command) client w = r"
  obtains (unknown) "r = Done (COMMAND_NOT_FOUND, client) (printf msg_unknown_command w)"
  | (command) h where "client_command h"
      "r = h (command\<lparr>name := touppercase (name command)\<rparr>) client w"
proof (cases "client_find_handler (client_command_handlers env) (touppercase (name command))")
  case None
  then show ?thesis
    using assms unknown by (simp add: client_execute_command_def client_get_command_handler_def)
next
  case (Some h)
  then have "client_command h" by (auto dest: client_find_handler_in client_handlers_contract)
  then show ?thesis
    using assms Some command by (simp add: client_execute_command_def client_get_command_handler_def)
qed

text \<open>Whatever is typed: the contract of the commands holds for a turn of the dispatcher.\<close>

lemma client_execute_contract:
  assumes "client_execute_command env (Some command) client w = Done (st, client') w'"
  shows "same_server client client' \<and> downloads w w'"
  using assms
proof (cases rule: client_execute_cases)
  case unknown
  then show ?thesis by (auto intro: talks_downloads)
next
  case (command h)
  then show ?thesis using client_command.server_kept client_command.effect by metis
qed

lemma downloads_input: "downloads w w' \<Longrightarrow> input_left fd w' \<le> input_left fd w \<and> cwd w' = cwd w"
  by (simp add: downloads_def talks_def input_left_def)

text \<open>A turn that does not end the session has taken a line from the user.\<close>

lemma loop_execution_takes:
  assumes "loop_execution env client w = Done (st, client') w'" "st \<noteq> COMMAND_QUIT"
  shows "input_left 0 w' < input_left 0 w"
proof -
  let ?w = "printf ''myftp> '' w"
  from assms(1) obtain r w1 where r: "read_input env ?w = Done r w1"
    by (auto simp: loop_execution_def and_then_Done)
  then obtain buffer where b: "read_input env ?w = Done (Some buffer) w1"
    using assms by (cases r) (auto simp: loop_execution_def)
  then obtain command where e: "client_execute_command env (Some command) client w1 = Done (st, client') w'"
    using assms by (auto simp: loop_execution_def split: sum.splits option.splits)
  from on_doneD [OF read_input_talks b] have "input_left 0 w1 < input_left 0 w"
    by (simp add: input_left_def)
  moreover have "input_left 0 w' \<le> input_left 0 w1"
    using client_execute_contract [OF e] downloads_input by blast
  ultimately show ?thesis by simp
qed

text \<open>
  \<open>while (last_command != COMMAND_QUIT && !is_client_stopped())\<close>: every turn but the last takes a
  line the user has typed, so the loop ends.
\<close>

function client_loop :: "client_env \<Rightarrow> command_status_t \<Rightarrow> client_t \<Rightarrow> world \<Rightarrow> client_t run" where
  "client_loop env last_command client w =
     (if last_command \<noteq> COMMAND_QUIT \<and> \<not> is_client_stopped env w
      then and_then (loop_execution env client w) (\<lambda>r w.
        case r of (last_command, client) \<Rightarrow> client_loop env last_command client w)
      else Done client w)"
  by pat_completeness auto
termination
  by (relation "measure (\<lambda>(env, last_command, client, w).
        if last_command = COMMAND_QUIT then 0 else Suc (input_left 0 w))")
    (auto dest: loop_execution_takes)

declare client_loop.simps [simp del]

definition log_connecting :: "string \<Rightarrow> int \<Rightarrow> string" where
  "log_connecting ip port = ''Connecting to server at '' @ ip @ '':'' @ show_int port @ [LF]"

definition msg_exiting :: string where
  "msg_exiting = LF # ''Exiting...'' @ [LF]"

text \<open>
  What the environment does to the process (the flag \<open>stop_client\<close>, interrupted reads) depends on the
  dispositions of the signals, which \<open>setup_signal\<close> changes first.
\<close>

definition client_run :: "(signals \<Rightarrow> client_env) \<Rightarrow> signals \<Rightarrow> string \<Rightarrow> int \<Rightarrow> world \<Rightarrow> int run" where
  "client_run environment sigs ip port w =
     (let sigs = client_setup_signal sigs;
          env = environment sigs;
          w = printf (log_connecting ip port) w
      in case connect_to_server (env_os env) ip port w of
           (None, w) \<Rightarrow> Done 84 w
         | (Some client, w) \<Rightarrow>
             and_then (login env client w) (\<lambda>r w.
               if r = 84 then
                 let w = destroy_client (Some client) w;
                     w = printf msg_exiting w
                 in Done 84 w
               else
                 and_then (client_loop env COMMAND_SUCCESS client w) (\<lambda>client w.
                   let w = printf msg_exiting w;
                       w = destroy_client (Some client) w
                   in Done 0 w)))"

section \<open>main.c\<close>

definition client_usage :: "world \<Rightarrow> world" where
  "client_usage w =
     (let w = printf (''USAGE: ./myftp_client <ip> <port>'' @ [LF]) w;
          w = printf (TAB # ''ip is the server ip address'' @ [LF]) w;
          w = printf (TAB # ''port is the port number on which the server socket listens'' @ [LF]) w
      in w)"

definition ip_is_valid :: "string \<Rightarrow> bool" where
  "ip_is_valid ip \<longleftrightarrow> inet_pton ip \<noteq> None"

text \<open>\<open>av\<close> holds the name of the program and its arguments.\<close>

definition client_main :: "(signals \<Rightarrow> client_env) \<Rightarrow> signals \<Rightarrow> string list \<Rightarrow> world \<Rightarrow> int run" where
  "client_main environment sigs av w =
     (if length av \<ge> 2 \<and> strcmp (av ! 1) ''-help'' = 0 then Done 0 (client_usage w)
      else if length av \<noteq> 3 then Done 84 (client_usage w)
      else
        let port = atoi (av ! 2)
        in if port \<le> 0 \<or> port > 65535 \<or> \<not> ip_is_valid (av ! 1) then Done 84 (client_usage w)
           else if port = 0 then Done 84 w
           else and_then (client_run environment sigs (av ! 1) port w) (\<lambda>_ w. Done 0 w))"

end
