(* ===== verification/Client_Protocol.thy ===== *)
theory Client_Protocol
  imports Client_Session Transfers
begin

text \<open>
  The client against the server: what the client reads of the replies the server's handlers send,
  and what the server makes of the lines the client writes.
\<close>

section \<open>Reading the reply to PASV\<close>

lemma digits_value_stop: "s = [] \<or> \<not> isdigit (hd s) \<Longrightarrow> digits_value acc s = acc"
  by (cases s) auto

lemma atoi_show_nat_append:
  assumes "n < 2 ^ 31" "s = [] \<or> \<not> isdigit (hd s)"
  shows "atoi (show_nat n @ s) = int n"
proof -
  obtain c cs where t: "show_nat n = c # cs" by (cases "show_nat n") auto
  have d: "isdigit c" using show_nat_digits [of c n] t by simp
  have "digits_value 0 (show_nat n @ s) = int n"
    using show_nat_digits assms(2) by (simp add: digits_value_append digits_value_show_nat digits_value_stop)
  then have "strtol10 (show_nat n @ s) = int n"
    using assms(1) t d isdigit_neq [OF d] isdigit_not_space [OF d] by (simp add: strtol10_def Let_def)
  then show ?thesis using assms(1) by (simp add: atoi_def int32_id)
qed

lemma scan_int_show_nat:
  assumes "n < 2 ^ 31" "s = [] \<or> \<not> isdigit (hd s)"
  shows "scan_int (show_nat n @ s) = Some (int n, s)"
proof -
  obtain c cs where t: "show_nat n = c # cs" by (cases "show_nat n") auto
  have digits: "\<And>x. x \<in> set (show_nat n) \<Longrightarrow> isdigit x" by (rule show_nat_digits)
  then have d: "isdigit c" using t by simp
  have tw: "takeWhile isdigit (show_nat n @ s) = show_nat n"
    using digits assms(2) by (cases s) (auto simp: takeWhile_append)
  have dw: "dropWhile isdigit (show_nat n @ s) = s"
    using digits assms(2) by (cases s) (auto simp: dropWhile_append)
  show ?thesis
    using atoi_show_nat_append [OF assms] tw dw t isdigit_neq [OF d] isdigit_not_space [OF d]
    by (simp add: scan_int_def Let_def)
qed

lemma sscanf_steps:
  "sscanf [] s = []"
  "c \<noteq> CHR ''%'' \<Longrightarrow> \<not> isspace c \<Longrightarrow> sscanf (c # f) (c # s) = sscanf f s"
  "\<not> isspace x \<Longrightarrow> sscanf (SP # f) (SP # x # s) = sscanf f (x # s)"
  "n < 2 ^ 31 \<Longrightarrow> s = [] \<or> \<not> isdigit (hd s) \<Longrightarrow>
   sscanf (CHR ''%'' # CHR ''d'' # f) (show_nat n @ s) = int n # sscanf f s"
  by (subst sscanf.simps, simp add: scan_int_show_nat isspace_def)+

text \<open>The six numbers the server prints are the six numbers the client reads.\<close>

lemma sscanf_passive:
  assumes "n0 < 256" "n1 < 256" "n2 < 256" "n3 < 256" "n4 < 256" "n5 < 256"
  shows "sscanf pasv_format (''227 Entering Passive Mode ('' @
      join CHR '','' (map show_nat [n0, n1, n2, n3, n4, n5]) @ CHR '')'' # s) =
    [int n0, int n1, int n2, int n3, int n4, int n5]"
proof -
  have comma: "\<not> isdigit CHR '',''" "\<not> isdigit CHR '')''" by (simp_all add: isdigit_def)
  show ?thesis
    using assms comma by (simp add: pasv_format_def sscanf_steps isspace_def)
qed

lemma msg_passive_text:
  assumes "0 \<le> p" "p \<le> 65535"
  shows "msg_passive (replace_dots_with_commas (inet_ntoa a)) (p div 256) (p mod 256) =
    ''227 Entering Passive Mode ('' @
      join CHR '','' (map show_nat [octet 24 a, octet 16 a, octet 8 a, octet 0 a,
        nat (p div 256), nat (p mod 256)]) @ CHR '')'' # ''.'' @ crlf"
proof -
  have "0 \<le> p div 256" "0 \<le> p mod 256" using assms by auto
  then show ?thesis by (simp add: msg_passive_def comma_address show_int_def not_less)
qed

text \<open>A line the server sends has no NUL and no line feed but the last character.\<close>

definition plain_line :: "string \<Rightarrow> bool" where
  "plain_line s \<longleftrightarrow> s \<noteq> [] \<and> last s = LF \<and> LF \<notin> set (butlast s) \<and> NUL \<notin> set (butlast s)"

lemma plain_line_iff: "plain_line s \<longleftrightarrow> (\<exists>l. s = l @ [LF] \<and> LF \<notin> set l \<and> NUL \<notin> set l)"
  unfolding plain_line_def by (cases s rule: rev_cases) auto

lemma plain_line_c_str: "plain_line s \<Longrightarrow> c_str s = s"
  by (auto simp: plain_line_iff intro: c_str_id)

lemma read_plain_line:
  assumes "net_in w fd = s # ps" "plain_line s" "os_fdopen (env_os env) w fd"
  shows "read_response env fd w = Done (Some s) (w\<lparr>net_in := (net_in w)(fd := ps)\<rparr>)"
  using assms read_response_packet [of w fd _ "[]" ps env] by (auto simp: plain_line_iff)

lemma show_nat_plain: "LF \<notin> set (show_nat n)" "NUL \<notin> set (show_nat n)"
  using show_nat_digits isdigit_neq by blast+

lemma msg_passive_plain:
  assumes "0 \<le> p" "p \<le> 65535"
  shows "plain_line (msg_passive (replace_dots_with_commas (inet_ntoa a)) (p div 256) (p mod 256))"
proof -
  let ?l = "''227 Entering Passive Mode ('' @
      join CHR '','' (map show_nat [octet 24 a, octet 16 a, octet 8 a, octet 0 a,
        nat (p div 256), nat (p mod 256)]) @ CHR '')'' # ''.'' @ [CR]"
  have "LF \<notin> set ?l" "NUL \<notin> set ?l" by (simp_all add: show_nat_plain)
  moreover have "msg_passive (replace_dots_with_commas (inet_ntoa a)) (p div 256) (p mod 256) = ?l @ [LF]"
    unfolding msg_passive_text [OF assms] by simp
  ultimately show ?thesis unfolding plain_line_iff by blast
qed

text \<open>A sequence of lines is determined by its bytes.\<close>

lemma plain_line_split:
  assumes "plain_line s" "plain_line t" "s @ x = t @ y"
  shows "s = t"
proof -
  obtain k where k: "s = k @ [LF]" "LF \<notin> set k" using assms(1) by (auto simp: plain_line_iff)
  obtain l where l: "t = l @ [LF]" "LF \<notin> set l" using assms(2) by (auto simp: plain_line_iff)
  have "takeWhile (\<lambda>c. c \<noteq> LF) (k @ LF # z) = k" if "LF \<notin> set k" for k z
    using that by (induction k) auto
  then have "k = l" using assms(3) k l by (metis append.assoc append_Cons append_Nil)
  then show ?thesis using k l by simp
qed

lemma plain_lines_unique:
  "list_all plain_line xs \<Longrightarrow> list_all plain_line ys \<Longrightarrow> concat xs = concat ys \<Longrightarrow> xs = ys"
proof (induction xs arbitrary: ys)
  case Nil
  then show ?case by (cases ys) (auto simp: plain_line_iff)
next
  case (Cons x xs)
  then obtain y ys' where y: "ys = y # ys'" by (cases ys) (auto simp: plain_line_iff)
  with Cons.prems have "x = y" by (auto intro: plain_line_split)
  with Cons.prems y have "xs = ys'" by (intro Cons.IH) simp_all
  with y \<open>x = y\<close> show ?case by simp
qed

section \<open>Setting up a data connection\<close>

text \<open>
  An environment in which the calls of a transfer succeed; \<open>s\<close> is the descriptor of the data
  socket.
\<close>

definition client_ready :: "client_env \<Rightarrow> int \<Rightarrow> bool" where
  "client_ready env s \<longleftrightarrow>
     s \<noteq> -1 \<and> (\<forall>w a. os_malloc (env_os env) w a) \<and> (\<forall>w fd. os_fdopen (env_os env) w fd) \<and>
     (\<forall>w. os_socket (env_os env) w = s) \<and> (\<forall>w a. os_connect (env_os env) w s a)"

lemma client_readyD:
  assumes "client_ready env s"
  shows "s \<noteq> -1" "os_malloc (env_os env) w a" "os_fdopen (env_os env) w fd"
    "os_socket (env_os env) w = s" "os_connect (env_os env) w s addr"
  using assms by (simp_all add: client_ready_def)

text \<open>The client after the reply to its PASV: the packets \<open>ps\<close> are still to come.\<close>

definition after_pasv :: "client_t \<Rightarrow> int \<Rightarrow> string list \<Rightarrow> world \<Rightarrow> world" where
  "after_pasv c s ps w =
     w\<lparr>trace := trace w @ [Sent (self_pid w) (cl_sockfd c) (''PASV'' @ crlf)],
       net_in := (net_in w)(cl_sockfd c := ps), open_fds := insert s (open_fds w)\<rparr>"

lemma after_pasv_simps [simp]:
  "self_pid (after_pasv c s ps w) = self_pid w" "fsys (after_pasv c s ps w) = fsys w"
  "cwd (after_pasv c s ps w) = cwd w" "net_eof (after_pasv c s ps w) = net_eof w"
  "net_in (after_pasv c s ps w) = (net_in w)(cl_sockfd c := ps)"
  "trace (after_pasv c s ps w) = trace w @ [Sent (self_pid w) (cl_sockfd c) (''PASV'' @ crlf)]"
  by (simp_all add: after_pasv_def)

definition announced_socket :: "int \<Rightarrow> 32 word \<Rightarrow> int \<Rightarrow> client_data_socket_t" where
  "announced_socket s a p =
     \<lparr>cds_sockfd = s, cds_addr = \<lparr>sin_addr = a, sin_port = word_of_int p\<rparr>,
      cds_address = map int [octet 24 a, octet 16 a, octet 8 a, octet 0 a], cds_port = p\<rparr>"

definition pasv_reply :: "32 word \<Rightarrow> int \<Rightarrow> string" where
  "pasv_reply a p = msg_passive (replace_dots_with_commas (inet_ntoa a)) (p div 256) (p mod 256)"

lemma pasv_reply_sscanf:
  assumes "0 \<le> p" "p \<le> 65535"
  shows "sscanf pasv_format (c_str (pasv_reply a p)) =
    map int [octet 24 a, octet 16 a, octet 8 a, octet 0 a, nat (p div 256), nat (p mod 256)]"
proof -
  have "p div 256 < 256" "0 \<le> p div 256" using assms by auto
  then have "nat (p div 256) < 256" "nat (p mod 256) < 256" by (auto simp: nat_less_iff)
  moreover have "c_str (pasv_reply a p) = pasv_reply a p"
    using msg_passive_plain [OF assms] by (simp add: plain_line_c_str pasv_reply_def)
  ultimately show ?thesis
    unfolding pasv_reply_def msg_passive_text [OF assms]
    using sscanf_passive [of "octet 24 a" "octet 16 a" "octet 8 a" "octet 0 a" "nat (p div 256)"
      "nat (p mod 256)" "''.'' @ crlf"] octet_less
    by (simp only: append_Cons append_Nil list.map)
qed

lemma initialize_passive:
  assumes "client_ready env s" "net_in w (cl_sockfd c) = pasv_reply a p # ps" "0 \<le> p" "p \<le> 65535"
  shows "initialize_client_data_socket env c w =
    Done (COMMAND_SUCCESS, c\<lparr>cl_data_socket := Some (announced_socket s a p)\<rparr>) (after_pasv c s ps w)"
proof -
  note ready = client_readyD [OF assms(1)]
  let ?w = "dprintf (cl_sockfd c) (''PASV'' @ crlf) w"
  let ?w1 = "?w\<lparr>net_in := (net_in ?w)(cl_sockfd c := ps)\<rparr>"
  have "plain_line (pasv_reply a p)"
    unfolding pasv_reply_def by (rule msg_passive_plain [OF assms(3,4)])
  then have read: "read_response env (cl_sockfd c) ?w = Done (Some (pasv_reply a p)) ?w1"
    using assms(2) ready(3) by (intro read_plain_line) simp_all
  have code: "has_code ''227'' (pasv_reply a p)"
    unfolding pasv_reply_def msg_passive_text [OF assms(3,4)]
    by (simp add: has_code_def c_str_def eval_nat_numeral)
  have pp: "0 \<le> p div 256" "p div 256 \<le> 255" using assms(3,4) by auto
  have "merge_port (Some (p div 256, p mod 256)) = p"
    using merge_split_port [OF assms(3,4)] assms(3,4) by (simp add: split_port_def)
  then have made: "setup_data_socket (env_os env)
      (map Some (map int [octet 24 a, octet 16 a, octet 8 a, octet 0 a, nat (p div 256), nat (p mod 256)]))
      ?w1 = Done (Some (announced_socket s a p)) (?w1\<lparr>open_fds := insert s (open_fds ?w1)\<rparr>)"
    using octets_address [of a] ready pp
    by (simp add: setup_data_socket_def client_init_data_socket_def socket_def announced_socket_def
        init_data_socket_sockin_def Let_def)
  have "?w1\<lparr>open_fds := insert s (open_fds ?w1)\<rparr> = after_pasv c s ps w"
    by (simp add: after_pasv_def dprintf_def emit_def)
  then show ?thesis
    using read code made ready pasv_reply_sscanf [OF assms(3,4), of a]
    by (simp add: initialize_client_data_socket_def create_data_socket_def send_pasv_command_def
        parse_pasv_response_def connect_data_socket_def announced_socket_def Let_def)
qed

section \<open>The two replies of a transfer\<close>

lemma transfer_replies:
  "plain_line msg_opening" "plain_line msg_complete"
  "has_code ''150'' msg_opening" "has_code ''226'' msg_complete"
  by (simp_all add: plain_line_def has_code_def c_str_def msg_opening_def msg_complete_def
      eval_nat_numeral)

end
