(* ===== verification/Client_Properties.thy ===== *)
theory Client_Properties
  imports Client_Protocol
begin

text \<open>
  What the client achieves with the server: downloads and uploads from end to end, and the runs in
  which it loses a reply, crashes, or reports a success it did not have.
\<close>

section \<open>A download and an upload\<close>

text \<open>After the two replies of a transfer that ends well.\<close>

lemma check_get_ok:
  assumes "client_ready env s" "net_in w fd = [r1, r2]" "plain_line r1" "plain_line r2"
    and "has_code ''150'' r1" "has_code ''226'' r2"
  shows "check_get_response env fd w = Done COMMAND_SUCCESS (w\<lparr>net_in := (net_in w)(fd := [])\<rparr>)"
proof -
  note f = client_readyD(3) [OF assms(1)]
  let ?w1 = "w\<lparr>net_in := (net_in w)(fd := [r2])\<rparr>"
  have "read_response env fd w = Done (Some r1) ?w1" using assms f by (intro read_plain_line)
  moreover have "read_response env fd ?w1 = Done (Some r2) (?w1\<lparr>net_in := (net_in ?w1)(fd := [])\<rparr>)"
    using assms f by (intro read_plain_line) simp_all
  ultimately show ?thesis using assms(5,6) by (simp add: check_get_response_def)
qed

lemma get_transfer:
  assumes "client_ready env s" "argc cmd = 1" "client_argv0 cmd = Some path"
    and "get_filename_from_filepath True path = Some filename"
    and "net_in w (cl_sockfd c) = [pasv_reply a port, r1, r2]" "0 \<le> port" "port \<le> 65535"
    and "plain_line r1" "plain_line r2" "has_code ''150'' r1" "has_code ''226'' r2"
    and "fs_fopen_w (fsys w) (cwd w) filename = Some (p, fs')"
    and "\<And>w'. os_recv (env_os env) w' s = Some data"
  shows "\<exists>w' r. get_command env cmd c w = Done (COMMAND_SUCCESS, c\<lparr>cl_data_socket := None\<rparr>) w' \<and>
    lookup (fsys w') = (lookup (fsys w))(p \<mapsto> File r True data) \<and>
    (lookup (fsys w) p = None \<and> r \<or> (\<exists>old. lookup (fsys w) p = Some (File r True old))) \<and>
    trace w' = trace w @ [Sent (self_pid w) (cl_sockfd c) (''PASV'' @ crlf),
      Sent (self_pid w) (cl_sockfd c) (''RETR '' @ path @ crlf), Printed (log_downloaded filename)]"
proof -
  let ?c = "c\<lparr>cl_data_socket := Some (announced_socket s a port)\<rparr>"
  let ?w1 = "after_pasv c s [r1, r2] w"
  let ?w2 = "dprintf (cl_sockfd c) (''RETR '' @ path @ crlf) ?w1"
  let ?w3 = "?w2\<lparr>net_in := (net_in ?w2)(cl_sockfd c := [])\<rparr>"
  note ready = client_readyD [OF assms(1)]
  have init: "initialize_client_data_socket env c w = Done (COMMAND_SUCCESS, ?c) ?w1"
    using assms(1,5-7) by (rule initialize_passive)
  have check: "check_get_response env (cl_sockfd c) ?w2 = Done COMMAND_SUCCESS ?w3"
    using assms(1,8-11) by (intro check_get_ok) simp_all
  have "fs_fopen_w (fsys ?w3) (cwd ?w3) filename = Some (p, fs')" using assms(12) by simp
  from get_result_file [OF this _ assms(13)] ready(3)
  obtain w4 r where g: "get_result env s filename ?w3 = Done () (close s w4)"
    and l: "lookup (fsys w4) = (lookup (fsys w))(p \<mapsto> File r True data)"
    and r: "lookup (fsys w) p = None \<and> r \<or> (\<exists>old. lookup (fsys w) p = Some (File r True old))"
    and eq: "w4 = ?w3\<lparr>fsys := fsys w4\<rparr>"
    by auto
  have t: "trace w4 = trace ?w3" by (subst eq) simp
  show ?thesis
    using init check assms(2-4) ready(1,2) g l r t
    by (auto simp: get_command_def execute_get_command_def announced_socket_def Let_def
        client_destroy_data_socket_def)
qed

lemma check_put_ok:
  assumes "client_ready env s" "net_in w (cl_sockfd c) = [r1, r2]" "plain_line r1" "plain_line r2"
    and "has_code ''150'' r1" "has_code ''226'' r2"
    and "cl_data_socket c = Some ds" "cds_sockfd ds = s"
    and "fs_fopen_r (fsys w) (cwd w) path = Some data"
  shows "check_put_response env c path w = Done COMMAND_SUCCESS
    (w\<lparr>net_in := (net_in w)(cl_sockfd c := []), open_fds := open_fds w - {s},
       trace := trace w @ map (Sent (self_pid w) s) (read_lines getline (length data) data)\<rparr>)"
proof -
  note f = client_readyD(3) [OF assms(1)]
  let ?w1 = "w\<lparr>net_in := (net_in w)(cl_sockfd c := [r2])\<rparr>"
  let ?w2 = "put_result env s path ?w1"
  have r1: "read_response env (cl_sockfd c) w = Done (Some r1) ?w1"
    using assms f by (intro read_plain_line)
  have w2: "?w2 = ?w1\<lparr>open_fds := open_fds w - {s},
      trace := trace w @ map (Sent (self_pid w) s) (read_lines getline (length data) data)\<rparr>"
    using assms(9) f by (simp add: put_result_def put_loop close_def Let_def)
  have "read_response env (cl_sockfd c) ?w2 =
      Done (Some r2) (?w2\<lparr>net_in := (net_in ?w2)(cl_sockfd c := [])\<rparr>)"
    using assms f unfolding w2 by (intro read_plain_line) simp_all
  then show ?thesis using r1 w2 assms(5-8) by (simp add: check_put_response_def Let_def)
qed

lemma fopen_r_access: "fs_fopen_r fs d s = Some data \<Longrightarrow> fs_access_read fs d s"
  by (auto simp: fs_fopen_r_def fs_access_read_def split: walked.splits if_splits)

lemma put_transfer:
  assumes "client_ready env s" "argc cmd = 1" "client_argv0 cmd = Some path"
    and "get_filename_from_filepath True path = Some filename"
    and "net_in w (cl_sockfd c) = [pasv_reply a port, r1, r2]" "0 \<le> port" "port \<le> 65535"
    and "plain_line r1" "plain_line r2" "has_code ''150'' r1" "has_code ''226'' r2"
    and "fs_fopen_r (fsys w) (cwd w) path = Some data" "cl_sockfd c \<noteq> s"
  shows "\<exists>w'. put_command env cmd c w = Done (COMMAND_SUCCESS, c\<lparr>cl_data_socket := None\<rparr>) w' \<and>
    fsys w' = fsys w \<and>
    bytes_sent (self_pid w) s (trace w') = bytes_sent (self_pid w) s (trace w) @ data \<and>
    bytes_sent (self_pid w) (cl_sockfd c) (trace w') =
      bytes_sent (self_pid w) (cl_sockfd c) (trace w) @ ''PASV'' @ crlf @ ''STOR '' @ filename @ crlf"
proof -
  let ?ds = "announced_socket s a port"
  let ?c = "c\<lparr>cl_data_socket := Some ?ds\<rparr>"
  let ?w1 = "after_pasv c s [r1, r2] w"
  let ?w2 = "dprintf (cl_sockfd c) (''STOR '' @ filename @ crlf) ?w1"
  let ?w3 = "?w2\<lparr>net_in := (net_in ?w2)(cl_sockfd c := []), open_fds := open_fds ?w2 - {s},
       trace := trace ?w2 @ map (Sent (self_pid w) s) (read_lines getline (length data) data)\<rparr>"
  note ready = client_readyD [OF assms(1)]
  have init: "initialize_client_data_socket env c w = Done (COMMAND_SUCCESS, ?c) ?w1"
    using assms(1,5-7) by (rule initialize_passive)
  have "check_put_response env ?c path ?w2 = Done COMMAND_SUCCESS ?w3"
    using check_put_ok [of env s ?w2 ?c r1 r2 ?ds path data] assms
    by (simp add: announced_socket_def)
  then have "put_command env cmd c w = Done (COMMAND_SUCCESS, c\<lparr>cl_data_socket := None\<rparr>)
      (client_destroy_data_socket (Some ?ds) (printf (log_uploaded filename) ?w3))"
    using init assms(2-4,12) ready(2)
    by (simp add: put_command_def execute_put_command_def fopen_r_access percent_s_def Let_def)
  then show ?thesis
    using assms(13) getline_reader.read_lines_concat [of data "length data"]
    by (simp add: client_destroy_data_socket_def announced_socket_def bytes_sent_map_other)
qed

section \<open>A client to run the theorems on\<close>

definition demo_env :: client_env where
  "demo_env =
     \<lparr>env_os = demo_os, env_stopped = (\<lambda>_. False), env_interrupt = (\<lambda>_. False),
      env_errno = (\<lambda>_. False)\<rparr>"

definition demo_client :: client_t where
  "demo_client = \<lparr>cl_sockfd = 3, cl_port = 4242, cl_ip = ''127.0.0.1'', cl_data_socket = None\<rparr>"

text \<open>Its files, what the user types and the packets that will come.\<close>

definition demo_client_world :: "string list \<Rightarrow> string list \<Rightarrow> world" where
  "demo_client_world typed packets =
     \<lparr>self_pid = 50,
      fsys = [([], Dir True True True), ([''home''], Dir True True True),
        ([''home'', ''up''], File True True ''data'')],
      cwd = [''home''], open_fds = {3},
      net_in = (\<lambda>fd. if fd = 0 then typed else if fd = 3 then packets else []),
      net_eof = (\<lambda>_. False), jobs = [], trace = []\<rparr>"

lemma demo_client_ready: "client_ready demo_env 5"
  by (simp add: client_ready_def demo_env_def demo_os_def)

section \<open>Properties\<close>

text \<open>
  Property C12.  GET and RETR together copy a file: when the bytes the server's child sends on the
  data connection are those the client receives on it, and each of its replies comes in a packet
  of its own, the file of the client ends up with exactly the contents of the server's file, and
  nothing else changes on either side.
\<close>

theorem get_copies_server_file:
  assumes "at_root sc sw r q" "argc scmd = 1" "argv0 scmd = Some path"
    and "fs_fopen_r (fsys sw) q path = Some data" "NUL \<notin> set data"
    and "passive_ready os sc sw ds fd a pid" "stream sc \<noteq> None" "fd \<noteq> client_sockfd sc"
    and server: "retr_command os scmd sc sw = Inr (st, sc', sw1)" "jobs sw1 = jobs sw @ [j]"
      "run_job os j sw1 = Inr sw2"
    and wire: "bytes_sent pid fd (trace sw2) = bytes_sent pid fd (trace sw1) @ sent"
      "bytes_sent pid (client_sockfd sc) (trace sw2) =
         bytes_sent pid (client_sockfd sc) (trace sw1) @ concat replies"
      "list_all plain_line replies" "\<And>w'. os_recv (env_os env) w' s = Some sent"
    and client: "client_ready env s" "argc cmd = 1" "client_argv0 cmd = Some path"
      "get_filename_from_filepath True path = Some filename"
      "fs_fopen_w (fsys w) (cwd w) filename = Some (p, fs')"
      "net_in w (cl_sockfd c) = pasv_reply addr port # replies" "0 \<le> port" "port \<le> 65535"
  shows "fsys sw2 = fsys sw \<and>
    (\<exists>w' m. get_command env cmd c w = Done (COMMAND_SUCCESS, c\<lparr>cl_data_socket := None\<rparr>) w' \<and>
      lookup (fsys w') = (lookup (fsys w))(p \<mapsto> File m True data))"
proof -
  from retr_end_to_end [OF assms(1-8)] server
  have fs: "fsys sw2 = fsys sw"
    and d: "bytes_sent pid fd (trace sw2) = bytes_sent pid fd (trace sw1) @ data"
    and r: "bytes_sent pid (client_sockfd sc) (trace sw2) =
      bytes_sent pid (client_sockfd sc) (trace sw1) @ msg_opening @ msg_complete" by auto
  have "replies = [msg_opening, msg_complete]"
    using wire(2,3) r transfer_replies by (intro plain_lines_unique) simp_all
  with client(6) have "net_in w (cl_sockfd c) = [pasv_reply addr port, msg_opening, msg_complete]"
    by simp
  moreover have "sent = data" using wire(1) d by simp
  ultimately show ?thesis
    using fs get_transfer [OF client(1-4) _ client(7,8) transfer_replies client(5) wire(4)] by blast
qed

theorem get_copies_server_file_witness:
  "\<exists>w' m. get_command (demo_env\<lparr>env_os := demo_os\<lparr>os_recv := (\<lambda>_ _. Some ''hello'')\<rparr>\<rparr>)
      (demo_command ''GET'' [''pub/a'']) demo_client
      (demo_client_world [] [pasv_reply INADDR_LOOPBACK 40000, msg_opening, msg_complete]) =
      Done (COMMAND_SUCCESS, demo_client\<lparr>cl_data_socket := None\<rparr>) w' \<and>
    lookup (fsys w') = (lookup (fsys (demo_client_world [] [])))
      ([''home'', ''a''] \<mapsto> File m True ''hello'')"
proof -
  let ?env = "demo_env\<lparr>env_os := demo_os\<lparr>os_recv := (\<lambda>_ _. Some ''hello'')\<rparr>\<rparr>"
  let ?w = "demo_client_world [] [pasv_reply INADDR_LOOPBACK 40000, msg_opening, msg_complete]"
  have contents: "fs_fopen_r (fsys demo_world) [''srv'', ''ftp''] ''pub/a'' = Some ''hello''" by code_simp
  have conn: "stream demo_passive \<noteq> None" "7 \<noteq> client_sockfd demo_passive"
    by (simp_all add: demo_passive_def demo_user_def demo_conn_def)
  have cmd: "argc (demo_command ''RETR'' [''pub/a'']) = 1"
    "argv0 (demo_command ''RETR'' [''pub/a'']) = Some ''pub/a''"
    by (simp_all add: demo_command_def argv0_def)
  from retr_end_to_end [OF demo_passive_at_root cmd contents _ demo_passive_ready conn]
  obtain sc' sw1 j sw2 where server:
      "retr_command demo_os (demo_command ''RETR'' [''pub/a'']) demo_passive demo_world =
        Inr (COMMAND_SUCCESS, sc', sw1)"
      "jobs sw1 = jobs demo_world @ [j]" "run_job demo_os j sw1 = Inr sw2"
      "bytes_sent 100 7 (trace sw2) = bytes_sent 100 7 (trace sw1) @ ''hello''"
      "bytes_sent 100 (client_sockfd demo_passive) (trace sw2) =
        bytes_sent 100 (client_sockfd demo_passive) (trace sw1) @ concat [msg_opening, msg_complete]"
    by auto
  have target: "fs_fopen_w (fsys ?w) (cwd ?w) ''a'' =
      Some ([''home'', ''a''], write_file (fsys (demo_client_world [] [])) [''home'', ''a''] [])"
    by code_simp
  from get_copies_server_file [OF demo_passive_at_root cmd contents _ demo_passive_ready conn server
      _ _ _ _ _ _ target, of ?env 5 "demo_command ''GET'' [''pub/a'']" demo_client INADDR_LOOPBACK 40000]
  show ?thesis
    using transfer_replies
    by (simp add: client_ready_def demo_env_def demo_os_def demo_command_def client_argv0_def
        get_filename_from_filepath_def demo_client_def demo_client_world_def)
qed

text \<open>
  Property C13.  PUT and STOR together copy a file: what the client sends on the data connection is
  its file, and when the server's child receives these bytes, the file it stores has the same
  contents.
\<close>

theorem put_copies_client_file:
  assumes client: "client_ready env s" "argc cmd = 1" "client_argv0 cmd = Some path"
      "get_filename_from_filepath True path = Some filename"
      "net_in w (cl_sockfd c) = [pasv_reply addr port, msg_opening, msg_complete]"
      "0 \<le> port" "port \<le> 65535" "fs_fopen_r (fsys w) (cwd w) path = Some data" "cl_sockfd c \<noteq> s"
    and run: "put_command env cmd c w = Done (st, c') w'"
    and wire: "bytes_sent (self_pid w) s (trace w') = bytes_sent (self_pid w) s (trace w) @ sent"
      "\<And>v. os_recv os v fd = Some sent"
    and server: "logged_in sc" "argc scmd = 1" "argv0 scmd = Some filename"
      "passive_ready os sc sw ds fd a pid" "stream sc \<noteq> None" "\<And>v. os_fdopen os v fd"
      "fs_fopen_w (fsys sw) (cwd sw) filename = Some (p, fs')"
  shows "st = COMMAND_SUCCESS \<and> fsys w' = fsys w \<and>
    bytes_sent (self_pid w) (cl_sockfd c) (trace w') =
      bytes_sent (self_pid w) (cl_sockfd c) (trace w) @
      ''PASV'' @ crlf @ ''STOR '' @ filename @ crlf \<and>
    (\<exists>sc' sw1 j sw2 m. stor_command os scmd sc sw = Inr (COMMAND_SUCCESS, sc', sw1) \<and>
      jobs sw1 = jobs sw @ [j] \<and> run_job os j sw1 = Inr sw2 \<and>
      lookup (fsys sw2) = (lookup (fsys sw))(p \<mapsto> File m True data))"
proof -
  from put_transfer [OF client(1-7) transfer_replies client(8,9)] run wire(1)
  have "sent = data" "st = COMMAND_SUCCESS" "fsys w' = fsys w"
    "bytes_sent (self_pid w) (cl_sockfd c) (trace w') =
      bytes_sent (self_pid w) (cl_sockfd c) (trace w) @
      ''PASV'' @ crlf @ ''STOR '' @ filename @ crlf" by auto
  moreover from this wire(2) have "\<And>v. os_recv os v fd = Some data" by simp
  from stor_end_to_end [OF server(1-5,7,6) this]
  have "\<exists>sc' sw1 j sw2 m. stor_command os scmd sc sw = Inr (COMMAND_SUCCESS, sc', sw1) \<and>
      jobs sw1 = jobs sw @ [j] \<and> run_job os j sw1 = Inr sw2 \<and>
      lookup (fsys sw2) = (lookup (fsys sw))(p \<mapsto> File m True data)" by blast
  ultimately show ?thesis by simp
qed

theorem put_copies_client_file_witness:
  "\<exists>sc' sw1 j sw2 m. stor_command demo_os (demo_command ''STOR'' [''up'']) demo_passive demo_world =
      Inr (COMMAND_SUCCESS, sc', sw1) \<and>
    jobs sw1 = jobs demo_world @ [j] \<and> run_job demo_os j sw1 = Inr sw2 \<and>
    lookup (fsys sw2) =
      (lookup (fsys demo_world))([''srv'', ''ftp'', ''up''] \<mapsto> File m True ''data'')"
proof -
  let ?cmd = "demo_command ''PUT'' [''up'']"
  let ?w = "demo_client_world [] [pasv_reply INADDR_LOOPBACK 40000, msg_opening, msg_complete]"
  have cmd: "argc ?cmd = 1" "client_argv0 ?cmd = Some ''up''"
    "get_filename_from_filepath True ''up'' = Some ''up''"
    by (simp_all add: demo_command_def client_argv0_def get_filename_from_filepath_def)
  have net: "net_in ?w (cl_sockfd demo_client) =
      [pasv_reply INADDR_LOOPBACK 40000, msg_opening, msg_complete]"
    "cl_sockfd demo_client \<noteq> 5"
    by (simp_all add: demo_client_def demo_client_world_def)
  have contents: "fs_fopen_r (fsys ?w) (cwd ?w) ''up'' = Some ''data''" by code_simp
  from put_transfer [OF demo_client_ready cmd net(1) _ _ transfer_replies contents net(2)]
  obtain w' where run: "put_command demo_env ?cmd demo_client ?w =
      Done (COMMAND_SUCCESS, demo_client\<lparr>cl_data_socket := None\<rparr>) w'"
    "bytes_sent (self_pid ?w) 5 (trace w') = bytes_sent (self_pid ?w) 5 (trace ?w) @ ''data''"
    by auto
  have target: "fs_fopen_w (fsys demo_world) (cwd demo_world) ''up'' =
      Some ([''srv'', ''ftp'', ''up''], write_file demo_fs [''srv'', ''ftp'', ''up''] [])"
    by code_simp
  from put_copies_client_file [OF demo_client_ready cmd net(1) _ _ contents net(2) run _ _ _ _
      demo_passive_ready _ _ target, of "demo_command ''STOR'' [''up'']"]
  show ?thesis
    by (simp add: demo_os_def demo_command_def argv0_def demo_passive_def demo_user_def demo_conn_def)
qed

text \<open>
  Property C29.  A GET can wait for ever: when the server's two replies to RETR arrive in one
  packet, the stream the client makes for the first reply takes both, the second is lost with it,
  and the client waits for a reply that was already sent.  No file is written.
\<close>

theorem get_waits_on_joined_replies:
  assumes "client_ready env s" "argc cmd = 1" "client_argv0 cmd = Some path"
    and "net_in w (cl_sockfd c) = [pasv_reply a port, msg_opening @ msg_complete]"
    and "0 \<le> port" "port \<le> 65535" "\<not> net_eof w (cl_sockfd c)" "\<And>v. \<not> env_interrupt env v"
  shows "\<exists>w'. get_command env cmd c w = Waits w' \<and> fsys w' = fsys w \<and> net_in w' (cl_sockfd c) = []"
proof -
  note ready = client_readyD [OF assms(1)]
  let ?ps = "[msg_opening @ msg_complete]"
  let ?w1 = "dprintf (cl_sockfd c) (''RETR '' @ path @ crlf) (after_pasv c s ?ps w)"
  let ?w2 = "?w1\<lparr>net_in := (net_in ?w1)(cl_sockfd c := [])\<rparr>"
  obtain l where l: "msg_opening = l @ [LF]" "LF \<notin> set l"
    using transfer_replies(1) by (auto simp: plain_line_iff)
  then have "net_in ?w1 (cl_sockfd c) = (l @ LF # msg_complete) # []" by simp
  from read_response_packet [OF this l(2), of env] ready(3)
  have "read_response env (cl_sockfd c) ?w1 = Done (Some msg_opening) ?w2" by (simp only: l(1))
  moreover have "read_response env (cl_sockfd c) ?w2 =
      Waits (?w2\<lparr>net_in := (net_in ?w2)(cl_sockfd c := [])\<rparr>)"
    using assms(7,8) ready(3) by (intro read_response_waits) simp_all
  ultimately have "\<exists>w'. check_get_response env (cl_sockfd c) ?w1 = Waits w' \<and> fsys w' = fsys w \<and>
      net_in w' (cl_sockfd c) = []"
    using transfer_replies(3) by (simp add: check_get_response_def)
  then show ?thesis
    using initialize_passive [OF assms(1,4-6)] assms(2,3) ready(2)
    by (auto simp: get_command_def execute_get_command_def get_filename_from_filepath_def Let_def)
qed

theorem get_waits_on_joined_replies_witness:
  "\<exists>w'. get_command demo_env (demo_command ''GET'' [''pub/a'']) demo_client
      (demo_client_world [] [pasv_reply INADDR_LOOPBACK 40000, msg_opening @ msg_complete]) =
      Waits w' \<and>
    fsys w' = fsys (demo_client_world [] [pasv_reply INADDR_LOOPBACK 40000, msg_opening @ msg_complete]) \<and>
    net_in w' (cl_sockfd demo_client) = []"
  by (rule get_waits_on_joined_replies [OF demo_client_ready, where a = INADDR_LOOPBACK and port = 40000])
    (simp_all add: demo_command_def client_argv0_def demo_client_def demo_client_world_def demo_env_def)

text \<open>
  A GET whose local file cannot be opened is reported as a download: the transfer
  takes place, nothing is stored, and after the error of \<open>fdopen\<close> the success is printed and
  returned.
\<close>

lemma get_reports_success_without_file:
  assumes "client_ready env s" "argc cmd = 1" "client_argv0 cmd = Some path"
    and "get_filename_from_filepath True path = Some filename"
    and "net_in w (cl_sockfd c) = [pasv_reply a port, msg_opening, msg_complete]"
    and "0 \<le> port" "port \<le> 65535" "fs_fopen_w (fsys w) (cwd w) filename = None"
  shows "\<exists>w'. get_command env cmd c w = Done (COMMAND_SUCCESS, c\<lparr>cl_data_socket := None\<rparr>) w' \<and>
    fsys w' = fsys w \<and>
    (\<exists>es. trace w' = es @ [Perror ''fdopen'', Printed (log_downloaded filename)])"
proof -
  let ?ps = "[msg_opening, msg_complete]"
  let ?w1 = "dprintf (cl_sockfd c) (''RETR '' @ path @ crlf) (after_pasv c s ?ps w)"
  let ?w2 = "?w1\<lparr>net_in := (net_in ?w1)(cl_sockfd c := [])\<rparr>"
  have "check_get_response env (cl_sockfd c) ?w1 = Done COMMAND_SUCCESS ?w2"
    using assms(1) transfer_replies by (intro check_get_ok) simp_all
  moreover have "get_result env s filename ?w2 = Done () (perror ''fdopen'' ?w2)"
    using assms(8) by (simp add: get_result_def)
  ultimately show ?thesis
    using initialize_passive [OF assms(1,5-7)] assms(2-4) client_readyD(1,2) [OF assms(1)]
    by (simp add: get_command_def execute_get_command_def announced_socket_def Let_def
        client_destroy_data_socket_def)
qed

lemma get_reports_success_without_file_witness:
  "\<exists>w'. get_command demo_env (demo_command ''GET'' [''pub/'']) demo_client
      (demo_client_world [] [pasv_reply INADDR_LOOPBACK 40000, msg_opening, msg_complete]) =
      Done (COMMAND_SUCCESS, demo_client\<lparr>cl_data_socket := None\<rparr>) w' \<and>
    fsys w' = fsys (demo_client_world [] [pasv_reply INADDR_LOOPBACK 40000, msg_opening, msg_complete]) \<and>
    (\<exists>es. trace w' = es @ [Perror ''fdopen'', Printed (log_downloaded [])])"
proof (rule get_reports_success_without_file
    [OF demo_client_ready, where a = INADDR_LOOPBACK and port = 40000])
  show "get_filename_from_filepath True ''pub/'' = Some []" by code_simp
qed (simp_all add: demo_command_def client_argv0_def demo_client_def demo_client_world_def
      fs_fopen_w_def resolve_def)

text \<open>
  A PUT of a file that cannot be read has already set up a data connection, and
  leaves it: the command fails, but the socket stays open, and so does the server's.
\<close>

lemma put_unreadable_keeps_data_socket:
  assumes "client_ready env s" "argc cmd = 1" "client_argv0 cmd = Some path"
    and "net_in w (cl_sockfd c) = [pasv_reply a port]" "0 \<le> port" "port \<le> 65535"
    and "\<not> fs_access_read (fsys w) (cwd w) path"
  shows "\<exists>w'. put_command env cmd c w =
      Done (COMMAND_FAILURE, c\<lparr>cl_data_socket := Some (announced_socket s a port)\<rparr>) w' \<and>
    s \<in> open_fds w' \<and> fsys w' = fsys w \<and>
    bytes_sent (self_pid w) (cl_sockfd c) (trace w') =
      bytes_sent (self_pid w) (cl_sockfd c) (trace w) @ ''PASV'' @ crlf"
  using initialize_passive [OF assms(1,4-6)] assms(2,3,7)
  by (simp add: put_command_def execute_put_command_def Let_def) (simp add: after_pasv_def eprintf_def emit_def)

lemma put_unreadable_keeps_data_socket_witness:
  "\<exists>w'. put_command demo_env (demo_command ''PUT'' [''nothing'']) demo_client
      (demo_client_world [] [pasv_reply INADDR_LOOPBACK 40000]) =
      Done (COMMAND_FAILURE,
        demo_client\<lparr>cl_data_socket := Some (announced_socket 5 INADDR_LOOPBACK 40000)\<rparr>) w' \<and>
    5 \<in> open_fds w' \<and> fsys w' = fsys (demo_client_world [] [pasv_reply INADDR_LOOPBACK 40000]) \<and>
    bytes_sent (self_pid (demo_client_world [] [pasv_reply INADDR_LOOPBACK 40000]))
        (cl_sockfd demo_client) (trace w') =
      bytes_sent (self_pid (demo_client_world [] [pasv_reply INADDR_LOOPBACK 40000]))
        (cl_sockfd demo_client) (trace (demo_client_world [] [pasv_reply INADDR_LOOPBACK 40000])) @
      ''PASV'' @ crlf"
proof (rule put_unreadable_keeps_data_socket [OF demo_client_ready])
  let ?w = "demo_client_world [] [pasv_reply INADDR_LOOPBACK 40000]"
  show "\<not> fs_access_read (fsys ?w) (cwd ?w) ''nothing''" by code_simp
qed (simp_all add: demo_command_def client_argv0_def demo_client_def demo_client_world_def)

text \<open>
  Property C23.  The client connects to the socket the server has opened for it: the reply to PASV,
  read by the client's \<open>sscanf\<close> and put together by its shifts, gives the address and the port of
  the server's listening data socket.
\<close>

theorem client_connects_to_announced_port:
  assumes "pasv_command os scmd sc sw = Inr (COMMAND_SUCCESS, sc', sw')" "logged_in sc"
    and "bytes_sent (self_pid sw) (client_sockfd sc) (trace sw') =
      bytes_sent (self_pid sw) (client_sockfd sc) (trace sw) @ answer"
    and "client_ready env s" "net_in w (cl_sockfd c) = [answer]"
  shows "\<exists>ds cds w'. data_socket sc' = Some ds \<and>
    initialize_client_data_socket env c w =
      Done (COMMAND_SUCCESS, c\<lparr>cl_data_socket := Some cds\<rparr>) w' \<and>
    cds_sockfd cds = s \<and> cds_port cds = ds_port ds \<and>
    cds_addr cds = \<lparr>sin_addr = sin_addr (ds_addr ds), sin_port = word_of_int (ds_port ds)\<rparr>"
proof -
  obtain dsock sw1 where m: "setup_passive_data_socket os sw = (dsock, sw1)"
    by (cases "setup_passive_data_socket os sw")
  then obtain ds where ds: "setup_passive_data_socket os sw = (Some ds, sw1)"
    using assms(1,2) by (cases dsock) (auto simp: pasv_command_def create_passive_data_socket_def)
  note port = setup_passive_Some [OF ds]
  have q: "quiet sw sw1" using setup_passive_quiet [of sw os] ds by simp
  have split: "split_port b (ds_port ds) = (if b then Some (ds_port ds div 256, ds_port ds mod 256) else None)"
    for b using port by (simp add: split_port_def)
  have "sc' = sc\<lparr>data_socket := Some ds\<rparr> \<and>
    bytes_sent (self_pid sw) (client_sockfd sc) (trace sw') =
      bytes_sent (self_pid sw) (client_sockfd sc) (trace sw) @ pasv_reply (sin_addr (ds_addr ds)) (ds_port ds)"
    using assms(1,2) ds split quietD(1) [OF q] quiet_bytes_sent [OF q]
    by (auto simp: pasv_command_def create_passive_data_socket_def pasv_reply_def Let_def
        split: if_splits option.splits)
  then have "answer = pasv_reply (sin_addr (ds_addr ds)) (ds_port ds)" "data_socket sc' = Some ds"
    using assms(3) by simp_all
  moreover from this assms(5)
  have "net_in w (cl_sockfd c) = [pasv_reply (sin_addr (ds_addr ds)) (ds_port ds)]" by simp
  from initialize_passive [OF assms(4) this] port
  have "initialize_client_data_socket env c w =
    Done (COMMAND_SUCCESS, c\<lparr>cl_data_socket := Some (announced_socket s (sin_addr (ds_addr ds)) (ds_port ds))\<rparr>)
      (after_pasv c s [] w)" by simp
  ultimately show ?thesis
    by (intro exI [of _ ds] exI [of _ "announced_socket s (sin_addr (ds_addr ds)) (ds_port ds)"]
      exI [of _ "after_pasv c s [] w"]) (simp add: announced_socket_def)
qed

theorem client_connects_to_announced_port_witness:
  "\<exists>sc' sw' ds cds w'. pasv_command demo_os (demo_command ''PASV'' []) demo_user demo_world =
      Inr (COMMAND_SUCCESS, sc', sw') \<and> data_socket sc' = Some ds \<and>
    initialize_client_data_socket demo_env demo_client
        (demo_client_world [] [msg_passive ''127,0,0,1'' 156 64]) =
      Done (COMMAND_SUCCESS, demo_client\<lparr>cl_data_socket := Some cds\<rparr>) w' \<and>
    cds_sockfd cds = 5 \<and> cds_port cds = ds_port ds \<and>
    cds_addr cds = \<lparr>sin_addr = sin_addr (ds_addr ds), sin_port = word_of_int (ds_port ds)\<rparr>"
proof -
  have "setup_passive_data_socket demo_os demo_world =
      (Some \<lparr>data_socket_mode = PASSIVE, data_sockfd = 5, ds_addr = passive_sockin, ds_address = None,
         ds_port = 40000, ds_client_sockfd = -1\<rparr>, demo_world\<lparr>open_fds := {5, 3, 4}\<rparr>)"
    by (simp add: setup_passive_data_socket_def init_passive_data_socket_def setup_socket_fd_def
        socket_def bind_socket_def listen_socket_def set_final_port_def demo_os_def demo_world_def Let_def)
  from pasv_announces_port [OF _ this, of demo_user "demo_command ''PASV'' []"]
  obtain sc' sw' where p: "pasv_command demo_os (demo_command ''PASV'' []) demo_user demo_world =
      Inr (COMMAND_SUCCESS, sc', sw')"
    "trace sw' = [Printed (log_passive_created 40000),
      Sent 1 (client_sockfd demo_user) (msg_passive ''127,0,0,1'' 156 64)]"
    by (auto simp: demo_user_def demo_os_def demo_world_def)
  have b: "bytes_sent (self_pid demo_world) (client_sockfd demo_user) (trace sw') =
      bytes_sent (self_pid demo_world) (client_sockfd demo_user) (trace demo_world) @
        msg_passive ''127,0,0,1'' 156 64"
    using p(2) by (simp add: demo_world_def)
  have l: "logged_in demo_user" by (simp add: demo_user_def)
  have n: "net_in (demo_client_world [] [msg_passive ''127,0,0,1'' 156 64]) (cl_sockfd demo_client) =
      [msg_passive ''127,0,0,1'' 156 64]" by (simp add: demo_client_def demo_client_world_def)
  from client_connects_to_announced_port [OF p(1) l b demo_client_ready n] p(1) show ?thesis by blast
qed

end
