(* ===== verification/Client_Session_Properties.thy ===== *)
theory Client_Session_Properties
  imports Client_Properties Control_Input Server
begin

text \<open>
  The login from both ends: what the client sends for the lines the user types, what the server
  makes of them, and what the client makes of the server's replies.
\<close>

section \<open>The client's side\<close>

lemma read_input_line:
  assumes "net_in w 0 = (l @ [LF]) # ls" "LF \<notin> set l"
  shows "read_input env w = Done (Some (l @ [LF])) (w\<lparr>net_in := (net_in w)(0 := ls)\<rparr>)"
proof -
  have "takeWhile (\<lambda>c. c \<noteq> LF) (l @ [LF]) = l" "dropWhile (\<lambda>c. c \<noteq> LF) (l @ [LF]) = [LF]"
    using assms(2) by (induction l) auto
  then have "stream_getline [] (net_in w 0) e = (Line (l @ [LF]), [], ls)" for e
    using assms(1) by (simp add: stream_getline.simps)
  then show ?thesis by (simp add: read_input_def)
qed

definition typed_line :: "string \<Rightarrow> bool" where
  "typed_line l \<longleftrightarrow> LF \<notin> set l \<and> NUL \<notin> set l"

lemma typed_line_c_str: "typed_line l \<Longrightarrow> c_str (l @ [LF]) = l @ [LF]"
  by (intro c_str_id) (simp add: typed_line_def)

lemma attempt_login_accepted:
  assumes "\<And>v fd. os_fdopen (env_os env) v fd" "cl_sockfd c \<noteq> 0"
    and "net_in w 0 = (u @ [LF]) # (p @ [LF]) # ls" "typed_line u" "typed_line p"
    and "net_in w (cl_sockfd c) = r1 # r2 # ps" "plain_line r1" "plain_line r2"
    and "has_code ''331'' r1" "has_code ''230'' r2"
  shows "\<exists>w'. attempt_login env c w = Done 1 w' \<and>
    trace w' = trace w @ [Printed ''Username: '', Sent (self_pid w) (cl_sockfd c) (''USER '' @ u @ [LF]),
      Printed ''Password: '', Sent (self_pid w) (cl_sockfd c) (''PASS '' @ p @ [LF]),
      Printed msg_login_successful]"
proof -
  have ne: "0 \<noteq> cl_sockfd c" using assms(2) by simp
  let ?w1 = "printf ''Username: '' w"
  let ?w2 = "?w1\<lparr>net_in := (net_in ?w1)(0 := (p @ [LF]) # ls)\<rparr>"
  have 1: "get_username env w = Done (Some (u @ [LF])) ?w2"
    using assms(3,4) read_input_line [of ?w1 u "(p @ [LF]) # ls" env]
    by (simp add: get_username_def typed_line_def Let_def)
  let ?w3 = "dprintf (cl_sockfd c) (''USER '' @ u @ [LF]) ?w2"
  let ?w4 = "?w3\<lparr>net_in := (net_in ?w3)(cl_sockfd c := r2 # ps)\<rparr>"
  have "read_response env (cl_sockfd c) ?w3 = Done (Some r1) ?w4"
    using assms(1,6,7) ne by (intro read_plain_line) simp_all
  then have 2: "send_user_command env c (u @ [LF]) ?w2 = Done True ?w4"
    using assms(9) typed_line_c_str [OF assms(4)] by (simp add: send_user_command_def Let_def)
  let ?w5 = "printf ''Password: '' ?w4"
  let ?w6 = "?w5\<lparr>net_in := (net_in ?w5)(0 := ls)\<rparr>"
  have 3: "client_get_password env ?w4 = Done (Some (p @ [LF])) ?w6"
    using assms(2,5) read_input_line [of ?w5 p ls env]
    by (simp add: client_get_password_def typed_line_def Let_def)
  let ?w7 = "dprintf (cl_sockfd c) (''PASS '' @ p @ [LF]) ?w6"
  let ?w8 = "?w7\<lparr>net_in := (net_in ?w7)(cl_sockfd c := ps)\<rparr>"
  have "read_response env (cl_sockfd c) ?w7 = Done (Some r2) ?w8"
    using assms(1,8) ne by (intro read_plain_line) simp_all
  then have 4: "send_pass_command env c (p @ [LF]) ?w6 = Done True (printf msg_login_successful ?w8)"
    using assms(10) typed_line_c_str [OF assms(5)] by (simp add: send_pass_command_def Let_def)
  show ?thesis using 1 2 3 4 by (simp add: attempt_login_def)
qed

lemma login_accepted:
  assumes "\<And>v fd. os_fdopen (env_os env) v fd" "\<And>v. \<not> env_stopped env v" "cl_sockfd c \<noteq> 0"
    and "net_in w 0 = (u @ [LF]) # (p @ [LF]) # ls" "typed_line u" "typed_line p"
    and "net_in w (cl_sockfd c) = greeting # r1 # r2 # ps" "plain_line greeting" "plain_line r1"
    and "plain_line r2" "has_code ''331'' r1" "has_code ''230'' r2"
  shows "\<exists>w'. login env c w = Done 1 w' \<and>
    bytes_sent (self_pid w) (cl_sockfd c) (trace w') =
      bytes_sent (self_pid w) (cl_sockfd c) (trace w) @ (''USER '' @ u @ [LF]) @ (''PASS '' @ p @ [LF])"
proof -
  have ne: "0 \<noteq> cl_sockfd c" using assms(3) by simp
  let ?w = "w\<lparr>net_in := (net_in w)(cl_sockfd c := r1 # r2 # ps)\<rparr>"
  have "read_response env (cl_sockfd c) w = Done (Some greeting) ?w"
    using assms(1,7,8) by (intro read_plain_line) simp_all
  moreover have "\<exists>w'. attempt_login env c ?w = Done 1 w' \<and>
    trace w' = trace ?w @ [Printed ''Username: '', Sent (self_pid ?w) (cl_sockfd c) (''USER '' @ u @ [LF]),
      Printed ''Password: '', Sent (self_pid ?w) (cl_sockfd c) (''PASS '' @ p @ [LF]),
      Printed msg_login_successful]"
    using assms ne by (intro attempt_login_accepted) simp_all
  ultimately show ?thesis
    using assms(2) by (auto simp: login_def login_loop.simps [of env c ?w] is_client_stopped_def)
qed

section \<open>The server's side\<close>

text \<open>A name the server accepts is a word; \<open>client_line\<close> is the command of a line.\<close>

lemma anonymous_word: "anonymous u \<Longrightarrow> list_all (\<lambda>c. \<not> isspace c \<and> c \<noteq> NUL) u \<and> u \<noteq> [] \<and> typed_line u"
  by (auto simp: anonymous_def isspace_def typed_line_def)

lemma anonymous_strcmp: "anonymous u \<Longrightarrow> strcmp u ''Anonymous'' = 0 \<or> strcmp u ''anonymous'' = 0"
  by (auto simp: anonymous_def)

lemma session_names: "touppercase ''USER'' = ''USER''" "touppercase ''PASS'' = ''PASS''"
  by code_simp+

lemma server_takes_user:
  assumes "stream c = Some s" "client_addr c = Some a" "\<not> logged_in c" "anonymous u"
    and "pending c w = ''USER '' @ u @ [LF]" "\<And>v site. os_malloc os v site"
  shows "\<exists>c' w' s'. handle_client_command os c w = Inr (Some (COMMAND_SUCCESS, c', w')) \<and>
    user c' = Some u \<and> \<not> logged_in c' \<and> client_sockfd c' = client_sockfd c \<and>
    client_addr c' = Some a \<and> stream c' = Some s' \<and> read_ahead s' = [] \<and> fileno s' = fileno s \<and>
    self_pid w' = self_pid w \<and>
    bytes_sent (self_pid w) (client_sockfd c) (trace w') =
      bytes_sent (self_pid w) (client_sockfd c) (trace w) @ msg_need_password"
proof -
  let ?cmd = "\<lparr>name = ''USER'', argc = 1, argv = [u]\<rparr>"
  have cmd: "writable_command ?cmd" "nul_free ?cmd"
    using anonymous_word [OF assms(4)]
    by (auto simp: writable_command_def wf_command_def isspace_def nul_free_def list_all_iff)
  have "\<exists>rest chunks c1 w1. (c1, w1) = received c w s rest chunks \<and> rest @ concat chunks = [] \<and>
      read_socket c w = Inr (Line (''USER '' @ u), c1, w1) \<and>
      handle_client_command os c w =
        in_turn (execute_command os (Some ?cmd) c1 (printf (log_command a (''USER '' @ u)) w1))"
    using assms cmd(1) by (intro handle_line [where b = "[]"]) simp_all
  then obtain chunks c1 w1 where r: "(c1, w1) = received c w s [] chunks"
    and h: "handle_client_command os c w =
        in_turn (execute_command os (Some ?cmd) c1 (printf (log_command a (''USER '' @ u)) w1))"
    by auto
  then show ?thesis
    using assms(2,3) cmd(2)
    by (simp add: received_def execute_by_name session_names command_handlers_def user_command_def
        argv0_def Let_def)
qed

lemma server_takes_password:
  assumes "stream c = Some s" "client_addr c = Some a" "\<not> logged_in c" "user c = Some u" "anonymous u"
    and "pending c w = ''PASS '' @ [LF]" "\<And>v site. os_malloc os v site"
  shows "\<exists>c' w'. handle_client_command os c w = Inr (Some (COMMAND_SUCCESS, c', w')) \<and>
    logged_in c' \<and>
    bytes_sent (self_pid w) (client_sockfd c) (trace w') =
      bytes_sent (self_pid w) (client_sockfd c) (trace w) @ msg_login_ok"
proof -
  let ?cmd = "\<lparr>name = ''PASS'', argc = 0, argv = []\<rparr>"
  have cmd: "writable_command ?cmd" "nul_free ?cmd"
    by (auto simp: writable_command_def wf_command_def isspace_def nul_free_def)
  have "\<exists>rest chunks c1 w1. (c1, w1) = received c w s rest chunks \<and> rest @ concat chunks = [] \<and>
      read_socket c w = Inr (Line (''PASS ''), c1, w1) \<and>
      handle_client_command os c w =
        in_turn (execute_command os (Some ?cmd) c1 (printf (log_command a (''PASS '')) w1))"
    using assms cmd(1) by (intro handle_line [where b = "[SP]"]) (simp_all add: isspace_def)
  then obtain chunks c1 w1 where r: "(c1, w1) = received c w s [] chunks"
    and h: "handle_client_command os c w =
        in_turn (execute_command os (Some ?cmd) c1 (printf (log_command a (''PASS '')) w1))"
    by auto
  then show ?thesis
    using assms(3,4) cmd(2) anonymous_strcmp [OF assms(5)]
    by (simp add: received_def execute_by_name session_names command_handlers_def
        pass_command_cases get_password_def)
qed

section \<open>The files of a session\<close>









text \<open>
  One command, symbolic links included: a command changes no file of the client but the one that
  a name without a slash leads to from the directory the client was started in, and leaves that
  directory and the connection to the server as they are.
\<close>

lemma client_writes_own_directory:
  assumes "client_execute_command env (Some cmd) c w = Done (st, c') w'"
    and "lookup (fsys w') q \<noteq> lookup (fsys w) q"
  shows "cl_sockfd c' = cl_sockfd c \<and> cwd w' = cwd w \<and>
    (\<exists>filename. SLASH \<notin> set filename \<and> resolve (fsys w) (cwd w) filename \<in> {Found q, Missing q})"
  using client_execute_contract [OF assms(1)] assms(2) downloads_input [of w w']
  by (auto simp: downloads_def local_writes_def same_server_def)

section \<open>Properties\<close>


text \<open>
  The loop of the client makes progress: a turn that does not end the session has
  taken bytes the user has typed and never adds any, so that there are at most as many turns as
  bytes.
\<close>

lemma client_loop_progress:
  assumes "loop_execution env c w = Done (st, c') w'" "st \<noteq> COMMAND_QUIT"
  shows "input_left 0 w' < input_left 0 w"
  using assms by (rule loop_execution_takes)

lemma dropWhile_tl: "\<not> P x \<Longrightarrow> list_all P a \<Longrightarrow> dropWhile P (a @ x # b) = x # b"
  by (induction a) auto

lemma takeWhile_all: "\<not> P x \<Longrightarrow> list_all P a \<Longrightarrow> takeWhile P (a @ x # b) = a"
  by (induction a) auto

lemma quoted_msg_pwd:
  assumes "QUOTE \<notin> set d" "NUL \<notin> set d"
  shows "quoted (msg_pwd (Some d)) = Some d"
proof -
  have "c_str (msg_pwd (Some d)) = ''257 '' @ QUOTE # d @ QUOTE # crlf"
    using assms(2) by (simp add: msg_pwd_def percent_s_def c_str_id)
  moreover have "takeWhile (\<lambda>c. c \<noteq> QUOTE) (d @ QUOTE # crlf) = d"
    using assms(1) by (intro takeWhile_all) (auto simp: list_all_iff)
  ultimately show ?thesis by (simp add: quoted_def)
qed

lemma msg_pwd_plain:
  assumes "LF \<notin> set d" "NUL \<notin> set d"
  shows "plain_line (msg_pwd (Some d))" "has_code ''257'' (msg_pwd (Some d))"
proof -
  have m: "msg_pwd (Some d) = (''257 '' @ [QUOTE] @ d @ [QUOTE, CR]) @ [LF]"
    by (simp add: msg_pwd_def percent_s_def)
  then show "plain_line (msg_pwd (Some d))"
    unfolding plain_line_iff using assms
    by (intro exI [of _ "''257 '' @ [QUOTE] @ d @ [QUOTE, CR]"] conjI) (assumption, simp_all)
  show "has_code ''257'' (msg_pwd (Some d))"
    unfolding m by (simp add: has_code_def c_str_def eval_nat_numeral)
qed

text \<open>
  What the client displays for PWD is the working directory of the connection, when
  its name has no quote in it.
\<close>

lemma pwd_shows_server_directory:
  assumes "pwd_command scmd sc sw = Inr (st, sc', sw')" "logged_in sc"
    and "working_directory sc = Some d" "QUOTE \<notin> set d" "LF \<notin> set d" "NUL \<notin> set d"
    and "bytes_sent (self_pid sw) (client_sockfd sc) (trace sw') =
      bytes_sent (self_pid sw) (client_sockfd sc) (trace sw) @ answer"
    and "client_ready env s" "net_in w (cl_sockfd c) = [answer]" "argc cmd = 0"
  shows "\<exists>w'. client_pwd_command env cmd c w = Done (COMMAND_SUCCESS, c) w' \<and>
    trace w' = trace w @ [Sent (self_pid w) (cl_sockfd c) (''PWD'' @ crlf),
      Printed (log_current_directory d)]"
proof -
  have "answer = msg_pwd (Some d)" using assms(1-3,7) by (auto simp: pwd_command_def)
  moreover note msg_pwd_plain [OF assms(5,6)]
  ultimately have "read_response env (cl_sockfd c) (dprintf (cl_sockfd c) (''PWD'' @ crlf) w) =
      Done (Some answer) ((dprintf (cl_sockfd c) (''PWD'' @ crlf) w)\<lparr>net_in :=
        (net_in (dprintf (cl_sockfd c) (''PWD'' @ crlf) w))(cl_sockfd c := [])\<rparr>)"
    using assms(9) client_readyD(3) [OF assms(8)] by (intro read_plain_line) simp_all
  then show ?thesis
    using assms(10) \<open>answer = msg_pwd (Some d)\<close> msg_pwd_plain(2) [OF assms(5,6)]
      quoted_msg_pwd [OF assms(4,6)]
    by (simp add: client_pwd_command_def display_current_path_def Let_def)
qed

text \<open>
  Property C39.  After a CD that the server accepted the client asks for the new path, and only an
  answer 257 is handled: when the connection ends instead, the missing answer is followed, and
  when the answer is an error, it is displayed after it was freed.
\<close>

theorem cd_after_success:
  assumes "client_ready env s" "argc cmd = 1" "net_in w (cl_sockfd c) = [ok] @ answers"
    and "plain_line ok" "has_code ''250'' ok" "net_eof w (cl_sockfd c)"
    and "list_all plain_line answers" "list_all (\<lambda>r. 4 \<le> length r) answers"
  shows "case answers of
      [] \<Rightarrow> cd_command env cmd c w = Crash Null_deref
    | r # _ \<Rightarrow> if has_code ''257'' r then \<exists>w'. cd_command env cmd c w = Done (COMMAND_SUCCESS, c) w'
               else cd_command env cmd c w = Crash Use_after_free"
proof -
  note f = client_readyD(3) [OF assms(1)]
  let ?cwd = "''CWD '' @ percent_s (client_argv0 cmd) @ crlf"
  let ?w1 = "dprintf (cl_sockfd c) ?cwd w"
  let ?w2 = "dprintf (cl_sockfd c) (''PWD'' @ crlf) (?w1\<lparr>net_in := (net_in ?w1)(cl_sockfd c := answers)\<rparr>)"
  have "read_response env (cl_sockfd c) ?w1 =
      Done (Some ok) (?w1\<lparr>net_in := (net_in ?w1)(cl_sockfd c := answers)\<rparr>)"
    using assms(3,4) f by (intro read_plain_line) simp_all
  then have cd: "cd_command env cmd c w =
      and_then (display_new_path env c (?w1\<lparr>net_in := (net_in ?w1)(cl_sockfd c := answers)\<rparr>))
        (\<lambda>_ w. Done (COMMAND_SUCCESS, c) w)"
    using assms(2,5) by (simp add: cd_command_def Let_def)
  show ?thesis
  proof (cases answers)
    case Nil
    have "stream_getline [] [] True = (At_eof, [], [])" by (simp add: stream_getline.simps)
    then show ?thesis
      using assms(6) f Nil cd by (simp add: display_new_path_def read_response_def Let_def)
  next
    case (Cons r rs)
    then have "read_response env (cl_sockfd c) ?w2 =
        Done (Some r) (?w2\<lparr>net_in := (net_in ?w2)(cl_sockfd c := rs)\<rparr>)"
      using assms(7) f by (intro read_plain_line) simp_all
    then show ?thesis
      using Cons cd assms(8) by (simp add: display_new_path_def after_code_def Let_def)
  qed
qed

theorem cd_after_success_witness:
  "cd_command demo_env (demo_command ''CD'' [''pub'']) demo_client
      ((demo_client_world [] [msg_cwd_ok, msg_please_login])\<lparr>net_eof := (\<lambda>_. True)\<rparr>) =
    Crash Use_after_free"
proof -
  have "plain_line msg_cwd_ok" "has_code ''250'' msg_cwd_ok" "plain_line msg_please_login"
    "\<not> has_code ''257'' msg_please_login" "4 \<le> length msg_please_login" by code_simp+
  with cd_after_success [OF demo_client_ready, of "demo_command ''CD'' [''pub'']"
      "(demo_client_world [] [msg_cwd_ok, msg_please_login])\<lparr>net_eof := (\<lambda>_. True)\<rparr>"
      demo_client msg_cwd_ok "[msg_please_login]"]
  show ?thesis by (simp add: demo_command_def demo_client_def demo_client_world_def)
qed

text \<open>
  The exit code of the client says nothing about its session: with valid arguments
  it is 0 whenever the client ends, whatever code \<open>client\<close> returned, 84 of a connection that was
  refused included.
\<close>

lemma client_main_hides_failure:
  assumes "length av = 3" "strcmp (av ! 1) ''-help'' \<noteq> 0" "1 \<le> atoi (av ! 2)" "atoi (av ! 2) \<le> 65535"
    and "inet_pton (av ! 1) = Some a" "client_run environment sigs (av ! 1) (atoi (av ! 2)) w = Done r w'"
  shows "client_main environment sigs av w = Done 0 w'"
  using assms by (simp add: client_main_def ip_is_valid_def Let_def)

text \<open>The server is not there.\<close>

lemma client_main_hides_failure_witness:
  "\<exists>env w'. client_run env sigs ''127.0.0.1'' 4242 (demo_client_world [] []) = Done 84 w' \<and>
    client_main env sigs [''./myftp_client'', ''127.0.0.1'', ''4242''] (demo_client_world [] []) = Done 0 w'"
proof -
  let ?env = "\<lambda>_. demo_env\<lparr>env_os := demo_os\<lparr>os_connect := (\<lambda>_ _ _. False)\<rparr>\<rparr>"
  have pton: "inet_pton ''127.0.0.1'' = Some INADDR_LOOPBACK" by code_simp
  then have "\<exists>w'. client_run ?env sigs ''127.0.0.1'' 4242 (demo_client_world [] []) = Done 84 w'"
    by (simp add: client_run_def connect_to_server_def client_init_sockin_def socket_def demo_os_def Let_def)
  then obtain w' where r: "client_run ?env sigs ''127.0.0.1'' 4242 (demo_client_world [] []) = Done 84 w'"
    by blast
  have "atoi ''4242'' = 4242" "strcmp ''127.0.0.1'' ''-help'' \<noteq> 0" by code_simp+
  with client_main_hides_failure [of "[''./myftp_client'', ''127.0.0.1'', ''4242'']" INADDR_LOOPBACK
      ?env sigs "demo_client_world [] []" 84 w'] pton r
  show ?thesis by auto
qed

lemma pwd_shows_server_directory_witness:
  "\<exists>w'. client_pwd_command demo_env (demo_command ''PWD'' []) demo_client
      (demo_client_world [] [msg_pwd (Some demo_root)]) = Done (COMMAND_SUCCESS, demo_client) w' \<and>
    trace w' = [Sent 50 3 (''PWD'' @ crlf), Printed (log_current_directory demo_root)]"
proof -
  have "pwd_command (demo_command ''PWD'' []) demo_user demo_world =
      Inr (COMMAND_SUCCESS, demo_user, reply demo_user (msg_pwd (Some demo_root)) demo_world)"
    by (simp add: pwd_command_def demo_user_def demo_conn_def)
  from pwd_shows_server_directory [OF this, of demo_root "msg_pwd (Some demo_root)" demo_env 5
      "demo_client_world [] [msg_pwd (Some demo_root)]" demo_client "demo_command ''PWD'' []"]
  show ?thesis
    using demo_client_ready
    by (simp add: demo_user_def demo_conn_def demo_root_def demo_command_def demo_client_def
        demo_client_world_def)
qed


lemma client_loop_progress_witness:
  "\<exists>c' w'. loop_execution demo_env demo_client (demo_client_world [''help'' @ [LF]] []) =
      Done (COMMAND_SUCCESS, c') w' \<and>
    input_left 0 w' < input_left 0 (demo_client_world [''help'' @ [LF]] [])"
proof -
  let ?w = "demo_client_world [''help'' @ [LF]] []"
  have "client_parse_buffer (\<lambda>_. True) (''help'' @ [LF]) =
      Inr (Some \<lparr>name = ''help'', argc = 0, argv = []\<rparr>)" by code_simp
  moreover have "touppercase ''help'' = ''HELP''" by code_simp
  moreover have "c_str (''help'' @ [LF]) = ''help'' @ [LF]" by (simp add: c_str_def)
  ultimately have "\<exists>c' w'. loop_execution demo_env demo_client ?w = Done (COMMAND_SUCCESS, c') w'"
    using read_input_line [of "printf ''myftp> '' ?w" "''help''" "[]" demo_env]
    by (simp add: loop_execution_def demo_client_world_def demo_env_def demo_os_def
        client_execute_command_def client_get_command_handler_def client_command_handlers_def
        client_help_command_def Let_def)
  then obtain c' w' where r: "loop_execution demo_env demo_client ?w = Done (COMMAND_SUCCESS, c') w'"
    by blast
  from client_loop_progress [OF r] r show ?thesis by blast
qed

text \<open>
  Property C22.  The login works from end to end.  When the user types an accepted name and an empty
  password, the two lines the client writes are lines the server takes as USER and PASS, the
  replies it sends are those the client waits for, and both sides end logged in: the client's
  \<open>login\<close> returns 1 and the server's connection has the flag set.
\<close>

theorem client_and_server_log_in:
  assumes "stream sc = Some s" "client_addr sc = Some a" "\<not> logged_in sc" "anonymous u"
    and "\<And>v site. os_malloc os v site"
    and user: "pending sc sw = ''USER '' @ u @ [LF]"
      "handle_client_command os sc sw = Inr (Some (st1, sc1, sw1))"
      "bytes_sent (self_pid sw) (client_sockfd sc) (trace sw1) =
         bytes_sent (self_pid sw) (client_sockfd sc) (trace sw) @ r1"
    and pass: "handle_client_command os sc1
        (sw1\<lparr>net_in := (net_in sw1)(fileno s := [''PASS '' @ [LF]])\<rparr>) = Inr (Some (st2, sc2, sw2))"
      "bytes_sent (self_pid sw) (client_sockfd sc) (trace sw2) =
         bytes_sent (self_pid sw) (client_sockfd sc) (trace sw1) @ r2"
    and client: "\<And>v fd. os_fdopen (env_os env) v fd" "\<And>v. \<not> env_stopped env v" "cl_sockfd c \<noteq> 0"
      "net_in w 0 = (u @ [LF]) # [LF] # ls" "net_in w (cl_sockfd c) = greeting # r1 # r2 # ps"
      "plain_line greeting"
  shows "logged_in sc2 \<and> (\<exists>w'. login env c w = Done 1 w' \<and>
    bytes_sent (self_pid w) (cl_sockfd c) (trace w') =
      bytes_sent (self_pid w) (cl_sockfd c) (trace w) @ (''USER '' @ u @ [LF]) @ (''PASS '' @ [LF]))"
proof -
  from server_takes_user [OF assms(1-4) user(1) assms(5)] user(2,3) obtain s'
    where 1: "user sc1 = Some u" "\<not> logged_in sc1" "client_sockfd sc1 = client_sockfd sc"
      "client_addr sc1 = Some a" "stream sc1 = Some s'" "read_ahead s' = []" "fileno s' = fileno s"
      "self_pid sw1 = self_pid sw" and r1: "r1 = msg_need_password" by auto
  let ?sw = "sw1\<lparr>net_in := (net_in sw1)(fileno s := [''PASS '' @ [LF]])\<rparr>"
  have "pending sc1 ?sw = ''PASS '' @ [LF]" using 1 by (simp add: pending_def)
  from server_takes_password [OF 1(5,4,2,1) assms(4) this assms(5)] pass 1(3,8)
  have 2: "logged_in sc2" and r2: "r2 = msg_login_ok" by auto
  have "plain_line r1" "plain_line r2" "has_code ''331'' r1" "has_code ''230'' r2"
    unfolding r1 r2 by code_simp+
  moreover have "typed_line u" "typed_line []"
    using anonymous_word [OF assms(4)] by (simp_all add: typed_line_def)
  ultimately show ?thesis
    using 2 login_accepted [OF client(1-3), of w u "[]" ls greeting r1 r2 ps] client(4-6) by simp
qed

theorem client_and_server_log_in_witness:
  "\<exists>(sc2 :: connection_t) w'. logged_in sc2 \<and>
    login demo_env demo_client
      (demo_client_world [''anonymous'' @ [LF], [LF]] [msg_welcome, msg_need_password, msg_login_ok]) =
      Done 1 w' \<and>
    bytes_sent 50 3 (trace w') = ''USER anonymous'' @ [LF] @ ''PASS '' @ [LF]"
proof -
  let ?sw = "demo_world\<lparr>net_in := (\<lambda>_. [''USER anonymous'' @ [LF]])\<rparr>"
  have conn: "stream demo_conn = Some \<lparr>fileno = 4, read_ahead = []\<rparr>"
    "client_addr demo_conn = Some \<lparr>sin_addr = INADDR_LOOPBACK, sin_port = 50000\<rparr>"
    "\<not> logged_in demo_conn" "anonymous ''anonymous''" "\<And>v site. os_malloc demo_os v site"
    by (simp_all add: demo_conn_def anonymous_def demo_os_def)
  have user: "pending demo_conn ?sw = ''USER '' @ ''anonymous'' @ [LF]"
    by (simp add: pending_def demo_conn_def)
  from server_takes_user [OF conn(1-4) user conn(5)] obtain sc1 sw1 s1
    where 1: "handle_client_command demo_os demo_conn ?sw = Inr (Some (COMMAND_SUCCESS, sc1, sw1))"
      "bytes_sent (self_pid ?sw) (client_sockfd demo_conn) (trace sw1) =
         bytes_sent (self_pid ?sw) (client_sockfd demo_conn) (trace ?sw) @ msg_need_password"
    and c1: "user sc1 = Some ''anonymous''" "\<not> logged_in sc1" "client_sockfd sc1 = 4"
      "client_addr sc1 = Some \<lparr>sin_addr = INADDR_LOOPBACK, sin_port = 50000\<rparr>"
      "stream sc1 = Some s1" "read_ahead s1 = []" "fileno s1 = 4" "self_pid sw1 = self_pid ?sw"
    by (auto simp: demo_conn_def)
  let ?sw1 = "sw1\<lparr>net_in := (net_in sw1)(4 := [''PASS '' @ [LF]])\<rparr>"
  have "pending sc1 ?sw1 = ''PASS '' @ [LF]" using c1 by (simp add: pending_def)
  from server_takes_password [OF c1(5,4,2,1) conn(4) this conn(5)] c1 obtain sc2 sw2
    where 2: "handle_client_command demo_os sc1 ?sw1 = Inr (Some (COMMAND_SUCCESS, sc2, sw2))"
      "bytes_sent (self_pid ?sw) (client_sockfd demo_conn) (trace sw2) =
         bytes_sent (self_pid ?sw) (client_sockfd demo_conn) (trace sw1) @ msg_login_ok"
    by (auto simp: demo_conn_def)
  have "plain_line msg_welcome" by code_simp
  then have "logged_in sc2 \<and> (\<exists>w'. login demo_env demo_client
      (demo_client_world [''anonymous'' @ [LF], [LF]] [msg_welcome, msg_need_password, msg_login_ok]) =
      Done 1 w' \<and> bytes_sent 50 3 (trace w') = (''USER '' @ ''anonymous'' @ [LF]) @ (''PASS '' @ [LF]))"
    using client_and_server_log_in [OF conn user 1, of COMMAND_SUCCESS sc2 sw2 msg_login_ok demo_env
        demo_client "demo_client_world [''anonymous'' @ [LF], [LF]]
          [msg_welcome, msg_need_password, msg_login_ok]" "[]" msg_welcome "[]"] 2
    by (simp add: demo_env_def demo_os_def demo_client_def demo_client_world_def)
  then show ?thesis by auto
qed

end
