(* ===== verification/C_Heap.thy ===== *)
theory C_Heap
  imports World
begin

text \<open>
  The heap of a C process, for the theories that follow who owns which block: live blocks by
  address, pointers with an offset into their block, \<open>malloc\<close>, \<open>strdup\<close>, \<open>free\<close>, and the loads and
  stores the code makes through pointers.  \<open>free\<close> is strict: anything but NULL or the start of a
  live block is the fault \<open>Bad_free\<close>; a load through a pointer to a block that was given back is
  \<open>Use_after_free\<close>.
\<close>

section \<open>Blocks and pointers\<close>

datatype ptr = NULL | Ptr nat int

text \<open>
  The contents of a block, by the C type it was allocated for.  A pointer array holds \<open>None\<close> in the
  cells that were never written.  \<open>Raw_block\<close> is a block whose contents no free depends on (an
  address, an array of integers, a \<open>FILE\<close>).
\<close>

datatype block =
    Command_block ptr int ptr             \<comment> \<open>\<open>command_t\<close>: name, argc, argv\<close>
  | Pointers_block "ptr option list"
  | Text_block string
  | Data_socket_block data_socket_mode_t ptr  \<comment> \<open>\<open>data_socket_t\<close>: mode, address\<close>
  | Raw_block

record heap =
  blocks :: "nat \<rightharpoonup> block"
  next_block :: nat

text \<open>Every address from \<open>next_block\<close> on is fresh.\<close>

definition heap_ok :: "heap \<Rightarrow> bool" where
  "heap_ok h \<longleftrightarrow> (\<forall>a \<ge> next_block h. blocks h a = None)"

definition empty_heap :: heap where
  "empty_heap = \<lparr>blocks = Map.empty, next_block = 0\<rparr>"

section \<open>The library\<close>

text \<open>The rest of a run, unless a fault ended it.\<close>

definition on_ok :: "'a result \<Rightarrow> ('a \<Rightarrow> 'b result) \<Rightarrow> 'b result" where
  "on_ok r f = (case r of Inl e \<Rightarrow> Inl e | Inr x \<Rightarrow> f x)"

lemma on_ok_simps [simp]: "on_ok (Inl e) f = Inl e" "on_ok (Inr x) f = f x"
  by (simp_all add: on_ok_def)

lemma on_ok_assoc: "on_ok (on_ok r f) g = on_ok r (\<lambda>x. on_ok (f x) g)"
  by (cases r) auto

lemma on_ok_Inr: "on_ok r f = Inr y \<longleftrightarrow> (\<exists>x. r = Inr x \<and> f x = Inr y)"
  by (cases r) auto

definition malloc :: "block \<Rightarrow> heap \<Rightarrow> ptr \<times> heap" where
  "malloc b h =
     (Ptr (next_block h) 0,
      h\<lparr>blocks := (blocks h)(next_block h \<mapsto> b), next_block := next_block h + 1\<rparr>)"

text \<open>The code uses the result of \<open>strdup\<close> without a test; it always succeeds here.\<close>

definition strdup :: "string \<Rightarrow> heap \<Rightarrow> ptr \<times> heap" where
  "strdup s h = malloc (Text_block s) h"

definition free :: "ptr \<Rightarrow> heap \<Rightarrow> heap result" where
  "free p h =
     (case p of
        NULL \<Rightarrow> Inr h
      | Ptr a i \<Rightarrow>
          if i = 0 \<and> blocks h a \<noteq> None then Inr (h\<lparr>blocks := (blocks h)(a := None)\<rparr>)
          else Inl Bad_free)"

fun ptr_add :: "ptr \<Rightarrow> int \<Rightarrow> ptr" where
  "ptr_add NULL n = NULL"
| "ptr_add (Ptr a i) n = Ptr a (i + n)"

definition block_of :: "ptr \<Rightarrow> heap \<Rightarrow> (nat \<times> int \<times> block) result" where
  "block_of p h =
     (case p of
        NULL \<Rightarrow> Inl Null_deref
      | Ptr a i \<Rightarrow>
          (case blocks h a of None \<Rightarrow> Inl Use_after_free | Some b \<Rightarrow> Inr (a, i, b)))"

text \<open>\<open>p[i]\<close> and \<open>p[i] = q\<close> on an array of pointers.\<close>

definition load :: "ptr \<Rightarrow> int \<Rightarrow> heap \<Rightarrow> ptr result" where
  "load p i h =
     (case block_of p h of
        Inr (a, j, Pointers_block cells) \<Rightarrow>
          if 0 \<le> j + i \<and> j + i < int (length cells)
          then (case cells ! nat (j + i) of None \<Rightarrow> Inl Uninit_read | Some q \<Rightarrow> Inr q)
          else Inl Out_of_bounds
      | Inr _ \<Rightarrow> Inl Out_of_bounds
      | Inl e \<Rightarrow> Inl e)"

definition store :: "ptr \<Rightarrow> int \<Rightarrow> ptr \<Rightarrow> heap \<Rightarrow> heap result" where
  "store p i q h =
     (case block_of p h of
        Inr (a, j, Pointers_block cells) \<Rightarrow>
          if 0 \<le> j + i \<and> j + i < int (length cells)
          then Inr (h\<lparr>blocks := (blocks h)(a \<mapsto> Pointers_block (cells[nat (j + i) := Some q]))\<rparr>)
          else Inl Out_of_bounds
      | Inr _ \<Rightarrow> Inl Out_of_bounds
      | Inl e \<Rightarrow> Inl e)"

text \<open>The string a pointer leads to, and the string overwritten in place by one that fits.\<close>

definition load_text :: "ptr \<Rightarrow> heap \<Rightarrow> string result" where
  "load_text p h =
     (case block_of p h of
        Inr (a, i, Text_block s) \<Rightarrow> if i = 0 then Inr s else Inl Out_of_bounds
      | Inr _ \<Rightarrow> Inl Out_of_bounds
      | Inl e \<Rightarrow> Inl e)"

definition store_text :: "ptr \<Rightarrow> string \<Rightarrow> heap \<Rightarrow> heap result" where
  "store_text p s h =
     (case block_of p h of
        Inr (a, i, Text_block t) \<Rightarrow>
          if i = 0 \<and> length s \<le> length t
          then Inr (h\<lparr>blocks := (blocks h)(a \<mapsto> Text_block s)\<rparr>)
          else Inl Out_of_bounds
      | Inr _ \<Rightarrow> Inl Out_of_bounds
      | Inl e \<Rightarrow> Inl e)"

section \<open>Their laws\<close>

lemma heap_update:
  "h\<lparr>next_block := n, blocks := b\<rparr> = \<lparr>blocks = b, next_block = n\<rparr>"
  "h\<lparr>blocks := b, next_block := n\<rparr> = \<lparr>blocks = b, next_block = n\<rparr>"
  by (cases h, simp)+

lemma heap_ok_fresh: "heap_ok h \<Longrightarrow> blocks h (next_block h) = None"
  by (simp add: heap_ok_def)

lemma heap_ok_live: "heap_ok h \<Longrightarrow> blocks h a = Some b \<Longrightarrow> a < next_block h"
  by (metis heap_ok_def leI option.distinct(1))

lemma heap_ok_malloc: "heap_ok h \<Longrightarrow> heap_ok (snd (malloc b h))"
  by (simp add: heap_ok_def malloc_def)

lemma heap_ok_unset: "heap_ok h \<Longrightarrow> heap_ok (h\<lparr>blocks := (blocks h)(a := None)\<rparr>)"
  by (simp add: heap_ok_def)

lemma heap_ok_finite: "heap_ok h \<Longrightarrow> finite (dom (blocks h))"
  by (rule finite_subset [of _ "{..<next_block h}"]) (auto dest: heap_ok_live)

lemma heap_ok_empty [simp]: "heap_ok empty_heap"
  by (simp add: heap_ok_def empty_heap_def)

lemma free_simps [simp]:
  "free NULL h = Inr h"
  "blocks h a = Some b \<Longrightarrow> free (Ptr a 0) h = Inr (h\<lparr>blocks := (blocks h)(a := None)\<rparr>)"
  by (simp_all add: free_def)

text \<open>A block is freed once: the second \<open>free\<close> is a fault.\<close>

lemma double_free:
  assumes "free (Ptr a i) h = Inr h'"
  shows "free (Ptr a i) h' = Inl Bad_free"
  using assms by (auto simp: free_def split: if_splits)

lemma free_heap_ok: "free p h = Inr h' \<Longrightarrow> heap_ok h \<Longrightarrow> heap_ok h'"
  by (auto simp: free_def heap_ok_def split: ptr.splits if_splits)

end
