(* ===== verification/Command_Memory.thy ===== *)
theory Command_Memory
  imports C_Heap
begin

text \<open>
  The memory of a parsed command: \<open>init_command\<close>, \<open>tokenize_buffer\<close>, \<open>setup_command\<close> and
  \<open>parse_buffer\<close> of \<open>command_parser.c\<close>, which allocate it, and the two \<open>destroy_command\<close> of
  \<open>src/destroyers.c\<close> and \<open>bonus/src/destroyers.c\<close>, which free it, on the heap of C_Heap.  The parser
  of the client is the same text as the one of the server (see \<open>client_parse_buffer_eq\<close>).
\<close>

section \<open>Allocation\<close>

definition heap_init_command :: "(alloc_site \<Rightarrow> bool) \<Rightarrow> heap \<Rightarrow> ptr \<times> heap" where
  "heap_init_command alloc h =
     (if \<not> alloc Alloc_command then (NULL, h) else malloc (Command_block NULL 0 NULL) h)"

text \<open>The loop that stores a copy of each token \<open>strtok\<close> gives.\<close>

fun heap_strtok_loop :: "ptr \<Rightarrow> int \<Rightarrow> string list \<Rightarrow> heap \<Rightarrow> heap result" where
  "heap_strtok_loop tokens i [] h = Inr h"
| "heap_strtok_loop tokens i (token # rest) h =
     (let (copy, h) = strdup token h
      in on_ok (store tokens i copy h) (heap_strtok_loop tokens (i + 1) rest))"

definition heap_strip_char :: "char \<Rightarrow> ptr \<Rightarrow> int \<Rightarrow> heap \<Rightarrow> heap result" where
  "heap_strip_char c tokens i h =
     on_ok (load tokens i h) (\<lambda>p. on_ok (load_text p h) (\<lambda>t.
       if t = [] then Inl Out_of_bounds
       else if last t = c then store_text p (butlast t) h
       else Inr h))"

definition heap_tokenize_buffer ::
    "(alloc_site \<Rightarrow> bool) \<Rightarrow> string \<Rightarrow> nat \<Rightarrow> heap \<Rightarrow> (ptr \<times> heap) result" where
  "heap_tokenize_buffer alloc buffer token_count h =
     (if \<not> alloc Alloc_tokens then Inr (NULL, h)
      else
        let (tokens, h) = malloc (Pointers_block (replicate (token_count + 1) None)) h
        in on_ok (heap_strtok_loop tokens 0 (strtok_loop buffer) h) (\<lambda>h.
           on_ok (heap_strip_char CR tokens (int token_count - 1) h) (\<lambda>h.
           on_ok (heap_strip_char LF tokens (int token_count - 1) h) (\<lambda>h.
           on_ok (store tokens (int token_count) NULL h) (\<lambda>h. Inr (tokens, h))))))"

definition store_command :: "ptr \<Rightarrow> block \<Rightarrow> heap \<Rightarrow> heap result" where
  "store_command p b h =
     on_ok (block_of p h) (\<lambda>(a, i, _). Inr (h\<lparr>blocks := (blocks h)(a \<mapsto> b)\<rparr>))"

definition heap_setup_command :: "ptr \<Rightarrow> ptr \<Rightarrow> nat \<Rightarrow> heap \<Rightarrow> heap result" where
  "heap_setup_command command tokens token_count h =
     on_ok (load tokens 0 h) (\<lambda>nm.
       store_command command (Command_block nm (int token_count - 1) (ptr_add tokens 1)) h)"

definition heap_parse_buffer ::
    "(alloc_site \<Rightarrow> bool) \<Rightarrow> string \<Rightarrow> heap \<Rightarrow> (ptr \<times> heap) result" where
  "heap_parse_buffer alloc buffer h =
     (let (command, h) = heap_init_command alloc h
      in if command = NULL then Inr (NULL, h)
         else let buffer = trim buffer
              in if buffer = [] then on_ok (free command h) (\<lambda>h. Inr (NULL, h))
                 else let token_count = count_args buffer
                      in on_ok (heap_tokenize_buffer alloc buffer token_count h) (\<lambda>(tokens, h).
                           if tokens = NULL then on_ok (free command h) (\<lambda>h. Inr (NULL, h))
                           else on_ok (heap_setup_command command tokens token_count h)
                                  (\<lambda>h. Inr (command, h))))"

section \<open>Deallocation\<close>

text \<open>
  \<open>for (int i = 0; i < argc && argv[i]; i++) free(argv[i])\<close>, with the rounds that are left.
\<close>

fun heap_free_args :: "ptr \<Rightarrow> int \<Rightarrow> nat \<Rightarrow> heap \<Rightarrow> heap result" where
  "heap_free_args av i 0 h = Inr h"
| "heap_free_args av i (Suc k) h =
     on_ok (load av i h) (\<lambda>p.
       if p = NULL then Inr h else on_ok (free p h) (heap_free_args av (i + 1) k))"

definition heap_destroy_command :: "ptr \<Rightarrow> heap \<Rightarrow> heap result" where
  "heap_destroy_command command h =
     (if command = NULL then Inr h
      else case block_of command h of
        Inr (_, _, Command_block nm ac av) \<Rightarrow>
          let tokens = ptr_add av (-1)
          in on_ok (free nm h) (\<lambda>h.
             on_ok (heap_free_args av 0 (nat ac) h) (\<lambda>h.
             free tokens h))
      | Inr _ \<Rightarrow> Inl Out_of_bounds
      | Inl e \<Rightarrow> Inl e)"

text \<open>The one of the client frees the structure as well.\<close>

definition client_heap_destroy_command :: "ptr \<Rightarrow> heap \<Rightarrow> heap result" where
  "client_heap_destroy_command command h =
     (if command = NULL then Inr h
      else case block_of command h of
        Inr (_, _, Command_block nm ac av) \<Rightarrow>
          let tokens = ptr_add av (-1)
          in on_ok (free nm h) (\<lambda>h.
             on_ok (heap_free_args av 0 (nat ac) h) (\<lambda>h.
             on_ok (free tokens h) (free command)))
      | Inr _ \<Rightarrow> Inl Out_of_bounds
      | Inl e \<Rightarrow> Inl e)"

section \<open>A command from its line to its end\<close>

text \<open>\<open>touppercase(command->name)\<close>, in place.\<close>

definition heap_touppercase_name :: "ptr \<Rightarrow> heap \<Rightarrow> heap result" where
  "heap_touppercase_name command h =
     (case block_of command h of
        Inr (_, _, Command_block nm _ _) \<Rightarrow>
          on_ok (load_text nm h) (\<lambda>s. store_text nm (touppercase s) h)
      | Inr _ \<Rightarrow> Inl Out_of_bounds
      | Inl e \<Rightarrow> Inl e)"

text \<open>
  \<open>handle_client_command\<close> as far as memory goes: the line of \<open>getline\<close>, the command, and what is
  freed.  A handler frees nothing of the command; the dispatcher writes its name.
\<close>

definition heap_handle_line :: "(alloc_site \<Rightarrow> bool) \<Rightarrow> string \<Rightarrow> heap \<Rightarrow> heap result" where
  "heap_handle_line alloc line h =
     (let (buffer, h) = malloc (Text_block line) h
      in on_ok (heap_parse_buffer alloc line h) (\<lambda>(command, h).
         on_ok (free buffer h) (\<lambda>h.
         on_ok (if command = NULL then Inr h else heap_touppercase_name command h)
           (heap_destroy_command command))))"

text \<open>\<open>loop_execution\<close> of the client: a blank line ends the session.\<close>

definition client_heap_handle_line :: "(alloc_site \<Rightarrow> bool) \<Rightarrow> string \<Rightarrow> heap \<Rightarrow> heap result" where
  "client_heap_handle_line alloc line h =
     (let (buffer, h) = malloc (Text_block line) h
      in on_ok (heap_parse_buffer alloc line h) (\<lambda>(command, h).
         if command = NULL then free buffer h
         else
           on_ok (heap_touppercase_name command h) (\<lambda>h.
           on_ok (free buffer h)
             (client_heap_destroy_command command))))"

fun heap_session ::
    "((alloc_site \<Rightarrow> bool) \<Rightarrow> string \<Rightarrow> heap \<Rightarrow> heap result) \<Rightarrow>
     ((alloc_site \<Rightarrow> bool) \<times> string) list \<Rightarrow> heap \<Rightarrow> heap result" where
  "heap_session handle_one [] h = Inr h"
| "heap_session handle_one ((alloc, line) # lines) h =
     on_ok (handle_one alloc line h) (heap_session handle_one lines)"

section \<open>What a pointer to a command means\<close>

fun read_args :: "ptr option list \<Rightarrow> heap \<Rightarrow> string list option" where
  "read_args (Some p # cells) h =
     (if p = NULL then Some []
      else case (load_text p h, read_args cells h) of
        (Inr s, Some ss) \<Rightarrow> Some (s # ss)
      | _ \<Rightarrow> None)"
| "read_args _ h = None"

definition read_command :: "heap \<Rightarrow> ptr \<Rightarrow> command_t option" where
  "read_command h p =
     (case block_of p h of
        Inr (_, _, Command_block nm ac av) \<Rightarrow>
          (case (load_text nm h, block_of av h) of
             (Inr s, Inr (_, i, Pointers_block cells)) \<Rightarrow>
               map_option (\<lambda>args. \<lparr>name = s, argc = ac, argv = args\<rparr>)
                 (read_args (drop (nat i) cells) h)
           | _ \<Rightarrow> None)
      | _ \<Rightarrow> None)"

text \<open>A command in memory: its structure at \<open>a\<close>, its token array at \<open>t\<close>, its tokens at \<open>xs\<close>.\<close>

definition command_at :: "heap \<Rightarrow> nat \<Rightarrow> nat \<Rightarrow> nat list \<Rightarrow> string list \<Rightarrow> bool" where
  "command_at h a t xs ss \<longleftrightarrow>
     xs \<noteq> [] \<and> distinct (a # t # xs) \<and>
     blocks h a = Some (Command_block (Ptr (hd xs) 0) (int (length xs) - 1) (Ptr t 1)) \<and>
     blocks h t = Some (Pointers_block (map (\<lambda>x. Some (Ptr x 0)) xs @ [Some NULL])) \<and>
     list_all2 (\<lambda>x s. blocks h x = Some (Text_block s)) xs ss"


section \<open>The parser allocates what it returns\<close>

text \<open>Loads and stores on a live array.\<close>

lemma load_at:
  "blocks h t = Some (Pointers_block cells) \<Longrightarrow> 0 \<le> j + i \<Longrightarrow> j + i < int (length cells) \<Longrightarrow>
   load (Ptr t j) i h = (case cells ! nat (j + i) of None \<Rightarrow> Inl Uninit_read | Some q \<Rightarrow> Inr q)"
  by (simp add: load_def block_of_def)

lemma store_at:
  "blocks h t = Some (Pointers_block cells) \<Longrightarrow> 0 \<le> i \<Longrightarrow> i < int (length cells) \<Longrightarrow>
   store (Ptr t 0) i q h =
     Inr (h\<lparr>blocks := (blocks h)(t \<mapsto> Pointers_block (cells[nat i := Some q]))\<rparr>)"
  by (simp add: store_def block_of_def)

lemma load_text_at: "blocks h x = Some (Text_block s) \<Longrightarrow> load_text (Ptr x 0) h = Inr s"
  by (simp add: load_text_def block_of_def)

text \<open>After the loop the tokens are in fresh blocks, in order, and the array points to them.\<close>

definition fresh_texts :: "nat \<Rightarrow> string list \<Rightarrow> nat \<rightharpoonup> block" where
  "fresh_texts n ss x =
     (if n \<le> x \<and> x < n + length ss then Some (Text_block (ss ! (x - n))) else None)"

lemma fresh_texts_Nil [simp]: "fresh_texts n [] = Map.empty"
  by (auto simp: fresh_texts_def)

lemma fresh_texts_Cons:
  "fresh_texts n (s # ss) = fresh_texts (Suc n) ss ++ [n \<mapsto> Text_block s]"
proof (rule ext)
  fix x
  have "x - n = Suc (x - Suc n)" if "n < x" using that by arith
  then show "fresh_texts n (s # ss) x = (fresh_texts (Suc n) ss ++ [n \<mapsto> Text_block s]) x"
    by (auto simp: fresh_texts_def map_add_def split: option.splits)
qed

lemma heap_strtok_loop_result:
  assumes "blocks h t = Some (Pointers_block (map Some ps @ replicate (length ss + r) None))"
    and "t < next_block h"
  shows "heap_strtok_loop (Ptr t 0) (int (length ps)) ss h =
    Inr \<lparr>blocks = (blocks h ++ fresh_texts (next_block h) ss)
           (t \<mapsto> Pointers_block (map Some (ps @ map (\<lambda>x. Ptr x 0)
              [next_block h..<next_block h + length ss]) @ replicate r None)),
         next_block = next_block h + length ss\<rparr>"
  using assms
proof (induction ss arbitrary: h ps)
  case Nil
  then show ?case by (simp add: map_upd_triv)
next
  case (Cons s ss)
  let ?n = "next_block h" and ?q = "Ptr (next_block h) 0"
  let ?h = "\<lparr>blocks = (blocks h)(?n \<mapsto> Text_block s,
      t \<mapsto> Pointers_block (map Some (ps @ [?q]) @ replicate (length ss + r) None)),
      next_block = Suc ?n\<rparr>"
  have upd: "(map Some ps @ replicate (Suc (length ss + r)) None)[length ps := Some ?q] =
      map Some (ps @ [?q]) @ replicate (length ss + r) None"
    by (simp add: list_update_append)
  have step: "heap_strtok_loop (Ptr t 0) (int (length ps)) (s # ss) h =
      heap_strtok_loop (Ptr t 0) (int (length (ps @ [?q]))) ss ?h"
    using Cons.prems upd by (simp add: strdup_def malloc_def store_at heap_update add.commute)
  have IH: "heap_strtok_loop (Ptr t 0) (int (length (ps @ [?q]))) ss ?h =
    Inr \<lparr>blocks = (blocks ?h ++ fresh_texts (next_block ?h) ss)
           (t \<mapsto> Pointers_block (map Some ((ps @ [?q]) @ map (\<lambda>x. Ptr x 0)
              [next_block ?h..<next_block ?h + length ss]) @ replicate r None)),
         next_block = next_block ?h + length ss\<rparr>"
    by (rule Cons.IH) (use Cons.prems in auto)
  have range: "[?n..<?n + length (s # ss)] = ?n # [Suc ?n..<Suc ?n + length ss]"
    by (simp add: upt_conv_Cons del: upt_Suc)
  have maps: "(blocks ?h ++ fresh_texts (next_block ?h) ss)(t \<mapsto> b) =
      (blocks h ++ fresh_texts ?n (s # ss))(t \<mapsto> b)" for b
    using Cons.prems(2)
    by (auto simp: fresh_texts_Cons fresh_texts_def map_add_def fun_eq_iff split: option.splits)
  show ?case unfolding step IH maps range by (simp add: fun_upd_def del: upt_Suc)
qed


text \<open>The two tests for CR and LF read the last token; they find no token after two spaces.\<close>

lemma heap_strip_char_other:
  assumes "blocks h t = Some (Pointers_block cells)" "cells \<noteq> []" "0 < i" "i \<le> int (length cells)"
    and "cells ! nat (i - 1) = Some (Ptr x 0)" "blocks h x = Some (Text_block s)" "s \<noteq> []" "last s \<noteq> c"
  shows "heap_strip_char c (Ptr t 0) (i - 1) h = Inr h"
  using assms by (simp add: heap_strip_char_def load_at load_text_at)

lemma heap_strip_char_unwritten:
  assumes "blocks h t = Some (Pointers_block cells)" "0 < i" "i \<le> int (length cells)"
    and "cells ! nat (i - 1) = None"
  shows "heap_strip_char c (Ptr t 0) (i - 1) h = Inl Uninit_read"
  using assms by (simp add: heap_strip_char_def load_at)

definition token_array :: "nat \<Rightarrow> nat \<Rightarrow> block" where
  "token_array n k = Pointers_block (map (\<lambda>x. Some (Ptr x 0)) [n..<n + k] @ [Some NULL])"

lemma heap_tokenize_single_spaced:
  fixes h :: heap
  assumes alloc: "alloc Alloc_tokens" and s: "s \<noteq> []" "single_spaced s" "\<not> isspace (last s)"
  defines "n \<equiv> next_block h" and "ss \<equiv> pieces SP s"
  shows "heap_tokenize_buffer alloc s (count_args s) h =
    Inr (Ptr n 0, \<lparr>blocks = (blocks h ++ fresh_texts (Suc n) ss)
                     (n \<mapsto> token_array (Suc n) (length ss)),
                   next_block = Suc n + length ss\<rparr>)"
proof -
  let ?k = "length ss"
  let ?c0 = "map (\<lambda>x. Some (Ptr x 0)) [Suc n..<Suc n + ?k] @ [None]"
  let ?h0 = "\<lparr>blocks = (blocks h)(n \<mapsto> Pointers_block (replicate (?k + 1) None)), next_block = Suc n\<rparr>"
  let ?h1 = "\<lparr>blocks = (blocks h ++ fresh_texts (Suc n) ss)(n \<mapsto> Pointers_block ?c0),
      next_block = Suc n + ?k\<rparr>"
  have k: "count_args s = ?k" "0 < ?k" "strtok_loop s = ss"
    using s(2) by (simp_all add: count_args_pieces ss_def single_spaced_tokens)
  have "heap_strtok_loop (Ptr n 0) (int (length ([] :: ptr list))) ss ?h0 =
      Inr \<lparr>blocks = (blocks ?h0 ++ fresh_texts (next_block ?h0) ss)
           (n \<mapsto> Pointers_block (map Some ([] @ map (\<lambda>x. Ptr x 0)
              [next_block ?h0..<next_block ?h0 + length ss]) @ replicate 1 None)),
         next_block = next_block ?h0 + length ss\<rparr>"
    by (rule heap_strtok_loop_result) auto
  moreover have "((blocks h)(n \<mapsto> b) ++ fresh_texts (Suc n) ss)(n \<mapsto> b') =
      (blocks h ++ fresh_texts (Suc n) ss)(n \<mapsto> b')" for b b'
    by (auto simp: map_add_def fun_eq_iff split: option.splits)
  ultimately have loop: "heap_strtok_loop (Ptr n 0) 0 ss ?h0 = Inr ?h1"
    by (simp add: comp_def del: upt_Suc)
  have last: "nat (int ?k - 1) = ?k - 1" using k(2) by arith
  have cell: "?c0 ! nat (int ?k - 1) = Some (Ptr (n + ?k) 0)" "int ?k \<le> int (length ?c0)"
    using k(2) last by (simp_all add: nth_append del: upt_Suc)
  have last_text: "blocks ?h1 (n + ?k) = Some (Text_block (last ss))"
    using k(2) by (simp add: fresh_texts_def map_add_def last_conv_nth Suc_le_eq)
  have "last (last ss) = last s" "last ss \<noteq> []"
    using last_piece_last [OF s(1,2)] last_piece_ne [OF s(2)] by (simp_all add: ss_def)
  then have "heap_strip_char c (Ptr n 0) (int ?k - 1) ?h1 = Inr ?h1" if "isspace c" for c
    by (intro heap_strip_char_other [OF _ _ _ cell(2,1) last_text]) (use k(2) s(3) that in auto)
  then have "heap_strip_char CR (Ptr n 0) (int ?k - 1) ?h1 = Inr ?h1"
    "heap_strip_char LF (Ptr n 0) (int ?k - 1) ?h1 = Inr ?h1" by (simp_all add: isspace_def)
  moreover have "store (Ptr n 0) (int ?k) NULL ?h1 =
      Inr (?h1\<lparr>blocks := (blocks ?h1)(n \<mapsto> token_array (Suc n) ?k)\<rparr>)"
    by (subst store_at) (auto simp: token_array_def list_update_append simp del: upt_Suc)
  ultimately show ?thesis
    using alloc k(1,3) loop
    by (simp add: heap_tokenize_buffer_def malloc_def heap_update n_def [symmetric] del: upt_Suc)
qed

lemma heap_tokenize_double_spaced:
  assumes "alloc Alloc_tokens" "\<not> single_spaced s"
  shows "heap_tokenize_buffer alloc s (count_args s) h = Inl Uninit_read"
proof -
  let ?n = "next_block h" and ?ss = "strtok_loop s" and ?k = "count_args s"
  let ?h0 = "\<lparr>blocks = (blocks h)(?n \<mapsto> Pointers_block (replicate (?k + 1) None)), next_block = Suc ?n\<rparr>"
  have "length ?ss < ?k"
    using assms(2) strtok_loop_length [of s] single_spaced_loop [of s] by simp
  then obtain d where d: "?k = Suc (length ?ss + d)" by (auto dest: less_imp_Suc_add)
  let ?r = "Suc (Suc d)"
  let ?ps = "map (\<lambda>x. Ptr x 0) [Suc ?n..<Suc ?n + length ?ss]"
  obtain h1 where loop: "heap_strtok_loop (Ptr ?n 0) 0 ?ss ?h0 = Inr h1"
    and cells: "blocks h1 ?n = Some (Pointers_block (map Some ?ps @ replicate ?r None))"
  proof (rule that)
    show "heap_strtok_loop (Ptr ?n 0) 0 ?ss ?h0 =
        Inr \<lparr>blocks = (blocks ?h0 ++ fresh_texts (Suc ?n) ?ss)
               (?n \<mapsto> Pointers_block (map Some ?ps @ replicate ?r None)),
             next_block = Suc ?n + length ?ss\<rparr>"
      using heap_strtok_loop_result [of ?h0 ?n "[]" ?ss ?r] d by (simp del: upt_Suc map_map)
  qed simp
  have ps: "length ?ps = length ?ss" by (simp del: upt_Suc)
  have none: "(None # None # replicate d None) ! d = (None :: ptr option)"
    by (simp flip: replicate_Suc)
  have "0 < int ?k" "int ?k \<le> int (length (map Some ?ps @ replicate ?r (None :: ptr option)))"
    "(map Some ?ps @ replicate ?r None) ! nat (int ?k - 1) = None"
    using d ps none by (auto simp: nth_append nat_int_add simp del: upt_Suc)
  then have "heap_strip_char CR (Ptr ?n 0) (int ?k - 1) h1 = Inl Uninit_read"
    by (rule heap_strip_char_unwritten [OF cells])
  with assms(1) loop show ?thesis
    by (simp add: heap_tokenize_buffer_def malloc_def heap_update)
qed


text \<open>The blocks of a command, from the address \<open>n\<close> on.\<close>

definition command_blocks :: "nat \<Rightarrow> string list \<Rightarrow> nat \<rightharpoonup> block" where
  "command_blocks n ss =
     (fresh_texts (Suc (Suc n)) ss)
       (Suc n \<mapsto> token_array (Suc (Suc n)) (length ss),
        n \<mapsto> Command_block (Ptr (Suc (Suc n)) 0) (int (length ss) - 1) (Ptr (Suc n) 1))"

lemma dom_command_blocks: "dom (command_blocks n ss) = {n..<n + 2 + length ss}"
proof -
  have "dom (fresh_texts m ss) = {m..<m + length ss}" for m
    by (auto simp: fresh_texts_def dom_def)
  then show ?thesis by (auto simp: command_blocks_def)
qed

lemma command_blocks_at:
  assumes "ss \<noteq> []" "\<And>x. x \<in> dom (command_blocks n ss) \<Longrightarrow> blocks h x = command_blocks n ss x"
  shows "command_at h n (Suc n) [Suc (Suc n)..<Suc (Suc n) + length ss] ss"
proof -
  have b: "n \<le> x \<Longrightarrow> x < n + 2 + length ss \<Longrightarrow> blocks h x = command_blocks n ss x" for x
    using assms(2) by (simp add: dom_command_blocks)
  have "list_all2 (\<lambda>x s. blocks h x = Some (Text_block s))
      [Suc (Suc n)..<Suc (Suc n) + length ss] ss"
    by (auto simp: list_all2_conv_all_nth b command_blocks_def fresh_texts_def simp del: upt_Suc)
  moreover have "hd [Suc (Suc n)..<Suc (Suc n) + length ss] = Suc (Suc n)"
    using assms(1) by (intro hd_upt) auto
  ultimately show ?thesis
    using assms(1) by (simp add: command_at_def b command_blocks_def token_array_def del: upt_Suc)
qed

lemma heap_parse_cases:
  fixes buffer :: string
  assumes "heap_ok h"
  defines "n \<equiv> next_block h" and "s \<equiv> trim buffer"
  shows "heap_parse_buffer alloc buffer h =
    (if \<not> alloc Alloc_command then Inr (NULL, h)
     else if s = [] \<or> \<not> alloc Alloc_tokens then Inr (NULL, h\<lparr>next_block := Suc n\<rparr>)
     else if single_spaced s
     then Inr (Ptr n 0, \<lparr>blocks = blocks h ++ command_blocks n (pieces SP s),
                         next_block = Suc (Suc n) + length (pieces SP s)\<rparr>)
     else Inl Uninit_read)"
proof -
  let ?ss = "pieces SP s" and ?c0 = "Command_block NULL 0 NULL"
  let ?h1 = "\<lparr>blocks = (blocks h)(n \<mapsto> ?c0), next_block = Suc n\<rparr>"
  have fresh: "blocks h n = None" using assms by (simp add: heap_ok_fresh)
  have init: "heap_init_command alloc h = (Ptr n 0, ?h1)" if "alloc Alloc_command"
    using that by (simp add: heap_init_command_def malloc_def n_def heap_update)
  have undo: "free (Ptr n 0) ?h1 = Inr (h\<lparr>next_block := Suc n\<rparr>)"
    using fresh by (simp add: map_upd_triv fun_upd_idem)
  have null: "heap_tokenize_buffer alloc s m ?h1 = Inr (NULL, ?h1)" if "\<not> alloc Alloc_tokens" for m
    using that by (simp add: heap_tokenize_buffer_def)
  show ?thesis
  proof (cases "alloc Alloc_command \<and> s \<noteq> [] \<and> alloc Alloc_tokens")
    case False
    then show ?thesis
      using init undo null
      by (auto simp: heap_parse_buffer_def heap_init_command_def s_def Let_def split: if_splits)
  next
    case True
    have ends: "\<not> isspace (last s)" using trim_ends [of buffer] True by (simp add: s_def)
    let ?m = "(blocks ?h1 ++ fresh_texts (Suc (Suc n)) ?ss)(Suc n \<mapsto> token_array (Suc (Suc n)) (length ?ss))"
    let ?h2 = "\<lparr>blocks = ?m, next_block = Suc (Suc n) + length ?ss\<rparr>"
    show ?thesis
    proof (cases "single_spaced s")
      case single: True
      have tok: "heap_tokenize_buffer alloc s (count_args s) ?h1 = Inr (Ptr (Suc n) 0, ?h2)"
        using heap_tokenize_single_spaced [of alloc s ?h1] True single ends by simp
      have n: "?m n = Some ?c0" by (simp add: fresh_texts_def map_add_def)
      have "load (Ptr (Suc n) 0) 0 ?h2 = Inr (Ptr (Suc (Suc n)) 0)"
        by (subst load_at [where cells = "map (\<lambda>x. Some (Ptr x 0))
              [Suc (Suc n)..<Suc (Suc n) + length ?ss] @ [Some NULL]"])
          (auto simp: token_array_def nth_append simp del: upt_Suc)
      then have "heap_setup_command (Ptr n 0) (Ptr (Suc n) 0) (count_args s) ?h2 =
          Inr (?h2\<lparr>blocks := ?m(n \<mapsto> Command_block (Ptr (Suc (Suc n)) 0) (int (length ?ss) - 1)
            (Ptr (Suc n) 1))\<rparr>)"
        using n by (simp add: heap_setup_command_def store_command_def block_of_def count_args_pieces)
      moreover have "?m(n \<mapsto> b) = blocks h ++ (fresh_texts (Suc (Suc n)) ?ss)
          (Suc n \<mapsto> token_array (Suc (Suc n)) (length ?ss), n \<mapsto> b)" for b
        by (auto simp: map_add_def fun_eq_iff split: option.splits)
      ultimately show ?thesis
        using True single init tok
        by (simp add: heap_parse_buffer_def command_blocks_def s_def [symmetric])
    next
      case double: False
      then show ?thesis
        using True init heap_tokenize_double_spaced [of alloc s ?h1]
        by (simp add: heap_parse_buffer_def s_def [symmetric])
    qed
  qed
qed

section \<open>The destructors free what the parser allocated\<close>

lemma restrict_unset: "(m(x := None)) |` (- A) = m |` (- insert x A)"
  by (auto simp: restrict_map_def)

lemma heap_free_args_result:
  assumes "blocks h t = Some (Pointers_block (map (\<lambda>x. Some (Ptr x 0)) (ys @ xs) @ [Some NULL]))"
    and "t \<notin> set xs" "distinct xs" "\<forall>x\<in>set xs. blocks h x \<noteq> None" "ys \<noteq> []"
  shows "heap_free_args (Ptr t 1) (int (length ys) - 1) (length xs) h =
    Inr (h\<lparr>blocks := blocks h |` (- set xs)\<rparr>)"
  using assms
proof (induction xs arbitrary: ys h)
  case Nil
  then show ?case by simp
next
  case (Cons x xs)
  let ?h = "h\<lparr>blocks := (blocks h)(x := None)\<rparr>"
  have "load (Ptr t 1) (int (length ys) - 1) h = Inr (Ptr x 0)"
    using Cons.prems(1) by (subst load_at) (auto simp: nth_append)
  moreover have "free (Ptr x 0) h = Inr ?h" using Cons.prems(4) by auto
  moreover have "heap_free_args (Ptr t 1) (int (length (ys @ [x])) - 1) (length xs) ?h =
      Inr (?h\<lparr>blocks := blocks ?h |` (- set xs)\<rparr>)"
    using Cons.prems by (intro Cons.IH) auto
  ultimately show ?case using Cons.prems(3) by (simp add: restrict_unset Compl_insert)
qed

lemma nat_pred: "nat (int n - 1) = n - Suc 0"
  by arith

text \<open>\<open>released A h\<close>: the heap without the blocks at \<open>A\<close>.\<close>

definition released :: "nat set \<Rightarrow> heap \<Rightarrow> heap" where
  "released A h = h\<lparr>blocks := blocks h |` (- A)\<rparr>"

lemma released_simps [simp]:
  "blocks (released A h) = blocks h |` (- A)" "next_block (released A h) = next_block h"
  by (simp_all add: released_def)

lemma free_tokens:
  assumes "command_at h a t xs ss"
  shows "on_ok (free (Ptr (hd xs) 0) h) (\<lambda>h. on_ok (heap_free_args (Ptr t 1) 0 (length xs - 1) h)
      (\<lambda>h. free (Ptr t 0) h)) = Inr (released (insert t (set xs)) h)"
proof -
  obtain x ys where xs: "xs = x # ys" using assms by (cases xs) (auto simp: command_at_def)
  have live: "\<forall>x\<in>set xs. blocks h x \<noteq> None"
    using assms by (auto simp: command_at_def list_all2_conv_all_nth in_set_conv_nth)
  have d: "distinct (t # x # ys)" and t: "blocks h t = Some (Pointers_block
      (map (\<lambda>x. Some (Ptr x 0)) ([x] @ ys) @ [Some NULL]))"
    using assms by (auto simp: command_at_def xs)
  let ?h = "h\<lparr>blocks := (blocks h)(x := None)\<rparr>"
  have "heap_free_args (Ptr t 1) (int (length [x]) - 1) (length ys) ?h =
      Inr (?h\<lparr>blocks := blocks ?h |` (- set ys)\<rparr>)"
    by (rule heap_free_args_result) (use d t live xs in auto)
  moreover obtain b where "blocks h x = Some b" using live xs by auto
  moreover have "- insert t (set xs) = - set ys - {x} - {t}" using xs by auto
  ultimately show ?thesis
    using d t by (simp add: xs released_def restrict_unset)
qed

lemma heap_destroy_command_at:
  assumes "command_at h a t xs ss"
  shows "heap_destroy_command (Ptr a 0) h = Inr (released (insert t (set xs)) h)"
  using free_tokens [OF assms] assms
  by (simp add: heap_destroy_command_def block_of_def command_at_def nat_pred)

lemma client_heap_destroy_command_at:
  assumes "command_at h a t xs ss"
  shows "client_heap_destroy_command (Ptr a 0) h = Inr (released (insert a (insert t (set xs))) h)"
proof -
  have "blocks (released (insert t (set xs)) h) a \<noteq> None"
    using assms by (auto simp: command_at_def)
  then have "free (Ptr a 0) (released (insert t (set xs)) h) =
      Inr (released (insert a (insert t (set xs))) h)"
    by (auto simp: released_def restrict_map_def fun_upd_def fun_eq_iff)
  with arg_cong [OF free_tokens [OF assms], of "\<lambda>r. on_ok r (free (Ptr a 0))"] assms
  show ?thesis
    by (simp add: client_heap_destroy_command_def block_of_def command_at_def nat_pred on_ok_assoc)
qed


section \<open>One line\<close>

lemma read_args_at:
  assumes "list_all2 (\<lambda>x s. blocks h x = Some (Text_block s)) xs ss"
  shows "read_args (map (\<lambda>x. Some (Ptr x 0)) xs @ [Some NULL]) h = Some ss"
  using assms by (induction rule: list_all2_induct) (auto simp: load_text_at)

lemma read_command_at:
  assumes "command_at h a t xs ss"
  shows "read_command h (Ptr a 0) =
    Some \<lparr>name = hd ss, argc = int (length (tl ss)), argv = tl ss\<rparr>"
proof -
  obtain x ys s ss' where xs: "xs = x # ys" "ss = s # ss'" "length ys = length ss'"
    using assms by (cases xs; cases ss) (auto simp: command_at_def dest: list_all2_lengthD)
  then have "list_all2 (\<lambda>x s. blocks h x = Some (Text_block s)) ys ss'"
    using assms by (auto simp: command_at_def)
  from read_args_at [OF this] assms xs show ?thesis
    by (simp add: read_command_def command_at_def block_of_def load_text_at)
qed

lemma read_command_NULL [simp]: "read_command h NULL = None"
  by (simp add: read_command_def block_of_def)

lemma touppercase_name_at:
  assumes "command_at h a t xs ss"
  defines "h' \<equiv> h\<lparr>blocks := (blocks h)(hd xs \<mapsto> Text_block (touppercase (hd ss)))\<rparr>"
  shows "heap_touppercase_name (Ptr a 0) h = Inr h'"
    and "command_at h' a t xs (touppercase (hd ss) # tl ss)"
proof -
  obtain x ys s ss' where xs: "xs = x # ys" "ss = s # ss'"
    using assms(1) by (cases xs; cases ss) (auto simp: command_at_def)
  show "heap_touppercase_name (Ptr a 0) h = Inr h'"
    using assms(1) xs
    by (simp add: heap_touppercase_name_def command_at_def block_of_def load_text_at store_text_def
        touppercase_def h'_def)
  have "list_all2 (\<lambda>x s. blocks h x = Some (Text_block s)) ys ss'" "x \<notin> set ys"
    using assms(1) xs by (auto simp: command_at_def)
  then have "list_all2 (\<lambda>x s. blocks h' x = Some (Text_block s)) ys ss'"
    using xs by (auto simp: h'_def elim!: list.rel_mono_strong)
  then show "command_at h' a t xs (touppercase (hd ss) # tl ss)"
    using assms(1) xs by (auto simp: command_at_def h'_def)
qed

lemma command_at_unset:
  "command_at h a t xs ss \<Longrightarrow> z \<notin> insert a (insert t (set xs)) \<Longrightarrow>
   command_at (h\<lparr>blocks := (blocks h)(z := None)\<rparr>) a t xs ss"
  by (auto simp: command_at_def list_all2_conv_all_nth)

text \<open>
  The parser on the heap and the parser on values: the same outcomes, and the command in memory is
  the command returned.  Its blocks are new ones.
\<close>

lemma heap_parse_outcome:
  assumes "heap_ok h"
  obtains (fault) "parse_buffer alloc buffer = Inl Uninit_read"
      "heap_parse_buffer alloc buffer h = Inl Uninit_read"
  | (null) h' where "parse_buffer alloc buffer = Inr None"
      "heap_parse_buffer alloc buffer h = Inr (NULL, h')" "heap_ok h'" "blocks h' = blocks h"
  | (command) h' a t xs ss where
      "parse_buffer alloc buffer =
         Inr (Some \<lparr>name = hd ss, argc = int (length (tl ss)), argv = tl ss\<rparr>)"
      "heap_parse_buffer alloc buffer h = Inr (Ptr a 0, h')" "heap_ok h'"
      "command_at h' a t xs ss" "\<And>x. blocks h x \<noteq> None \<Longrightarrow> blocks h' x = blocks h x"
      "dom (blocks h') - dom (blocks h) = insert a (insert t (set xs))"
      "dom (blocks h) \<inter> insert a (insert t (set xs)) = {}"
proof (cases "alloc Alloc_command \<and> trim buffer \<noteq> [] \<and> alloc Alloc_tokens")
  case False
  with heap_parse_cases [OF assms, of alloc buffer] parse_buffer_outcome_cases [of alloc buffer]
  have "parse_buffer alloc buffer = Inr None"
    "heap_parse_buffer alloc buffer h \<in> {Inr (NULL, h), Inr (NULL, h\<lparr>next_block := Suc (next_block h)\<rparr>)}"
    by auto
  then show ?thesis using null assms by (auto simp: heap_ok_def)
next
  case True
  let ?n = "next_block h" and ?s = "trim buffer"
  let ?ss = "pieces SP ?s"
  show ?thesis
  proof (cases "single_spaced ?s")
    case False
    with True show ?thesis
      using heap_parse_cases [OF assms, of alloc buffer] parse_buffer_outcome_cases [of alloc buffer]
      by (intro fault) auto
  next
    case single: True
    let ?h = "\<lparr>blocks = blocks h ++ command_blocks ?n ?ss, next_block = Suc (Suc ?n) + length ?ss\<rparr>"
    let ?xs = "[Suc (Suc ?n)..<Suc (Suc ?n) + length ?ss]"
    have fresh: "dom (blocks h) \<inter> {?n..<?n + 2 + length ?ss} = {}"
      using assms by (auto dest: heap_ok_live)
    have new: "insert ?n (insert (Suc ?n) (set ?xs)) = {?n..<?n + 2 + length ?ss}"
      by (auto simp del: upt_Suc)
    show ?thesis
    proof (rule command)
      show "command_at ?h ?n (Suc ?n) ?xs ?ss"
        by (rule command_blocks_at) (auto simp: map_add_def)
      show "heap_parse_buffer alloc buffer h = Inr (Ptr ?n 0, ?h)"
        using heap_parse_cases [OF assms, of alloc buffer] True single by simp
      show "parse_buffer alloc buffer =
          Inr (Some \<lparr>name = hd ?ss, argc = int (length (tl ?ss)), argv = tl ?ss\<rparr>)"
        using True single parse_buffer_outcome_cases [of alloc buffer] by (simp add: parsed_def)
      have "command_blocks ?n ?ss x = None" if "?n + 2 + length ?ss \<le> x" for x
      proof -
        have "x \<notin> dom (command_blocks ?n ?ss)" using that by (simp add: dom_command_blocks)
        then show ?thesis by (simp add: domIff)
      qed
      with assms show "heap_ok ?h" by (auto simp: heap_ok_def)
      show "dom (blocks ?h) - dom (blocks h) = insert ?n (insert (Suc ?n) (set ?xs))"
        using fresh unfolding new by (auto simp: dom_command_blocks)
      show "dom (blocks h) \<inter> insert ?n (insert (Suc ?n) (set ?xs)) = {}"
        using fresh unfolding new .
      show "blocks ?h x = blocks h x" if "blocks h x \<noteq> None" for x
      proof -
        have "x \<notin> dom (command_blocks ?n ?ss)" using that fresh by (auto simp: dom_command_blocks)
        then show ?thesis by (auto simp: map_add_def split: option.splits)
      qed
    qed
  qed
qed


text \<open>The name is overwritten and the command destroyed: its blocks are gone, the rest is there.\<close>

lemma destroy_after_touppercase:
  assumes "command_at h a t xs ss"
  shows "on_ok (heap_touppercase_name (Ptr a 0) h) (heap_destroy_command (Ptr a 0)) =
      Inr (released (insert t (set xs)) h)"
    and "on_ok (heap_touppercase_name (Ptr a 0) h) (client_heap_destroy_command (Ptr a 0)) =
      Inr (released (insert a (insert t (set xs))) h)"
proof -
  let ?h = "h\<lparr>blocks := (blocks h)(hd xs \<mapsto> Text_block (touppercase (hd ss)))\<rparr>"
  have "hd xs \<in> set xs" using assms by (simp add: command_at_def)
  then have "released (insert t (set xs)) ?h = released (insert t (set xs)) h"
    "released (insert a (insert t (set xs))) ?h = released (insert a (insert t (set xs))) h"
    by (auto simp: released_def restrict_map_def fun_eq_iff)
  with touppercase_name_at [OF assms] show
    "on_ok (heap_touppercase_name (Ptr a 0) h) (heap_destroy_command (Ptr a 0)) =
      Inr (released (insert t (set xs)) h)"
    "on_ok (heap_touppercase_name (Ptr a 0) h) (client_heap_destroy_command (Ptr a 0)) =
      Inr (released (insert a (insert t (set xs))) h)"
    by (simp_all add: heap_destroy_command_at client_heap_destroy_command_at)
qed

lemma released_new:
  assumes "\<And>x. blocks h x \<noteq> None \<Longrightarrow> blocks h' x = blocks h x"
    and "dom (blocks h') - dom (blocks h) = A" "dom (blocks h) \<inter> A = {}"
  shows "blocks h' |` (- A) = blocks h"
proof (rule ext)
  fix x
  consider "x \<in> dom (blocks h)" | "x \<in> A" | "x \<notin> dom (blocks h')" "x \<notin> dom (blocks h)"
    using assms(2) by blast
  then show "(blocks h' |` (- A)) x = blocks h x"
    using assms by cases (auto simp: restrict_map_def domIff)
qed

definition is_command_block :: "block \<Rightarrow> bool" where
  "is_command_block b \<longleftrightarrow> (case b of Command_block _ _ _ \<Rightarrow> True | _ \<Rightarrow> False)"

lemma heap_handle_line_result:
  assumes "heap_ok h"
  shows "case parse_buffer alloc line of
      Inl e \<Rightarrow> heap_handle_line alloc line h = Inl e \<and> e = Uninit_read
    | Inr None \<Rightarrow> \<exists>h'. heap_handle_line alloc line h = Inr h' \<and> heap_ok h' \<and> blocks h' = blocks h
    | Inr (Some c) \<Rightarrow> \<exists>h' a b. heap_handle_line alloc line h = Inr h' \<and> heap_ok h' \<and>
        blocks h a = None \<and> blocks h' = (blocks h)(a \<mapsto> b) \<and> is_command_block b"
proof -
  let ?n = "next_block h"
  let ?h0 = "\<lparr>blocks = (blocks h)(?n \<mapsto> Text_block line), next_block = Suc ?n\<rparr>"
  have m: "malloc (Text_block line) h = (Ptr ?n 0, ?h0)" by (simp add: malloc_def heap_update)
  have fresh: "blocks h ?n = None" using assms by (rule heap_ok_fresh)
  have "heap_ok ?h0" using assms by (simp add: heap_ok_def)
  then show ?thesis
  proof (cases rule: heap_parse_outcome [where alloc = alloc and buffer = line])
    case fault
    then show ?thesis by (simp add: heap_handle_line_def m)
  next
    case (null h')
    then show ?thesis
      using fresh by (auto simp: heap_handle_line_def m heap_destroy_command_def heap_ok_def)
  next
    case (command h' a t xs ss)
    let ?A = "insert t (set xs)" and ?h1 = "h'\<lparr>blocks := (blocks h')(?n := None)\<rparr>"
    have n: "blocks h' ?n = Some (Text_block line)" using command(5) [of ?n] by simp
    have a: "a \<noteq> ?n" "?n \<notin> ?A" "blocks h a = None" using command(7) by auto
    then have "command_at ?h1 a t xs ss" using command(4) by (intro command_at_unset) auto
    then have run: "heap_handle_line alloc line h = Inr (released ?A ?h1)"
      using command(2) n by (simp add: heap_handle_line_def m destroy_after_touppercase)
    obtain b where b: "blocks h' a = Some b" "is_command_block b"
      using command(4) by (auto simp: command_at_def is_command_block_def)
    have old: "blocks h' |` (- insert a ?A) = blocks ?h0"
      by (rule released_new [OF command(5-7)])
    have "a \<notin> ?A" using command(4) by (auto simp: command_at_def)
    then have "blocks (released ?A ?h1) x = ((blocks h)(a \<mapsto> b)) x" for x
      using fun_cong [OF old, of x] a b fresh
      by (auto simp: restrict_map_def split: if_splits)
    then have "blocks (released ?A ?h1) = (blocks h)(a \<mapsto> b)" by (rule ext)
    moreover have "heap_ok (released ?A ?h1)"
      using command(3) by (auto simp: heap_ok_def restrict_map_def)
    ultimately show ?thesis using command(1) run a(3) b(2) by auto
  qed
qed

lemma client_heap_handle_line_result:
  assumes "heap_ok h"
  shows "case parse_buffer alloc line of
      Inl e \<Rightarrow> client_heap_handle_line alloc line h = Inl e \<and> e = Uninit_read
    | Inr c \<Rightarrow> \<exists>h'. client_heap_handle_line alloc line h = Inr h' \<and> heap_ok h' \<and>
        blocks h' = blocks h"
proof -
  let ?n = "next_block h"
  let ?h0 = "\<lparr>blocks = (blocks h)(?n \<mapsto> Text_block line), next_block = Suc ?n\<rparr>"
  have m: "malloc (Text_block line) h = (Ptr ?n 0, ?h0)" by (simp add: malloc_def heap_update)
  have fresh: "blocks h ?n = None" using assms by (rule heap_ok_fresh)
  have "heap_ok ?h0" using assms by (simp add: heap_ok_def)
  then show ?thesis
  proof (cases rule: heap_parse_outcome [where alloc = alloc and buffer = line])
    case fault
    then show ?thesis by (simp add: client_heap_handle_line_def m)
  next
    case (null h')
    then show ?thesis
      using fresh by (auto simp: client_heap_handle_line_def m heap_ok_def)
  next
    case (command h' a t xs ss)
    let ?A = "insert a (insert t (set xs))"
    let ?u = "(blocks h')(hd xs \<mapsto> Text_block (touppercase (hd ss)))"
    have n: "blocks h' ?n = Some (Text_block line)" "?n \<notin> ?A"
      using command(5) [of ?n] command(7) by auto
    note up = touppercase_name_at [OF command(4)]
    have hd: "hd xs \<in> set xs" using command(4) by (simp add: command_at_def)
    then have u: "?u ?n = Some (Text_block line)" using n by auto
    let ?h1 = "h'\<lparr>blocks := ?u(?n := None)\<rparr>"
    have "command_at ?h1 a t xs (touppercase (hd ss) # tl ss)"
      using command_at_unset [OF up(2) n(2)] by simp
    then have run: "client_heap_handle_line alloc line h = Inr (released ?A ?h1)"
      using command(2) up(1) u
      by (simp add: client_heap_handle_line_def m client_heap_destroy_command_at)
    have old: "blocks h' |` (- ?A) = blocks ?h0" by (rule released_new [OF command(5-7)])
    have "blocks (released ?A ?h1) x = blocks h x" for x
      using fun_cong [OF old, of x] n fresh hd by (auto simp: restrict_map_def split: if_splits)
    then have "blocks (released ?A ?h1) = blocks h" by (rule ext)
    moreover have "blocks h x = None" if "next_block h' \<le> x" for x
      using command(3) command(5) [of x] fresh that
      by (cases "x = ?n"; cases "blocks h x") (auto simp: heap_ok_def split: if_splits)
    ultimately have "blocks (released ?A ?h1) = blocks h" "heap_ok (released ?A ?h1)"
      by (simp_all add: heap_ok_def)
    then show ?thesis using command(1) run by auto
  qed
qed


section \<open>Sessions\<close>

definition is_command_line :: "(alloc_site \<Rightarrow> bool) \<times> string \<Rightarrow> bool" where
  "is_command_line = (\<lambda>(alloc, line). parse_buffer alloc line \<noteq> Inr None)"

lemma heap_session_result:
  assumes "heap_ok h"
  shows "case heap_session heap_handle_line lines h of
      Inl e \<Rightarrow> e = Uninit_read
    | Inr h' \<Rightarrow> heap_ok h' \<and> blocks h \<subseteq>\<^sub>m blocks h' \<and>
        card (dom (blocks h') - dom (blocks h)) = length (filter is_command_line lines) \<and>
        (\<forall>b\<in>ran (blocks h'). b \<in> ran (blocks h) \<or> is_command_block b)"
  using assms
proof (induction lines arbitrary: h)
  case Nil
  then show ?case by simp
next
  case (Cons l lines)
  obtain alloc line where l: "l = (alloc, line)" by fastforce
  note one = heap_handle_line_result [OF Cons.prems, of alloc line]
  show ?case
  proof (cases "parse_buffer alloc line")
    case (Inl e)
    with one l show ?thesis by simp
  next
    case parse: (Inr c)
    show ?thesis
    proof (cases c)
      case None
      with parse one obtain h1 where h1: "heap_handle_line alloc line h = Inr h1" "heap_ok h1"
        "blocks h1 = blocks h" by auto
      with Cons.IH [OF h1(2)] parse None l show ?thesis
        by (simp add: is_command_line_def split: sum.splits)
    next
      case (Some cmd)
      with parse one obtain h1 a b where h1: "heap_handle_line alloc line h = Inr h1" "heap_ok h1"
        and a: "blocks h a = None" "blocks h1 = (blocks h)(a \<mapsto> b)" "is_command_block b" by auto
      show ?thesis
      proof (cases "heap_session heap_handle_line lines h1")
        case (Inl e)
        with Cons.IH [OF h1(2)] h1(1) l show ?thesis by simp
      next
        case (Inr h')
        with Cons.IH [OF h1(2)] have IH: "heap_ok h'" "blocks h1 \<subseteq>\<^sub>m blocks h'"
          "card (dom (blocks h') - dom (blocks h1)) = length (filter is_command_line lines)"
          "\<forall>b\<in>ran (blocks h'). b \<in> ran (blocks h1) \<or> is_command_block b" by auto
        have "blocks h' a = Some b" using IH(2) a(2) by (auto simp: map_le_def)
        then have "dom (blocks h') - dom (blocks h) = insert a (dom (blocks h') - dom (blocks h1))"
          using a by auto
        moreover have "a \<notin> dom (blocks h') - dom (blocks h1)" using a(2) by simp
        moreover have "finite (dom (blocks h') - dom (blocks h1))"
          using heap_ok_finite [OF IH(1)] by (rule finite_Diff)
        ultimately have "card (dom (blocks h') - dom (blocks h)) =
            Suc (length (filter is_command_line lines))"
          using IH(3) by (metis card_insert_disjoint)
        moreover have "is_command_line l" using l parse Some by (simp add: is_command_line_def)
        ultimately have card: "card (dom (blocks h') - dom (blocks h)) =
            length (filter is_command_line (l # lines))" by (simp only: filter.simps if_True list.size)
        have "blocks h \<subseteq>\<^sub>m blocks h1" using a by (auto simp: map_le_def)
        then have sub: "blocks h \<subseteq>\<^sub>m blocks h'" using IH(2) by (rule map_le_trans)
        have "ran (blocks h1) = insert b (ran (blocks h))" using a by simp
        then have "\<forall>x\<in>ran (blocks h'). x \<in> ran (blocks h) \<or> is_command_block x"
          using IH(4) a(3) by auto
        then show ?thesis using Inr h1(1) l IH(1) sub card by simp
      qed
    qed
  qed
qed

lemma client_heap_session_result:
  assumes "heap_ok h"
  shows "case heap_session client_heap_handle_line lines h of
      Inl e \<Rightarrow> e = Uninit_read
    | Inr h' \<Rightarrow> heap_ok h' \<and> blocks h' = blocks h"
  using assms
proof (induction lines arbitrary: h)
  case Nil
  then show ?case by simp
next
  case (Cons l lines)
  obtain alloc line where l: "l = (alloc, line)" by fastforce
  show ?case
  proof (cases "parse_buffer alloc line")
    case (Inl e)
    with client_heap_handle_line_result [OF Cons.prems, of alloc line] l show ?thesis by simp
  next
    case (Inr c)
    with client_heap_handle_line_result [OF Cons.prems, of alloc line] obtain h1 where
      "client_heap_handle_line alloc line h = Inr h1" "heap_ok h1" "blocks h1 = blocks h" by auto
    with Cons.IH [of h1] l show ?thesis by (simp split: sum.splits)
  qed
qed

section \<open>Properties\<close>

text \<open>Property C6: the parser on the heap, where tokens are pointers into an array of cells, is an
  implementation of the parser on values: it has the same fault, it returns NULL for the same lines,
  and the structure it returns reads as the same command.\<close>

theorem heap_parser_refines:
  assumes "heap_ok h"
  shows "map_sum id (\<lambda>(p, h'). read_command h' p) (heap_parse_buffer alloc buffer h) =
    parse_buffer alloc buffer"
  using assms
  by (cases rule: heap_parse_outcome [where alloc = alloc and buffer = buffer])
    (simp_all add: read_command_at)

theorem heap_parser_refines_witness:
  "map_sum id (\<lambda>(p, h'). read_command h' p) (heap_parse_buffer (\<lambda>_. True) ''CWD dir'' empty_heap) =
     parse_buffer (\<lambda>_. True) ''CWD dir''"
  by (rule heap_parser_refines) simp

text \<open>Property C27: the memory of the commands of a server.  Whatever lines are handled, nothing is
  freed twice and nothing is read after it was freed; the only fault is the token pointer that two
  spaces leave unwritten.  Each line that is a command leaves exactly one block behind, its
  \<open>command_t\<close>, which \<open>destroy_command\<close> of the server does not free.\<close>

theorem server_leaks_command_structures:
  assumes "heap_ok h"
  shows "case heap_session heap_handle_line lines h of
      Inl e \<Rightarrow> e = Uninit_read
    | Inr h' \<Rightarrow> blocks h \<subseteq>\<^sub>m blocks h' \<and>
        card (dom (blocks h') - dom (blocks h)) = length (filter is_command_line lines) \<and>
        (\<forall>b\<in>ran (blocks h'). b \<in> ran (blocks h) \<or> is_command_block b)"
  using heap_session_result [OF assms, of lines] by (simp split: sum.splits)

theorem server_leaks_command_structures_witness:
  "case heap_session heap_handle_line [(\<lambda>_. True, ''NOOP''), (\<lambda>_. True, ''CWD dir'')] empty_heap of
     Inl e \<Rightarrow> e = Uninit_read
   | Inr h' \<Rightarrow> blocks empty_heap \<subseteq>\<^sub>m blocks h' \<and>
       card (dom (blocks h') - dom (blocks empty_heap)) =
         length (filter is_command_line [(\<lambda>_. True, ''NOOP''), (\<lambda>_. True, ''CWD dir'')]) \<and>
       (\<forall>b\<in>ran (blocks h'). b \<in> ran (blocks empty_heap) \<or> is_command_block b)"
  by (rule server_leaks_command_structures) simp

text \<open>The client gives back all the memory of its commands, and frees nothing twice.\<close>

lemma client_commands_give_memory_back:
  assumes "heap_ok h"
  shows "case heap_session client_heap_handle_line lines h of
      Inl e \<Rightarrow> e = Uninit_read
    | Inr h' \<Rightarrow> blocks h' = blocks h"
  using client_heap_session_result [OF assms, of lines] by (simp split: sum.splits)

lemma client_commands_give_memory_back_witness:
  "case heap_session client_heap_handle_line [(\<lambda>_. True, ''pwd''), (\<lambda>_. True, ''cd dir'')] empty_heap of
     Inl e \<Rightarrow> e = Uninit_read
   | Inr h' \<Rightarrow> blocks h' = blocks empty_heap"
  by (rule client_commands_give_memory_back) simp

end
