(* ===== verification/Connection_Memory.thy ===== *)
theory Connection_Memory
  imports C_Heap Client_Handler Robustness
begin

text \<open>
  The memory a connection owns: the pointer members of \<open>connection_t\<close> on the heap of C_Heap, and
  every function of the server that allocates, frees or overwrites one of them.  What the functions
  learn from elsewhere (the result of \<open>getcwd\<close>, whether a socket could be set up, the arguments of
  a command) is an argument.
\<close>

section \<open>The pointer members\<close>

datatype member = Client_addr | Stream | User | Working_directory | Data_socket_member

type_synonym pointers = "member \<Rightarrow> ptr"

definition no_pointers :: pointers where
  "no_pointers = (\<lambda>_. NULL)"

section \<open>The functions\<close>

text \<open>\<open>connection.c\<close>: without a stream the result is the zeroed structure.\<close>

definition heap_init_connection ::
    "(alloc_site \<Rightarrow> bool) \<Rightarrow> bool \<Rightarrow> string \<Rightarrow> heap \<Rightarrow> pointers \<times> heap" where
  "heap_init_connection alloc fdopen path h =
     (let (a, h) = (if alloc Alloc_client_addr then malloc Raw_block h else (NULL, h))
      in if \<not> fdopen then (no_pointers, h)
         else
           let (s, h) = malloc Raw_block h;
               (d, h) = strdup path h
           in (no_pointers(Client_addr := a, Stream := s, Working_directory := d), h))"

text \<open>\<open>user.c\<close> and \<open>pass.c\<close>.\<close>

definition heap_user_command ::
    "bool \<Rightarrow> command_t \<Rightarrow> pointers \<Rightarrow> heap \<Rightarrow> (pointers \<times> heap) result" where
  "heap_user_command logged command m h =
     (if logged then Inr (m, h)
      else on_ok (if m User \<noteq> NULL then free (m User) h else Inr h) (\<lambda>h.
        if argc command = 0 then Inr (m(User := NULL), h)
        else case argv0 command of
               None \<Rightarrow> Inl Null_deref
             | Some a \<Rightarrow> let (p, h) = strdup a h in Inr (m(User := p), h)))"

definition heap_process_login ::
    "string \<Rightarrow> pointers \<Rightarrow> heap \<Rightarrow> (bool \<times> pointers \<times> heap) result" where
  "heap_process_login password m h =
     on_ok (load_text (m User) h) (\<lambda>u.
       if (strcmp u ''Anonymous'' = 0 \<or> strcmp u ''anonymous'' = 0) \<and> strcmp password '''' = 0
       then Inr (True, m, h)
       else on_ok (free (m User) h) (\<lambda>h. Inr (False, m(User := NULL), h)))"

definition heap_pass_command ::
    "bool \<Rightarrow> command_t \<Rightarrow> pointers \<Rightarrow> heap \<Rightarrow> (bool \<times> pointers \<times> heap) result" where
  "heap_pass_command logged command m h =
     (if logged \<or> m User = NULL then Inr (logged, m, h)
      else
        let (p, h) = strdup (get_password command) h
        in on_ok (heap_process_login (get_password command) m h) (\<lambda>(logged, m, h).
             on_ok (free p h) (\<lambda>h. Inr (logged, m, h))))"

text \<open>\<open>cwd.c\<close> and \<open>cdup.c\<close>: \<open>d\<close> is what \<open>getcwd\<close> gives, in a new block.\<close>

definition heap_getcwd :: "string option \<Rightarrow> heap \<Rightarrow> ptr \<times> heap" where
  "heap_getcwd d h = (case d of None \<Rightarrow> (NULL, h) | Some s \<Rightarrow> strdup s h)"

definition heap_replace_directory ::
    "string option \<Rightarrow> pointers \<Rightarrow> heap \<Rightarrow> (pointers \<times> heap) result" where
  "heap_replace_directory d m h =
     on_ok (free (m Working_directory) h) (\<lambda>h.
       let (p, h) = heap_getcwd d h in Inr (m(Working_directory := p), h))"

definition heap_check_new_path ::
    "string \<Rightarrow> string option \<Rightarrow> pointers \<Rightarrow> heap \<Rightarrow> (pointers \<times> heap) result" where
  "heap_check_new_path root d m h =
     on_ok (load_text (m Working_directory) h) (\<lambda>wd.
       if strncmp wd root (length root) \<noteq> 0 then heap_replace_directory d m h
       else Inr (m, h))"

definition heap_change_dir ::
    "string \<Rightarrow> string option \<Rightarrow> string option \<Rightarrow> pointers \<Rightarrow> heap \<Rightarrow> (pointers \<times> heap) result" where
  "heap_change_dir root d1 d2 m h =
     on_ok (heap_replace_directory d1 m h) (\<lambda>(m, h). heap_check_new_path root d2 m h)"

text \<open>
  \<open>passive_data_socket.c\<close> and \<open>pasv.c\<close>; \<open>ready\<close> says whether the socket, its address and its queue
  could be set up.
\<close>

definition heap_setup_passive_data_socket ::
    "(alloc_site \<Rightarrow> bool) \<Rightarrow> bool \<Rightarrow> heap \<Rightarrow> ptr \<times> heap" where
  "heap_setup_passive_data_socket alloc ready h =
     (let (p, h) = (if alloc Alloc_data_socket
                    then malloc (Data_socket_block PASSIVE NULL) h else (NULL, h))
      in if p = NULL \<or> \<not> ready then (NULL, h) else (p, h))"

definition heap_create_passive_data_socket ::
    "(alloc_site \<Rightarrow> bool) \<Rightarrow> bool \<Rightarrow> pointers \<Rightarrow> heap \<Rightarrow> (pointers \<times> heap) result" where
  "heap_create_passive_data_socket alloc ready m h =
     (let (p, h) = heap_setup_passive_data_socket alloc ready h;
          m = m(Data_socket_member := p)
      in if p = NULL then Inr (m, h)
         else if \<not> alloc Alloc_ports then Inl Null_deref
         else
           let (ports, h) = malloc Raw_block h
           in on_ok (free ports h) (\<lambda>h. Inr (m, h)))"

text \<open>\<open>active_data_socket.c\<close> and \<open>port.c\<close>.\<close>

definition heap_init_active_data_socket ::
    "(alloc_site \<Rightarrow> bool) \<Rightarrow> bool \<Rightarrow> heap \<Rightarrow> ptr \<times> heap" where
  "heap_init_active_data_socket alloc ready h =
     (let (p, h) = (if alloc Alloc_data_socket
                    then malloc (Data_socket_block ACTIVE NULL) h else (NULL, h))
      in if p = NULL \<or> \<not> ready then (NULL, h) else (p, h))"

definition heap_set_address :: "ptr \<Rightarrow> ptr \<Rightarrow> heap \<Rightarrow> heap result" where
  "heap_set_address p address h =
     (case block_of p h of
        Inr (a, i, Data_socket_block mode _) \<Rightarrow>
          Inr (h\<lparr>blocks := (blocks h)(a \<mapsto> Data_socket_block mode address)\<rparr>)
      | Inr _ \<Rightarrow> Inl Out_of_bounds
      | Inl e \<Rightarrow> Inl e)"

definition heap_setup_active_data_socket ::
    "(alloc_site \<Rightarrow> bool) \<Rightarrow> bool \<Rightarrow> heap \<Rightarrow> (ptr \<times> heap) result" where
  "heap_setup_active_data_socket alloc ready h =
     (let (p, h) = heap_init_active_data_socket alloc ready h;
          (address, h) = (if alloc Alloc_address then malloc Raw_block h else (NULL, h))
      in if p = NULL \<or> address = NULL then Inr (NULL, h)
         else on_ok (heap_set_address p address h) (\<lambda>h. Inr (p, h)))"

definition heap_create_active_data_socket ::
    "(alloc_site \<Rightarrow> bool) \<Rightarrow> bool \<Rightarrow> string \<Rightarrow> pointers \<Rightarrow> heap \<Rightarrow> (pointers \<times> heap) result" where
  "heap_create_active_data_socket alloc ready arg m h =
     (if \<not> alloc Alloc_host_port then Inr (m, h)
      else
        let (host_port, h) = malloc Raw_block h
        in if parse_host_port_values arg = None
           then on_ok (free host_port h) (\<lambda>h. Inr (m, h))
           else on_ok (heap_setup_active_data_socket alloc ready h) (\<lambda>(p, h).
             let m = m(Data_socket_member := p)
             in if p = NULL then Inr (m, h)
                else on_ok (free host_port h) (\<lambda>h. Inr (m, h))))"

text \<open>
  \<open>destroyers.c\<close>, and the end of \<open>execute_data_socket_command\<close>.  With \<open>verbose\<close> the address of the
  client is printed first.
\<close>

definition heap_destroy_data_socket :: "ptr \<Rightarrow> heap \<Rightarrow> heap result" where
  "heap_destroy_data_socket p h =
     (if p = NULL then Inr h
      else case block_of p h of
        Inr (_, _, Data_socket_block mode address) \<Rightarrow>
          on_ok (if mode = PASSIVE then Inr h else free address h) (free p)
      | Inr _ \<Rightarrow> Inl Out_of_bounds
      | Inl e \<Rightarrow> Inl e)"

definition heap_end_transfer :: "pointers \<Rightarrow> heap \<Rightarrow> (pointers \<times> heap) result" where
  "heap_end_transfer m h =
     on_ok (heap_destroy_data_socket (m Data_socket_member) h)
       (\<lambda>h. Inr (m(Data_socket_member := NULL), h))"

definition heap_destroy_connection :: "bool \<Rightarrow> pointers \<Rightarrow> heap \<Rightarrow> heap result" where
  "heap_destroy_connection verbose m h =
     (if verbose \<and> m Client_addr = NULL then Inl Null_deref else
     on_ok (free (m User) h) (\<lambda>h.
     on_ok (if m Working_directory \<noteq> NULL then free (m Working_directory) h else Inr h) (\<lambda>h.
     on_ok (free (m Client_addr) h) (\<lambda>h.
     on_ok (if m Data_socket_member \<noteq> NULL
            then heap_destroy_data_socket (m Data_socket_member) h else Inr h) (\<lambda>h.
     if m Stream = NULL then Inl Null_deref else free (m Stream) h)))))"

section \<open>The life of a connection\<close>

text \<open>
  What happens to the memory of a connection between its two ends: a USER, a PASS, a CWD or CDUP that
  moves (with the results of its two \<open>getcwd\<close>), a PASV, a PORT, a transfer.
\<close>

datatype memory_event =
    Mem_user command_t
  | Mem_pass command_t
  | Mem_cwd "string option" "string option"
  | Mem_pasv "alloc_site \<Rightarrow> bool" bool
  | Mem_port "alloc_site \<Rightarrow> bool" bool string
  | Mem_transfer

type_synonym memory_state = "bool \<times> pointers \<times> heap"

fun heap_event :: "string \<Rightarrow> memory_event \<Rightarrow> memory_state \<Rightarrow> memory_state result" where
  "heap_event root (Mem_user cmd) (l, m, h) =
     on_ok (heap_user_command l cmd m h) (\<lambda>(m, h). Inr (l, m, h))"
| "heap_event root (Mem_pass cmd) (l, m, h) = heap_pass_command l cmd m h"
| "heap_event root (Mem_cwd d1 d2) (l, m, h) =
     on_ok (heap_change_dir root d1 d2 m h) (\<lambda>(m, h). Inr (l, m, h))"
| "heap_event root (Mem_pasv alloc ready) (l, m, h) =
     on_ok (heap_create_passive_data_socket alloc ready m h) (\<lambda>(m, h). Inr (l, m, h))"
| "heap_event root (Mem_port alloc ready arg) (l, m, h) =
     on_ok (heap_create_active_data_socket alloc ready arg m h) (\<lambda>(m, h). Inr (l, m, h))"
| "heap_event root Mem_transfer (l, m, h) =
     on_ok (heap_end_transfer m h) (\<lambda>(m, h). Inr (l, m, h))"

fun heap_events :: "string \<Rightarrow> memory_event list \<Rightarrow> memory_state \<Rightarrow> memory_state result" where
  "heap_events root [] s = Inr s"
| "heap_events root (e # es) s = on_ok (heap_event root e s) (heap_events root es)"

section \<open>Ownership\<close>

text \<open>The blocks behind a member: of the right kind, and no others.\<close>

definition holds :: "heap \<Rightarrow> member \<Rightarrow> ptr \<Rightarrow> nat set \<Rightarrow> bool" where
  "holds h mb p A \<longleftrightarrow>
     (case p of
        NULL \<Rightarrow> A = {}
      | Ptr a i \<Rightarrow> i = 0 \<and>
          (case mb of
             Client_addr \<Rightarrow> blocks h a = Some Raw_block \<and> A = {a}
           | Stream \<Rightarrow> blocks h a = Some Raw_block \<and> A = {a}
           | User \<Rightarrow> (\<exists>s. blocks h a = Some (Text_block s)) \<and> A = {a}
           | Working_directory \<Rightarrow> (\<exists>s. blocks h a = Some (Text_block s)) \<and> A = {a}
           | Data_socket_member \<Rightarrow>
               blocks h a = Some (Data_socket_block PASSIVE NULL) \<and> A = {a} \<or>
               (\<exists>b. a \<noteq> b \<and> blocks h a = Some (Data_socket_block ACTIVE (Ptr b 0)) \<and>
                  blocks h b = Some Raw_block \<and> A = {a, b})))"

definition owns :: "heap \<Rightarrow> pointers \<Rightarrow> (member \<Rightarrow> nat set) \<Rightarrow> bool" where
  "owns h m F \<longleftrightarrow>
     heap_ok h \<and> (\<forall>mb. holds h mb (m mb) (F mb)) \<and>
     (\<forall>mb mb'. mb \<noteq> mb' \<longrightarrow> F mb \<inter> F mb' = {})"

text \<open>What is live and not owned by the connection.\<close>

definition others :: "heap \<Rightarrow> (member \<Rightarrow> nat set) \<Rightarrow> nat \<rightharpoonup> block" where
  "others h F = blocks h |` (- \<Union> (range F))"


text \<open>
  \<open>own m h R\<close>: the heap \<open>h\<close> is what the pointers \<open>m\<close> own and, apart from it, \<open>R\<close>.
\<close>

definition own :: "pointers \<Rightarrow> heap \<Rightarrow> (nat \<rightharpoonup> block) \<Rightarrow> bool" where
  "own m h R \<longleftrightarrow> (\<exists>F. owns h m F \<and> others h F = R)"

lemma holds_cong:
  assumes "holds h mb p A" "\<And>a. a \<in> A \<Longrightarrow> blocks h' a = blocks h a"
  shows "holds h' mb p A"
  using assms by (cases p; cases mb) (auto simp: holds_def)

lemma holds_NULL [simp]: "holds h mb NULL A \<longleftrightarrow> A = {}"
  by (simp add: holds_def)

lemma holds_live: "holds h mb p A \<Longrightarrow> a \<in> A \<Longrightarrow> blocks h a \<noteq> None"
  by (cases p; cases mb) (auto simp: holds_def)

lemma ownsD:
  assumes "owns h m F"
  shows "heap_ok h" "holds h mb (m mb) (F mb)" "mb \<noteq> mb' \<Longrightarrow> F mb \<inter> F mb' = {}"
  using assms by (auto simp: owns_def)

lemma owns_change:
  assumes o: "owns h m F" and "heap_ok h'" "holds h' mb p A"
    and same: "\<And>a mb'. mb' \<noteq> mb \<Longrightarrow> a \<in> F mb' \<Longrightarrow> blocks h' a = blocks h a \<and> a \<notin> A"
  shows "owns h' (m(mb := p)) (F(mb := A))"
  unfolding owns_def
proof (intro conjI allI impI)
  show "holds h' x ((m(mb := p)) x) ((F(mb := A)) x)" for x
    using assms(3) same ownsD(2) [OF o, of x] by (cases "x = mb") (auto intro: holds_cong)
  show "(F(mb := A)) x \<inter> (F(mb := A)) y = {}" if "x \<noteq> y" for x y
    using same ownsD(3) [OF o that] that by (cases "x = mb"; cases "y = mb") auto
qed fact

lemma others_change:
  assumes "\<And>a. a \<notin> A \<Longrightarrow> a \<notin> F mb \<Longrightarrow> blocks h' a = blocks h a"
    and "\<And>a. a \<in> F mb \<Longrightarrow> a \<notin> A \<Longrightarrow> blocks h' a = None"
    and "\<And>a. a \<in> A \<Longrightarrow> a \<notin> F mb \<Longrightarrow> blocks h a = None"
    and "\<And>a mb'. mb' \<noteq> mb \<Longrightarrow> a \<in> F mb' \<Longrightarrow> a \<notin> A \<and> a \<notin> F mb"
  shows "others h' (F(mb := A)) = others h F"
proof (rule ext)
  fix a
  have "(\<exists>x. a \<in> (F(mb := A)) x) \<longleftrightarrow> a \<in> A \<or> (\<exists>x. x \<noteq> mb \<and> a \<in> F x)"
    by (metis fun_upd_apply)
  moreover have "(\<exists>x. a \<in> F x) \<longleftrightarrow> a \<in> F mb \<or> (\<exists>x. x \<noteq> mb \<and> a \<in> F x)" by metis
  ultimately show "others h' (F(mb := A)) a = others h F a"
    using assms(1-3) [of a] assms(4) [of _ a]
    by (auto simp: others_def restrict_map_def simp del: fun_upd_apply)
qed

lemma othersD:
  assumes "others h F = R" "R x = Some b"
  shows "blocks h x = Some b" "x \<notin> F mb"
  using assms by (auto simp: others_def restrict_map_def split: if_splits)

section \<open>Laws of ownership\<close>

lemma own_rest: "own m h R \<Longrightarrow> R n = Some b \<Longrightarrow> blocks h n = Some b"
  by (auto simp: own_def others_def restrict_map_def split: if_splits)

lemma restrict_nothing [simp]: "h\<lparr>blocks := blocks h |` UNIV\<rparr> = h"
  by (cases h) (simp add: restrict_map_def)

lemma free_holds:
  assumes "holds h mb p A" "mb \<noteq> Data_socket_member"
  shows "free p h = Inr (h\<lparr>blocks := blocks h |` (- A)\<rparr>)"
proof (cases p)
  case NULL
  with assms show ?thesis by simp
next
  case (Ptr a i)
  then have "i = 0" "A = {a}" "\<exists>b. blocks h a = Some b"
    using assms by (cases mb; auto simp: holds_def)+
  then show ?thesis using Ptr by (auto simp: restrict_complement_singleton_eq)
qed

lemma destroy_holds:
  assumes "holds h Data_socket_member p A"
  shows "heap_destroy_data_socket p h = Inr (h\<lparr>blocks := blocks h |` (- A)\<rparr>)"
proof (cases p)
  case NULL
  with assms show ?thesis by (simp add: heap_destroy_data_socket_def)
next
  case (Ptr a i)
  then consider "i = 0" "blocks h a = Some (Data_socket_block PASSIVE NULL)" "A = {a}"
    | b where "i = 0" "a \<noteq> b" "blocks h a = Some (Data_socket_block ACTIVE (Ptr b 0))"
        "blocks h b = Some Raw_block" "A = {a, b}"
    using assms by (auto simp: holds_def)
  then show ?thesis
  proof cases
    case 1
    then show ?thesis
      using Ptr by (simp add: heap_destroy_data_socket_def block_of_def restrict_complement_singleton_eq)
  next
    case 2
    then have "(blocks h)(b := None, a := None) = blocks h |` (- {a, b})"
      by (auto simp: restrict_map_def)
    with 2 show ?thesis using Ptr by (simp add: heap_destroy_data_socket_def block_of_def)
  qed
qed

lemma own_release:
  fixes h :: heap and mb :: member
  assumes "owns h m F"
  defines "h' \<equiv> h\<lparr>blocks := blocks h |` (- F mb)\<rparr>"
  shows "own (m(mb := NULL)) h' (others h F)"
proof -
  have "owns h' (m(mb := NULL)) (F(mb := {}))"
  proof (rule owns_change [OF assms(1)])
    show "heap_ok h'" using ownsD(1) [OF assms(1)] by (simp add: heap_ok_def h'_def restrict_map_def)
    show "blocks h' a = blocks h a \<and> a \<notin> {}" if "mb' \<noteq> mb" "a \<in> F mb'" for a mb'
      using that ownsD(3) [OF assms(1) that(1)] by (auto simp: h'_def restrict_map_def)
  qed simp
  moreover have "others h' (F(mb := {})) = others h F"
    using ownsD(3) [OF assms(1)]
    by (intro others_change) (auto simp: h'_def restrict_map_def)
  ultimately show ?thesis by (auto simp: own_def)
qed

lemma own_free:
  assumes "own m h R" "mb \<noteq> Data_socket_member"
  shows "\<exists>h'. free (m mb) h = Inr h' \<and> own (m(mb := NULL)) h' R"
  using assms free_holds [OF ownsD(2)] own_release unfolding own_def by metis

lemma own_destroy:
  assumes "own m h R"
  shows "\<exists>h'. heap_destroy_data_socket (m Data_socket_member) h = Inr h' \<and>
    own (m(Data_socket_member := NULL)) h' R"
  using assms destroy_holds [OF ownsD(2)] own_release unfolding own_def by metis

text \<open>A new block belongs to the rest until a member takes it.\<close>

lemma own_malloc:
  assumes "own m h R" "malloc b h = (p, h')"
  shows "\<exists>n. p = Ptr n 0 \<and> R n = None \<and> own m h' (R(n \<mapsto> b))"
proof -
  obtain F where o: "owns h m F" "others h F = R" using assms(1) by (auto simp: own_def)
  let ?n = "next_block h"
  have h': "p = Ptr ?n 0" "blocks h' = (blocks h)(?n \<mapsto> b)" "next_block h' = Suc ?n"
    using assms(2) by (auto simp: malloc_def)
  have fresh: "blocks h ?n = None" using ownsD(1) [OF o(1)] by (rule heap_ok_fresh)
  then have "?n \<notin> F mb" for mb using holds_live [OF ownsD(2) [OF o(1)]] by blast
  then have n: "a \<in> F mb \<Longrightarrow> a \<noteq> ?n" for a mb by blast
  have "heap_ok h'" using ownsD(1) [OF o(1)] h' by (simp add: heap_ok_def)
  then have "owns h' m F"
    using o(1) n unfolding owns_def by (auto simp: h' intro: holds_cong)
  moreover have "others h' F = R(?n \<mapsto> b)"
    using n unfolding o(2) [symmetric] by (auto simp: others_def h' restrict_map_def fun_eq_iff)
  moreover have "R ?n = None" using o(2) fresh by (auto simp: others_def restrict_map_def)
  ultimately show ?thesis using h'(1) by (auto simp: own_def)
qed

lemma own_adopt:
  assumes "own m h R" "m mb = NULL" "holds h mb p A" "A \<subseteq> dom R"
  shows "own (m(mb := p)) h (R |` (- A))"
proof -
  obtain F where o: "owns h m F" "others h F = R" using assms(1) by (auto simp: own_def)
  have e: "F mb = {}" using ownsD(2) [OF o(1), of mb] assms(2) by simp
  have apart: "a \<notin> A" if "a \<in> F mb'" for a mb'
    using that assms(4) othersD(2) [OF o(2)] by blast
  then have "owns h (m(mb := p)) (F(mb := A))"
    using o(1) assms(3) ownsD(1) [OF o(1)] by (intro owns_change) auto
  moreover have "\<Union> (range (F(mb := A))) = \<Union> (range F) \<union> A"
    using e by (auto split: if_splits)
  then have "others h (F(mb := A)) = R |` (- A)"
    unfolding o(2) [symmetric] by (auto simp: others_def restrict_map_def fun_eq_iff)
  ultimately show ?thesis by (auto simp: own_def)
qed

lemma own_forget:
  assumes "own m h R"
  shows "\<exists>R'. own (m(mb := NULL)) h R' \<and> R \<subseteq>\<^sub>m R'"
proof -
  obtain F where o: "owns h m F" "others h F = R" using assms by (auto simp: own_def)
  have "owns h (m(mb := NULL)) (F(mb := {}))"
    using o(1) ownsD(1) [OF o(1)] by (intro owns_change) auto
  moreover have "R \<subseteq>\<^sub>m others h (F(mb := {}))"
    using o(2) by (auto simp: others_def restrict_map_def map_le_def split: if_splits)
  ultimately show ?thesis by (auto simp: own_def)
qed

lemma own_store:
  assumes "own m h R" "R n = Some b"
  shows "own m (h\<lparr>blocks := (blocks h)(n \<mapsto> b')\<rparr>) (R(n \<mapsto> b'))"
proof -
  obtain F where o: "owns h m F" "others h F = R" using assms(1) by (auto simp: own_def)
  let ?h = "h\<lparr>blocks := (blocks h)(n \<mapsto> b')\<rparr>"
  have n: "a \<in> F mb \<Longrightarrow> a \<noteq> n" for a mb using othersD(2) [OF o(2) assms(2)] by blast
  have "n < next_block h" using heap_ok_live [OF ownsD(1) [OF o(1)]] othersD(1) [OF o(2) assms(2)] .
  then have "heap_ok ?h" using ownsD(1) [OF o(1)] by (auto simp: heap_ok_def)
  then have "owns ?h m F" using o(1) n unfolding owns_def by (auto intro: holds_cong)
  moreover have "others ?h F = R(n \<mapsto> b')"
    using n unfolding o(2) [symmetric] by (auto simp: others_def restrict_map_def fun_eq_iff)
  ultimately show ?thesis by (auto simp: own_def)
qed

lemma own_free_rest:
  assumes "own m h R" "R n = Some b"
  shows "\<exists>h'. free (Ptr n 0) h = Inr h' \<and> own m h' (R(n := None))"
proof -
  obtain F where o: "owns h m F" "others h F = R" using assms(1) by (auto simp: own_def)
  let ?h = "h\<lparr>blocks := (blocks h)(n := None)\<rparr>"
  have n: "a \<in> F mb \<Longrightarrow> a \<noteq> n" for a mb using othersD(2) [OF o(2) assms(2)] by blast
  have "heap_ok ?h" using ownsD(1) [OF o(1)] by (rule heap_ok_unset)
  then have "owns ?h m F" using o(1) n unfolding owns_def by (auto intro: holds_cong)
  moreover have "others ?h F = R(n := None)"
    using n unfolding o(2) [symmetric] by (auto simp: others_def restrict_map_def fun_eq_iff)
  ultimately show ?thesis using othersD(1) [OF o(2) assms(2)] by (auto simp: own_def)
qed

text \<open>A new block that a member takes at once.\<close>

lemma own_new:
  assumes "own m h R" "m mb = NULL" "malloc b h = (p, h')"
    and fit: "\<And>n h. blocks h n = Some b \<Longrightarrow> holds h mb (Ptr n 0) {n}"
  shows "own (m(mb := p)) h' R" "p \<noteq> NULL"
proof -
  obtain n where n: "p = Ptr n 0" "R n = None" "own m h' (R(n \<mapsto> b))"
    using own_malloc [OF assms(1,3)] by blast
  have "blocks h' n = Some b" using own_rest [OF n(3)] by simp
  then have "own (m(mb := p)) h' (R(n \<mapsto> b) |` (- {n}))"
    using n fit assms(2) by (intro own_adopt) auto
  moreover have "R(n \<mapsto> b) |` (- {n}) = R" using n(2) by (auto simp: restrict_map_def fun_eq_iff)
  ultimately show "own (m(mb := p)) h' R" by simp
  show "p \<noteq> NULL" using n(1) by simp
qed

lemma holds_new:
  "blocks h n = Some (Text_block s) \<Longrightarrow> holds h User (Ptr n 0) {n}"
  "blocks h n = Some (Text_block s) \<Longrightarrow> holds h Working_directory (Ptr n 0) {n}"
  "blocks h n = Some Raw_block \<Longrightarrow> holds h Client_addr (Ptr n 0) {n}"
  "blocks h n = Some Raw_block \<Longrightarrow> holds h Stream (Ptr n 0) {n}"
  "blocks h n = Some (Data_socket_block PASSIVE NULL) \<Longrightarrow> holds h Data_socket_member (Ptr n 0) {n}"
  by (simp_all add: holds_def)

text \<open>The end of a connection gives back what the connection owns.\<close>

lemma own_destroy_connection:
  assumes "own m h R" "m Stream \<noteq> NULL" "\<not> (verbose \<and> m Client_addr = NULL)"
  shows "\<exists>h'. heap_destroy_connection verbose m h = Inr h' \<and> blocks h' = R"
proof -
  obtain h1 where 1: "free (m User) h = Inr h1" "own (m(User := NULL)) h1 R"
    using own_free [OF assms(1), of User] by auto
  obtain h2 where 2: "free (m Working_directory) h1 = Inr h2"
    "own (m(User := NULL, Working_directory := NULL)) h2 R"
    using own_free [OF 1(2), of Working_directory] by auto
  obtain h3 where 3: "free (m Client_addr) h2 = Inr h3"
    "own (m(User := NULL, Working_directory := NULL, Client_addr := NULL)) h3 R"
    using own_free [OF 2(2), of Client_addr] by auto
  obtain h4 where 4: "heap_destroy_data_socket (m Data_socket_member) h3 = Inr h4"
    "own (m(User := NULL, Working_directory := NULL, Client_addr := NULL,
            Data_socket_member := NULL)) h4 R"
    using own_destroy [OF 3(2)] by auto
  let ?m = "m(User := NULL, Working_directory := NULL, Client_addr := NULL,
    Data_socket_member := NULL, Stream := NULL)"
  obtain h5 where 5: "free (m Stream) h4 = Inr h5" "own ?m h5 R"
    using own_free [OF 4(2), of Stream] by auto
  obtain F where F: "owns h5 ?m F" "others h5 F = R" using 5(2) by (auto simp: own_def)
  have "F mb = {}" for mb using ownsD(2) [OF F(1), of mb] by (cases mb) auto
  then have "blocks h5 = R" using F(2) by (auto simp: others_def restrict_map_def)
  moreover have "heap_destroy_connection verbose m h = Inr h5"
    using 1(1) 2(1) 3(1) 4(1) 5(1) assms(2,3)
    by (cases "m Working_directory = NULL"; cases "m Data_socket_member = NULL")
      (auto simp: heap_destroy_connection_def heap_destroy_data_socket_def)
  ultimately show ?thesis by blast
qed

section \<open>What each event does to ownership\<close>

lemma own_init_connection:
  assumes "heap_ok h" "heap_init_connection alloc True path h = (m, h')"
  shows "own m h' (blocks h)" "m Stream \<noteq> NULL" "m Data_socket_member = NULL"
    "m Client_addr = NULL \<longleftrightarrow> \<not> alloc Alloc_client_addr"
proof -
  have 0: "own no_pointers h (blocks h)"
    using assms(1) by (auto simp: own_def owns_def others_def no_pointers_def
        intro!: exI [of _ "\<lambda>_. {}"])
  obtain a h1 where 1: "(if alloc Alloc_client_addr then malloc Raw_block h else (NULL, h)) = (a, h1)"
    by fastforce
  have o1: "own (no_pointers(Client_addr := a)) h1 (blocks h)"
  proof (cases "alloc Alloc_client_addr")
    case True
    with 1 show ?thesis using own_new(1) [OF 0, of Client_addr Raw_block] holds_new
      by (simp add: no_pointers_def)
  next
    case False
    with 0 1 show ?thesis by (auto simp: no_pointers_def fun_upd_idem)
  qed
  obtain s h2 where 2: "malloc Raw_block h1 = (s, h2)" by fastforce
  have o2: "own (no_pointers(Client_addr := a, Stream := s)) h2 (blocks h)" "s \<noteq> NULL"
    using own_new [OF o1 _ 2, of Stream] holds_new by (simp_all add: no_pointers_def)
  obtain d h3 where 3: "malloc (Text_block path) h2 = (d, h3)" by fastforce
  have o3: "own (no_pointers(Client_addr := a, Stream := s, Working_directory := d)) h3 (blocks h)"
    using own_new(1) [OF o2(1) _ 3, of Working_directory] holds_new by (simp add: no_pointers_def)
  have "m = no_pointers(Client_addr := a, Stream := s, Working_directory := d)" "h' = h3"
    using assms(2) 1 2 3 by (simp_all add: heap_init_connection_def strdup_def)
  then show "own m h' (blocks h)" "m Stream \<noteq> NULL" "m Data_socket_member = NULL"
    "m Client_addr = NULL \<longleftrightarrow> \<not> alloc Alloc_client_addr"
    using o2(2) o3 1 by (auto simp: no_pointers_def malloc_def split: if_splits)
qed

text \<open>The members that no command writes.\<close>

definition ends :: "pointers \<Rightarrow> ptr \<times> ptr" where
  "ends m = (m Stream, m Client_addr)"

lemma ends_upd [simp]:
  "ends (m(User := p)) = ends m" "ends (m(Working_directory := p)) = ends m"
  "ends (m(Data_socket_member := p)) = ends m"
  by (simp_all add: ends_def)

definition same_ends :: "pointers \<Rightarrow> pointers \<Rightarrow> bool" where
  "same_ends m m' \<longleftrightarrow> ends m' = ends m \<and> m' Data_socket_member = m Data_socket_member"

lemma same_ends_upd [simp]:
  "same_ends m m"
  "same_ends m (m(User := p))" "same_ends m (m(Working_directory := p))"
  by (simp_all add: same_ends_def)

lemma own_user:
  assumes "own m h R" "argc cmd = 0 \<or> argv0 cmd \<noteq> None"
  shows "\<exists>m' h'. heap_user_command l cmd m h = Inr (m', h') \<and> own m' h' R \<and> same_ends m m'"
proof (cases l)
  case True
  with assms(1) show ?thesis by (auto simp: heap_user_command_def)
next
  case False
  obtain h1 where 1: "free (m User) h = Inr h1" "own (m(User := NULL)) h1 R"
    using own_free [OF assms(1), of User] by auto
  have f: "(if m User \<noteq> NULL then free (m User) h else Inr h) = Inr h1" using 1(1) by auto
  show ?thesis
  proof (cases "argc cmd = 0")
    case True
    with False 1(2) f show ?thesis by (simp add: heap_user_command_def)
  next
    case nonzero: False
    then obtain a where a: "argv0 cmd = Some a" using assms(2) by blast
    obtain p h2 where 2: "malloc (Text_block a) h1 = (p, h2)" by fastforce
    have "own (m(User := p)) h2 R" using own_new(1) [OF 1(2) _ 2, of User] holds_new by simp
    with False nonzero a 2 f show ?thesis by (simp add: heap_user_command_def strdup_def)
  qed
qed

lemma own_load:
  assumes "own m h R" "m mb \<noteq> NULL" "mb = User \<or> mb = Working_directory"
  shows "\<exists>s. load_text (m mb) h = Inr s"
proof -
  obtain F where "owns h m F" using assms(1) by (auto simp: own_def)
  then have "holds h mb (m mb) (F mb)" by (rule ownsD)
  then show ?thesis
    using assms(2,3) by (cases "m mb") (auto simp: holds_def load_text_def block_of_def)
qed

lemma own_login:
  assumes "own m h R" "m User \<noteq> NULL"
  shows "\<exists>l m' h'. heap_process_login pw m h = Inr (l, m', h') \<and> own m' h' R \<and> same_ends m m'"
proof -
  obtain u where u: "load_text (m User) h = Inr u" using own_load [OF assms] by blast
  obtain h1 where "free (m User) h = Inr h1" "own (m(User := NULL)) h1 R"
    using own_free [OF assms(1), of User] by auto
  with u assms(1) show ?thesis by (auto simp: heap_process_login_def)
qed

lemma own_pass:
  assumes "own m h R"
  shows "\<exists>l' m' h'. heap_pass_command l cmd m h = Inr (l', m', h') \<and> own m' h' R \<and> same_ends m m'"
proof (cases "l \<or> m User = NULL")
  case True
  with assms show ?thesis by (auto simp: heap_pass_command_def)
next
  case False
  obtain p h1 where 1: "malloc (Text_block (get_password cmd)) h = (p, h1)" by fastforce
  then obtain n where n: "p = Ptr n 0" "R n = None"
    "own m h1 (R(n \<mapsto> Text_block (get_password cmd)))"
    using own_malloc [OF assms 1] by blast
  obtain l' m' h2 where 2: "heap_process_login (get_password cmd) m h1 = Inr (l', m', h2)"
    "own m' h2 (R(n \<mapsto> Text_block (get_password cmd)))" "same_ends m m'"
    using own_login [OF n(3)] False by blast
  obtain h3 where "free p h2 = Inr h3"
    "own m' h3 ((R(n \<mapsto> Text_block (get_password cmd)))(n := None))"
    using own_free_rest [OF 2(2), of n] n(1) by auto
  moreover have "(R(n \<mapsto> Text_block (get_password cmd)))(n := None) = R"
    using n(2) by (simp add: fun_upd_idem)
  ultimately show ?thesis
    using False 1 2(1,3) by (simp add: heap_pass_command_def strdup_def)
qed

lemma own_replace:
  assumes "own m h R"
  shows "\<exists>m' h'. heap_replace_directory d m h = Inr (m', h') \<and> own m' h' R \<and> same_ends m m' \<and>
    (m' Working_directory = NULL \<longleftrightarrow> d = None)"
proof -
  obtain h1 where 1: "free (m Working_directory) h = Inr h1"
    "own (m(Working_directory := NULL)) h1 R"
    using own_free [OF assms, of Working_directory] by auto
  show ?thesis
  proof (cases d)
    case None
    with 1 show ?thesis by (simp add: heap_replace_directory_def heap_getcwd_def)
  next
    case (Some s)
    obtain p h2 where 2: "malloc (Text_block s) h1 = (p, h2)" by fastforce
    have "own (m(Working_directory := p)) h2 R" "p \<noteq> NULL"
      using own_new [OF 1(2) _ 2, of Working_directory] holds_new by simp_all
    with Some 1 2 show ?thesis
      by (simp add: heap_replace_directory_def heap_getcwd_def strdup_def)
  qed
qed

lemma own_change_dir:
  assumes "own m h R"
  shows "if d1 = None then heap_change_dir root d1 d2 m h = Inl Null_deref
    else \<exists>m' h'. heap_change_dir root d1 d2 m h = Inr (m', h') \<and> own m' h' R \<and> same_ends m m'"
proof -
  obtain m1 h1 where 1: "heap_replace_directory d1 m h = Inr (m1, h1)" "own m1 h1 R"
    "same_ends m m1" "m1 Working_directory = NULL \<longleftrightarrow> d1 = None"
    using own_replace [OF assms] by blast
  show ?thesis
  proof (cases "d1 = None")
    case True
    with 1 show ?thesis
      by (simp add: heap_change_dir_def heap_check_new_path_def load_text_def block_of_def)
  next
    case False
    then obtain wd where wd: "load_text (m1 Working_directory) h1 = Inr wd"
      using own_load [OF 1(2)] 1(4) by blast
    obtain m2 h2 where "heap_replace_directory d2 m1 h1 = Inr (m2, h2)" "own m2 h2 R"
      "same_ends m1 m2"
      using own_replace [OF 1(2)] by blast
    with False 1 wd show ?thesis
      by (auto simp: heap_change_dir_def heap_check_new_path_def same_ends_def)
  qed
qed

lemma own_transfer:
  assumes "own m h R"
  shows "\<exists>h'. heap_end_transfer m h = Inr (m(Data_socket_member := NULL), h') \<and>
    own (m(Data_socket_member := NULL)) h' R"
  using own_destroy [OF assms] by (auto simp: heap_end_transfer_def)

text \<open>
  PASV and PORT overwrite the data socket member.  Nothing is lost when the member was NULL and the
  set-up does not stop half-way.
\<close>

definition whole_pasv :: "(alloc_site \<Rightarrow> bool) \<Rightarrow> bool \<Rightarrow> bool" where
  "whole_pasv alloc ready \<longleftrightarrow> (alloc Alloc_data_socket \<longrightarrow> ready \<and> alloc Alloc_ports)"

definition whole_port :: "(alloc_site \<Rightarrow> bool) \<Rightarrow> bool \<Rightarrow> bool" where
  "whole_port alloc ready \<longleftrightarrow> alloc Alloc_data_socket \<and> ready \<and> alloc Alloc_address"

lemma le_update: "R \<subseteq>\<^sub>m R' \<Longrightarrow> R' n = None \<Longrightarrow> R \<subseteq>\<^sub>m R'(n \<mapsto> b)"
  by (auto simp: map_le_def dom_def)

lemma le_remove:
  assumes "R(n \<mapsto> b) \<subseteq>\<^sub>m R'" "R n = None"
  shows "R \<subseteq>\<^sub>m R'(n := None)"
  unfolding map_le_def
proof
  fix x
  assume "x \<in> dom R"
  with assms(2) have x: "x \<noteq> n" "x \<in> dom (R(n \<mapsto> b))" by auto
  then show "R x = (R'(n := None)) x" using assms(1) unfolding map_le_def by force
qed

lemma own_pasv:
  assumes o: "own (m(Data_socket_member := NULL)) h R"
  shows "case heap_create_passive_data_socket alloc ready m h of
      Inl e \<Rightarrow> e = Null_deref \<and> \<not> whole_pasv alloc ready
    | Inr (m', h') \<Rightarrow> ends m' = ends m \<and>
        (if whole_pasv alloc ready
         then own m' h' R \<and> (m' Data_socket_member = NULL \<longleftrightarrow> \<not> alloc Alloc_data_socket)
         else \<exists>R'. own m' h' R' \<and> R \<subseteq>\<^sub>m R')"
proof (cases "alloc Alloc_data_socket")
  case False
  with o show ?thesis
    by (simp add: heap_create_passive_data_socket_def heap_setup_passive_data_socket_def whole_pasv_def)
next
  case True
  obtain p h1 where 1: "malloc (Data_socket_block PASSIVE NULL) h = (p, h1)" by fastforce
  obtain n where n: "p = Ptr n 0" "R n = None"
    "own (m(Data_socket_member := NULL)) h1 (R(n \<mapsto> Data_socket_block PASSIVE NULL))"
    using own_malloc [OF o 1] by blast
  have o1: "own (m(Data_socket_member := p)) h1 R"
    using own_new(1) [OF o _ 1, of Data_socket_member] holds_new by simp
  obtain q h2 where 2: "malloc Raw_block h1 = (q, h2)" by fastforce
  obtain k where k: "q = Ptr k 0" "R k = None" "own (m(Data_socket_member := p)) h2 (R(k \<mapsto> Raw_block))"
    using own_malloc [OF o1 2] by blast
  obtain h3 where 3: "free q h2 = Inr h3" "own (m(Data_socket_member := p)) h3 ((R(k \<mapsto> Raw_block))(k := None))"
    using own_free_rest [OF k(3), of k] k(1) by auto
  have R: "(R(k \<mapsto> Raw_block))(k := None) = R" using k(2) by (simp add: fun_upd_idem)
  have le: "R \<subseteq>\<^sub>m R(n \<mapsto> Data_socket_block PASSIVE NULL)" using n(2) by (intro le_update) simp_all
  show ?thesis
    using True 1 2 3 R n(1,3) le
    by (auto simp: heap_create_passive_data_socket_def heap_setup_passive_data_socket_def whole_pasv_def)
qed

text \<open>The set-up of an active data socket: nothing, or a new socket with its address.\<close>

lemma own_setup_active:
  assumes o: "own m h R" and "m Data_socket_member = NULL"
  shows "\<exists>p h' R'. heap_setup_active_data_socket alloc ready h = Inr (p, h') \<and>
    own (m(Data_socket_member := p)) h' R' \<and> R \<subseteq>\<^sub>m R' \<and>
    (whole_port alloc ready \<longrightarrow> R' = R) \<and> (p = NULL \<longleftrightarrow> \<not> whole_port alloc ready)"
proof (cases "whole_port alloc ready")
  case True
  obtain p h1 where 1: "malloc (Data_socket_block ACTIVE NULL) h = (p, h1)" by fastforce
  obtain n where n: "p = Ptr n 0" "R n = None" "own m h1 (R(n \<mapsto> Data_socket_block ACTIVE NULL))"
    using own_malloc [OF o 1] by blast
  obtain q h2 where 2: "malloc Raw_block h1 = (q, h2)" by fastforce
  obtain k where k: "q = Ptr k 0" "(R(n \<mapsto> Data_socket_block ACTIVE NULL)) k = None"
    "own m h2 (R(n \<mapsto> Data_socket_block ACTIVE NULL, k \<mapsto> Raw_block))"
    using own_malloc [OF n(3) 2] by blast
  have nk: "n \<noteq> k" "R k = None" using k(2) by (auto split: if_splits)
  have b: "blocks h2 n = Some (Data_socket_block ACTIVE NULL)" "blocks h2 k = Some Raw_block"
    using nk(1) by (auto intro: own_rest [OF k(3)])
  let ?h = "h2\<lparr>blocks := (blocks h2)(n \<mapsto> Data_socket_block ACTIVE q)\<rparr>"
  have "own m ?h (R(n \<mapsto> Data_socket_block ACTIVE NULL, k \<mapsto> Raw_block, n \<mapsto> Data_socket_block ACTIVE q))"
    using nk(1) by (intro own_store [OF k(3)]) simp
  then have "own (m(Data_socket_member := p)) ?h
    (R(n \<mapsto> Data_socket_block ACTIVE NULL, k \<mapsto> Raw_block, n \<mapsto> Data_socket_block ACTIVE q) |` (- {n, k}))"
    using assms(2) n(1) k(1) nk(1) b by (intro own_adopt) (auto simp: holds_def)
  moreover have "R(n \<mapsto> Data_socket_block ACTIVE NULL, k \<mapsto> Raw_block, n \<mapsto> Data_socket_block ACTIVE q)
      |` (- {n, k}) = R"
    using n(2) nk(2) by (auto simp: restrict_map_def fun_eq_iff)
  moreover have "heap_setup_active_data_socket alloc ready h = Inr (p, ?h)"
    using True 1 2 n(1) k(1) b
    by (simp add: heap_setup_active_data_socket_def heap_init_active_data_socket_def
        heap_set_address_def block_of_def whole_port_def)
  ultimately show ?thesis using True n(1) by auto
next
  case False
  define r where "r = (if alloc Alloc_data_socket
    then malloc (Data_socket_block ACTIVE NULL) h else (NULL, h))"
  obtain R1 where R1: "own m (snd r) R1" "R \<subseteq>\<^sub>m R1"
  proof (cases "alloc Alloc_data_socket")
    case True
    obtain p h1 where 1: "malloc (Data_socket_block ACTIVE NULL) h = (p, h1)" by fastforce
    from own_malloc [OF o 1] obtain n where
      "R n = None" "own m h1 (R(n \<mapsto> Data_socket_block ACTIVE NULL))" by blast
    then show thesis
      using True 1 le_update [OF map_le_refl] by (intro that) (simp_all add: r_def)
  next
    case False
    with o show thesis using that by (auto simp: r_def)
  qed
  define t where "t = (if alloc Alloc_address then malloc Raw_block (snd r) else (NULL, snd r))"
  obtain R2 where R2: "own m (snd t) R2" "R \<subseteq>\<^sub>m R2"
  proof (cases "alloc Alloc_address")
    case True
    obtain p h1 where 1: "malloc Raw_block (snd r) = (p, h1)" by fastforce
    from own_malloc [OF R1(1) 1] obtain n where "R1 n = None" "own m h1 (R1(n \<mapsto> Raw_block))" by blast
    then show thesis
      using True 1 le_update [OF R1(2)] by (intro that) (simp_all add: t_def)
  next
    case False
    with R1 show thesis using that by (auto simp: t_def)
  qed
  have "heap_setup_active_data_socket alloc ready h = Inr (NULL, snd t)"
    using False
    by (auto simp: heap_setup_active_data_socket_def heap_init_active_data_socket_def r_def t_def
        malloc_def whole_port_def)
  moreover have "m(Data_socket_member := NULL) = m" using assms(2) by (simp add: fun_upd_idem)
  ultimately show ?thesis using R2 False by auto
qed

lemma own_socket_forgotten:
  assumes "own m h R"
  obtains R' where "own (m(Data_socket_member := NULL)) h R'" "R \<subseteq>\<^sub>m R'"
    "m Data_socket_member = NULL \<longrightarrow> R' = R"
proof (cases "m Data_socket_member = NULL")
  case True
  then have "m(Data_socket_member := NULL) = m" by (simp add: fun_upd_idem)
  with assms show thesis using that [of R] by simp
next
  case False
  then show thesis using own_forget [OF assms, of Data_socket_member] that by blast
qed

lemma own_port:
  fixes alloc :: "alloc_site \<Rightarrow> bool" and arg :: string
  assumes o: "own m h R"
  defines "made \<equiv> alloc Alloc_host_port \<and> parse_host_port_values arg \<noteq> None"
  shows "\<exists>m' h' R'. heap_create_active_data_socket alloc ready arg m h = Inr (m', h') \<and>
    own m' h' R' \<and> R \<subseteq>\<^sub>m R' \<and> ends m' = ends m \<and>
    ((made \<longrightarrow> m Data_socket_member = NULL \<and> whole_port alloc ready) \<longrightarrow>
       R' = R \<and> (m' Data_socket_member = NULL \<longleftrightarrow> m Data_socket_member = NULL \<and> \<not> made))"
proof (cases "alloc Alloc_host_port")
  case False
  with o show ?thesis by (auto simp: heap_create_active_data_socket_def made_def)
next
  case hp: True
  obtain q h1 where 1: "malloc Raw_block h = (q, h1)" by fastforce
  obtain n where n: "q = Ptr n 0" "R n = None" "own m h1 (R(n \<mapsto> Raw_block))"
    using own_malloc [OF o 1] by blast
  have R: "(R(n \<mapsto> Raw_block))(n := None) = R" using n(2) by (simp add: fun_upd_idem)
  show ?thesis
  proof (cases "parse_host_port_values arg = None")
    case True
    obtain h2 where "free q h1 = Inr h2" "own m h2 ((R(n \<mapsto> Raw_block))(n := None))"
      using own_free_rest [OF n(3), of n] n(1) by auto
    with hp True 1 R show ?thesis by (auto simp: heap_create_active_data_socket_def made_def)
  next
    case parsed: False
    obtain R1 where R1: "own (m(Data_socket_member := NULL)) h1 R1" "R(n \<mapsto> Raw_block) \<subseteq>\<^sub>m R1"
      "m Data_socket_member = NULL \<longrightarrow> R1 = R(n \<mapsto> Raw_block)"
      using own_socket_forgotten [OF n(3)] by blast
    obtain p h2 R2 where 2: "heap_setup_active_data_socket alloc ready h1 = Inr (p, h2)"
      "own (m(Data_socket_member := p)) h2 R2" "R1 \<subseteq>\<^sub>m R2"
      "whole_port alloc ready \<longrightarrow> R2 = R1" "p = NULL \<longleftrightarrow> \<not> whole_port alloc ready"
      using own_setup_active [OF R1(1), of alloc ready] by auto
    have le: "R(n \<mapsto> Raw_block) \<subseteq>\<^sub>m R2" using R1(2) 2(3) by (rule map_le_trans)
    have Rn: "R2 n = Some Raw_block" using le by (auto simp: map_le_def)
    show ?thesis
    proof (cases "p = NULL")
      case True
      have "R \<subseteq>\<^sub>m R2" using le_update [of R R n, OF map_le_refl n(2)] le by (rule map_le_trans)
      moreover have "heap_create_active_data_socket alloc ready arg m h =
          Inr (m(Data_socket_member := p), h2)"
        using True hp parsed 1 2(1)
        by (cases "parse_host_port_values arg") (simp_all add: heap_create_active_data_socket_def)
      ultimately show ?thesis
        using True hp parsed 2(2,5)
        by (intro exI [of _ "m(Data_socket_member := p)"] exI [of _ h2] exI [of _ R2])
          (simp add: made_def)
    next
      case False
      obtain h3 where 3: "free q h2 = Inr h3" "own (m(Data_socket_member := p)) h3 (R2(n := None))"
        using own_free_rest [OF 2(2) Rn] n(1) by auto
      have "R \<subseteq>\<^sub>m R2(n := None)"
        using le n(2) by (rule le_remove)
      moreover have "heap_create_active_data_socket alloc ready arg m h =
          Inr (m(Data_socket_member := p), h3)"
        using False hp parsed 1 2(1) 3(1)
        by (cases "parse_host_port_values arg") (simp_all add: heap_create_active_data_socket_def)
      moreover have "R2(n := None) = R" if "made \<longrightarrow> m Data_socket_member = NULL \<and> whole_port alloc ready"
        using that hp parsed R1(3) 2(4) R by (simp add: made_def)
      ultimately show ?thesis
        using False hp parsed 3(2)
        by (intro exI [of _ "m(Data_socket_member := p)"] exI [of _ h3] exI [of _ "R2(n := None)"])
          (simp add: made_def)
    qed
  qed
qed

section \<open>Whole lives\<close>

fun goes_on :: "ptr \<times> ptr \<Rightarrow> (nat \<rightharpoonup> block) \<Rightarrow> memory_state result \<Rightarrow> bool" where
  "goes_on s R (Inl e) \<longleftrightarrow> e = Null_deref"
| "goes_on s R (Inr (l, m, h)) \<longleftrightarrow> ends m = s \<and> (\<exists>R'. own m h R' \<and> R \<subseteq>\<^sub>m R')"

lemma goes_onI: "own m h R' \<Longrightarrow> R \<subseteq>\<^sub>m R' \<Longrightarrow> ends m = s \<Longrightarrow> goes_on s R (Inr (l, m, h))"
  by auto

lemma goes_on_same: "own m h R \<Longrightarrow> ends m = s \<Longrightarrow> goes_on s R (Inr (l, m, h))"
  by (rule goes_onI [of _ _ R]) simp_all

lemma goes_on_trans: "R \<subseteq>\<^sub>m R' \<Longrightarrow> goes_on s R' r \<Longrightarrow> goes_on s R r"
  by (cases "(s, R', r)" rule: goes_on.cases) (auto dest: map_le_trans)

declare goes_on.simps(2) [simp del]

lemma heap_event_goes_on:
  assumes o: "own m h R"
  shows "goes_on (ends m) R (heap_event root e (l, m, h))"
proof (cases e)
  case (Mem_user cmd)
  show ?thesis
  proof (cases "argc cmd = 0 \<or> argv0 cmd \<noteq> None")
    case True
    from own_user [OF o True, of l] Mem_user show ?thesis
      by (auto simp: same_ends_def intro: goes_on_same)
  next
    case False
    obtain h1 where "free (m User) h = Inr h1" using own_free [OF o, of User] by auto
    with False Mem_user o show ?thesis by (auto simp: heap_user_command_def intro: goes_on_same)
  qed
next
  case (Mem_pass cmd)
  with own_pass [OF o, of l cmd] show ?thesis by (auto simp: same_ends_def intro: goes_on_same)
next
  case (Mem_cwd d1 d2)
  with own_change_dir [OF o, of d1 root d2] show ?thesis
    by (auto simp: same_ends_def intro: goes_on_same split: if_splits)
next
  case (Mem_pasv alloc ready)
  obtain R' where R': "own (m(Data_socket_member := NULL)) h R'" "R \<subseteq>\<^sub>m R'"
    using own_socket_forgotten [OF o] by blast
  from own_pasv [OF R'(1), of alloc ready] Mem_pasv have "goes_on (ends m) R' (heap_event root e (l, m, h))"
    by (auto split: sum.splits if_splits intro: goes_on_same goes_onI)
  with R'(2) show ?thesis by (rule goes_on_trans)
next
  case (Mem_port alloc ready arg)
  from own_port [OF o, of alloc ready arg] Mem_port show ?thesis
    by (auto intro: goes_onI goes_on_same)
next
  case Mem_transfer
  with own_transfer [OF o] show ?thesis by (auto intro!: goes_on_same)
qed

lemma heap_events_go_on:
  "own m h R \<Longrightarrow> goes_on (ends m) R (heap_events root es (l, m, h))"
proof (induction es arbitrary: l m h R)
  case Nil
  then show ?case by (simp add: goes_on_same)
next
  case (Cons e es)
  note step = heap_event_goes_on [OF Cons.prems, of root e l]
  show ?case
  proof (cases "heap_event root e (l, m, h)")
    case (Inl x)
    with step show ?thesis by simp
  next
    case (Inr s)
    obtain l' m' h' where s: "s = (l', m', h')" by (cases s)
    obtain R' where R': "own m' h' R'" "R \<subseteq>\<^sub>m R'" "ends m' = ends m"
      using step Inr s by (auto simp: goes_on.simps(2))
    from Cons.IH [OF R'(1), of l'] R'(3) have "goes_on (ends m) R' (heap_events root es (l', m', h'))"
      by simp
    with R'(2) have "goes_on (ends m) R (heap_events root es (l', m', h'))" by (rule goes_on_trans)
    with Inr s show ?thesis by simp
  qed
qed

text \<open>
  Events that lose nothing: the argument of USER is there, \<open>getcwd\<close> works, the set-ups go through, and
  no PASV or PORT comes while a data socket is there (\<open>there\<close>).
\<close>

fun whole_event :: "bool \<Rightarrow> memory_event \<Rightarrow> bool" where
  "whole_event there (Mem_user cmd) \<longleftrightarrow> argc cmd = 0 \<or> argv0 cmd \<noteq> None"
| "whole_event there (Mem_pass cmd) \<longleftrightarrow> True"
| "whole_event there (Mem_cwd d1 d2) \<longleftrightarrow> d1 \<noteq> None"
| "whole_event there (Mem_pasv alloc ready) \<longleftrightarrow> \<not> there \<and> whole_pasv alloc ready"
| "whole_event there (Mem_port alloc ready arg) \<longleftrightarrow>
     (if alloc Alloc_host_port \<and> parse_host_port_values arg \<noteq> None
      then \<not> there \<and> whole_port alloc ready else True)"
| "whole_event there Mem_transfer \<longleftrightarrow> True"

fun socket_after :: "bool \<Rightarrow> memory_event \<Rightarrow> bool" where
  "socket_after there (Mem_pasv alloc ready) \<longleftrightarrow> alloc Alloc_data_socket"
| "socket_after there (Mem_port alloc ready arg) \<longleftrightarrow>
     there \<or> alloc Alloc_host_port \<and> parse_host_port_values arg \<noteq> None"
| "socket_after there Mem_transfer \<longleftrightarrow> False"
| "socket_after there _ \<longleftrightarrow> there"

fun whole_events :: "bool \<Rightarrow> memory_event list \<Rightarrow> bool" where
  "whole_events there [] \<longleftrightarrow> True"
| "whole_events there (e # es) \<longleftrightarrow>
     whole_event there e \<and> whole_events (socket_after there e) es"

lemma heap_event_whole:
  assumes o: "own m h R" and "whole_event (m Data_socket_member \<noteq> NULL) e"
  shows "\<exists>l' m' h'. heap_event root e (l, m, h) = Inr (l', m', h') \<and> own m' h' R \<and>
    ends m' = ends m \<and>
    (m' Data_socket_member \<noteq> NULL) = socket_after (m Data_socket_member \<noteq> NULL) e"
proof (cases e)
  case (Mem_user cmd)
  with assms(2) own_user [OF o, of cmd l] show ?thesis by (auto simp: same_ends_def)
next
  case (Mem_pass cmd)
  with own_pass [OF o, of l cmd] show ?thesis by (auto simp: same_ends_def)
next
  case (Mem_cwd d1 d2)
  with assms(2) own_change_dir [OF o, of d1 root d2] show ?thesis by (auto simp: same_ends_def)
next
  case (Mem_pasv alloc ready)
  with assms(2) have w: "whole_pasv alloc ready" "m(Data_socket_member := NULL) = m"
    by (simp_all add: fun_upd_idem)
  with own_pasv [of m h R alloc ready] o Mem_pasv show ?thesis by (auto split: sum.splits)
next
  case (Mem_port alloc ready arg)
  with own_port [OF o, of alloc ready arg] assms(2) show ?thesis
    by (cases "alloc Alloc_host_port \<and> parse_host_port_values arg \<noteq> None") auto
next
  case Mem_transfer
  with own_transfer [OF o] show ?thesis by auto
qed

lemma heap_events_whole:
  "own m h R \<Longrightarrow> whole_events (m Data_socket_member \<noteq> NULL) es \<Longrightarrow>
   \<exists>l' m' h'. heap_events root es (l, m, h) = Inr (l', m', h') \<and> own m' h' R \<and> ends m' = ends m"
proof (induction es arbitrary: l m h)
  case Nil
  then show ?case by simp
next
  case (Cons e es)
  then obtain l1 m1 h1 where 1: "heap_event root e (l, m, h) = Inr (l1, m1, h1)" "own m1 h1 R"
    "ends m1 = ends m"
    "(m1 Data_socket_member \<noteq> NULL) = socket_after (m Data_socket_member \<noteq> NULL) e"
    using heap_event_whole [of m h R e root l] by auto
  with Cons.IH [OF 1(2), of l1] Cons.prems(2) show ?case by simp
qed

section \<open>Repeated PASV\<close>

text \<open>A PASV that succeeds while a passive data socket is there forgets that socket.\<close>

lemma own_forget_passive:
  assumes "own m h R" "m Data_socket_member = Ptr a i"
    "blocks h a = Some (Data_socket_block PASSIVE NULL)"
  shows "R a = None" "own (m(Data_socket_member := NULL)) h (R(a \<mapsto> Data_socket_block PASSIVE NULL))"
proof -
  obtain F where o: "owns h m F" "others h F = R" using assms(1) by (auto simp: own_def)
  have F: "F Data_socket_member = {a}"
    using ownsD(2) [OF o(1), of Data_socket_member] assms(2,3) by (auto simp: holds_def)
  then have "a \<in> \<Union> (range F)" by blast
  then have "others h F a = None" by (simp only: others_def restrict_map_def) auto
  then show "R a = None" by (simp add: o(2))
  have "owns h (m(Data_socket_member := NULL)) (F(Data_socket_member := {}))"
    using o(1) ownsD(1) [OF o(1)] by (intro owns_change) auto
  moreover have "others h (F(Data_socket_member := {})) = R(a \<mapsto> Data_socket_block PASSIVE NULL)"
  proof (rule ext)
    fix x
    show "others h (F(Data_socket_member := {})) x = (R(a \<mapsto> Data_socket_block PASSIVE NULL)) x"
    proof (cases "x = a")
      case True
      have "a \<notin> (F(Data_socket_member := {})) mb" for mb
        using ownsD(3) [OF o(1), of mb Data_socket_member] F by (cases "mb = Data_socket_member") auto
      then show ?thesis
        using True assms(3) by (simp add: others_def restrict_map_def del: fun_upd_apply) simp
    next
      case False
      have "x \<in> (F(Data_socket_member := {})) mb \<longleftrightarrow> x \<in> F mb" for mb using False F by simp
      then show ?thesis
        using False unfolding o(2) [symmetric]
        by (simp add: others_def restrict_map_def del: fun_upd_apply) simp
    qed
  qed
  ultimately show "own (m(Data_socket_member := NULL)) h (R(a \<mapsto> Data_socket_block PASSIVE NULL))"
    by (auto simp: own_def)
qed

definition working :: "alloc_site \<Rightarrow> bool" where
  "working = (\<lambda>_. True)"

lemma pasv_again:
  assumes o: "own m h R" and "m Data_socket_member = Ptr a i"
    "blocks h a = Some (Data_socket_block PASSIVE NULL)"
  shows "\<exists>m' h' b. heap_event root (Mem_pasv working True) (l, m, h) = Inr (l, m', h') \<and>
    own m' h' (R(a \<mapsto> Data_socket_block PASSIVE NULL)) \<and> R a = None \<and> ends m' = ends m \<and>
    m' Data_socket_member = Ptr b 0 \<and> blocks h' b = Some (Data_socket_block PASSIVE NULL)"
proof -
  note f = own_forget_passive [OF assms]
  have w: "whole_pasv working True" by (simp add: whole_pasv_def working_def)
  obtain m' h' where r: "heap_create_passive_data_socket working True m h = Inr (m', h')"
    "own m' h' (R(a \<mapsto> Data_socket_block PASSIVE NULL))" "ends m' = ends m"
    using own_pasv [OF f(2), of working True] w by (auto split: sum.splits)
  have "m' Data_socket_member = Ptr (next_block h) 0 \<and>
      blocks h' (next_block h) = Some (Data_socket_block PASSIVE NULL)"
    using r(1) by (auto simp: heap_create_passive_data_socket_def
        heap_setup_passive_data_socket_def working_def malloc_def)
  with r f(1) show ?thesis by simp
qed

lemma pasv_times:
  assumes "own m h R" "m Data_socket_member = Ptr a i"
    "blocks h a = Some (Data_socket_block PASSIVE NULL)"
  shows "\<exists>m' h' R'. heap_events root (replicate n (Mem_pasv working True)) (l, m, h) = Inr (l, m', h') \<and>
    own m' h' R' \<and> ends m' = ends m \<and> card (dom R') = card (dom R) + n"
  using assms
proof (induction n arbitrary: m h R a i)
  case 0
  then show ?case by auto
next
  case (Suc n)
  obtain m1 h1 b where 1: "heap_event root (Mem_pasv working True) (l, m, h) = Inr (l, m1, h1)"
    "own m1 h1 (R(a \<mapsto> Data_socket_block PASSIVE NULL))" "R a = None" "ends m1 = ends m"
    "m1 Data_socket_member = Ptr b 0" "blocks h1 b = Some (Data_socket_block PASSIVE NULL)"
    using pasv_again [OF Suc.prems, of root l] by blast
  have "finite (dom R)"
  proof (rule finite_subset)
    show "finite (dom (blocks h))"
      using Suc.prems(1) by (auto simp: own_def dest!: ownsD(1) intro: heap_ok_finite)
    show "dom R \<subseteq> dom (blocks h)" using own_rest [OF Suc.prems(1)] by blast
  qed
  then have c: "card (dom (R(a \<mapsto> Data_socket_block PASSIVE NULL))) = card (dom R) + 1"
    using 1(3) by (simp add: domIff card_insert_if)
  obtain m' h' R' where 2: "heap_events root (replicate n (Mem_pasv working True)) (l, m1, h1) =
      Inr (l, m', h')" "own m' h' R'" "ends m' = ends m1"
    "card (dom R') = card (dom (R(a \<mapsto> Data_socket_block PASSIVE NULL))) + n"
    using Suc.IH [OF 1(2,5,6)] by blast
  have "heap_events root (replicate (Suc n) (Mem_pasv working True)) (l, m, h) = Inr (l, m', h')"
    unfolding replicate_Suc heap_events.simps 1(1) on_ok_simps by (rule 2(1))
  moreover have "card (dom R') = card (dom R) + Suc n" using 2(4) c by linarith
  ultimately show ?case using 2(2,3) 1(4) by metis
qed

text \<open>From beginning to end.\<close>

lemma life_returned:
  assumes "heap_ok h" "heap_init_connection alloc True path h = (m, h0)"
  shows "case heap_events root es (False, m, h0) of
      Inl e \<Rightarrow> e = Null_deref
    | Inr (l, m', h') \<Rightarrow>
        if verbose \<and> \<not> alloc Alloc_client_addr
        then heap_destroy_connection verbose m' h' = Inl Null_deref
        else \<exists>h''. heap_destroy_connection verbose m' h' = Inr h'' \<and> blocks h \<subseteq>\<^sub>m blocks h''"
proof -
  note i = own_init_connection [OF assms]
  have g: "goes_on (ends m) (blocks h) (heap_events root es (False, m, h0))"
    by (rule heap_events_go_on [OF i(1)])
  show ?thesis
  proof (cases "heap_events root es (False, m, h0)")
    case (Inl e)
    with g show ?thesis by simp
  next
    case (Inr s)
    obtain l m' h' where s: "s = (l, m', h')" by (cases s)
    obtain R where R: "ends m' = ends m" "own m' h' R" "blocks h \<subseteq>\<^sub>m R"
      using g Inr s by (auto simp: goes_on.simps(2))
    have e: "m' Stream \<noteq> NULL" "m' Client_addr = NULL \<longleftrightarrow> \<not> alloc Alloc_client_addr"
      using R(1) i(2,4) by (simp_all add: ends_def)
    show ?thesis
    proof (cases "verbose \<and> \<not> alloc Alloc_client_addr")
      case True
      with e Inr s show ?thesis by (simp add: heap_destroy_connection_def)
    next
      case False
      with own_destroy_connection [OF R(2) e(1), of verbose] e(2) R(3) Inr s show ?thesis by auto
    qed
  qed
qed

section \<open>The properties\<close>

text \<open>A concrete life for the witnesses.\<close>

definition demo_start :: "pointers \<times> heap" where
  "demo_start = heap_init_connection working True ''/srv'' empty_heap"

definition demo_events :: "memory_event list" where
  "demo_events =
     [Mem_user \<lparr>name = ''USER'', argc = 1, argv = [''Anonymous'']\<rparr>,
      Mem_pass \<lparr>name = ''PASS'', argc = 0, argv = []\<rparr>,
      Mem_cwd (Some ''/srv/pub'') None,
      Mem_pasv working True, Mem_transfer,
      Mem_port working True ''127,0,0,1,4,1'', Mem_user \<lparr>name = ''USER'', argc = 1, argv = [''x'']\<rparr>,
      Mem_cwd (Some ''/'') (Some ''/srv'')]"

lemma demo_start: "heap_init_connection working True ''/srv'' empty_heap = (fst demo_start, snd demo_start)"
  by (simp add: demo_start_def)


text \<open>
  Property C18: whatever a client sends, the memory of its connection is never freed twice,
  used after it was freed or read out of bounds: any sequence of USER, PASS, CWD, CDUP, PASV, PORT and
  transfers either runs to its end, after which \<open>destroy_connection\<close> succeeds and leaves every block
  that was live before the connection as it was, or stops at a NULL dereference.  Only a
  connection whose address could not be allocated makes \<open>destroy_connection\<close> fail, when that address
  is printed.
\<close>

theorem connection_memory_safe:
  assumes "heap_ok h" "heap_init_connection alloc True path h = (m, h0)"
  shows "case heap_events root es (False, m, h0) of
      Inl e \<Rightarrow> e = Null_deref
    | Inr (l, m', h') \<Rightarrow>
        if verbose \<and> \<not> alloc Alloc_client_addr
        then heap_destroy_connection verbose m' h' = Inl Null_deref
        else \<exists>h''. heap_destroy_connection verbose m' h' = Inr h'' \<and> blocks h \<subseteq>\<^sub>m blocks h''"
  by (rule life_returned [OF assms])

theorem connection_memory_safe_witness:
  "case heap_events ''/srv'' demo_events (False, fst demo_start, snd demo_start) of
      Inl e \<Rightarrow> e = Null_deref
    | Inr (l, m', h') \<Rightarrow>
        if True \<and> \<not> working Alloc_client_addr
        then heap_destroy_connection True m' h' = Inl Null_deref
        else \<exists>h''. heap_destroy_connection True m' h' = Inr h'' \<and> blocks empty_heap \<subseteq>\<^sub>m blocks h''"
  by (rule connection_memory_safe [OF heap_ok_empty demo_start])

text \<open>
  Property C19: a connection gives back exactly what it took: if every set-up goes
  through and no PASV or PORT comes while a data socket is there, the commands run to their end
  and after \<open>destroy_connection\<close> the live blocks are those from before the connection.
\<close>

theorem connection_memory_returned:
  assumes "heap_ok h" "heap_init_connection alloc True path h = (m, h0)" "alloc Alloc_client_addr"
    and "whole_events False es"
  shows "\<exists>l m' h' h''. heap_events root es (False, m, h0) = Inr (l, m', h') \<and>
    heap_destroy_connection verbose m' h' = Inr h'' \<and> blocks h'' = blocks h"
proof -
  note i = own_init_connection [OF assms(1,2)]
  obtain l m' h' where r: "heap_events root es (False, m, h0) = Inr (l, m', h')"
    "own m' h' (blocks h)" "ends m' = ends m"
    using heap_events_whole [OF i(1), of es root False] assms(4) i(3) by auto
  from own_destroy_connection [OF r(2), of verbose] r(1,3) i(2,4) assms(3) show ?thesis
    by (auto simp: ends_def)
qed

theorem connection_memory_returned_witness:
  "\<exists>l m' h' h''. heap_events ''/srv'' demo_events (False, fst demo_start, snd demo_start) = Inr (l, m', h') \<and>
    heap_destroy_connection True m' h' = Inr h'' \<and> blocks h'' = blocks empty_heap"
  by (rule connection_memory_returned [OF heap_ok_empty demo_start]) (simp add: working_def, code_simp)

text \<open>
  A PASV that comes while a passive data socket is there forgets it: after
  \<open>n + 1\<close> PASV in a row and the end of the connection, \<open>n\<close> data sockets are still allocated.
\<close>

lemma repeated_pasv_leaks:
  assumes "heap_ok h" "heap_init_connection alloc True path h = (m, h0)" "alloc Alloc_client_addr"
  shows "\<exists>m' h' h''.
    heap_events root (replicate (Suc n) (Mem_pasv working True)) (False, m, h0) = Inr (False, m', h') \<and>
    heap_destroy_connection verbose m' h' = Inr h'' \<and>
    card (dom (blocks h'')) = card (dom (blocks h)) + n"
proof -
  note i = own_init_connection [OF assms(1,2)]
  have w: "whole_pasv working True" "working Alloc_data_socket"
    by (simp_all add: whole_pasv_def working_def)
  obtain m1 h1 where 1: "heap_create_passive_data_socket working True m h0 = Inr (m1, h1)"
    "own m1 h1 (blocks h)" "ends m1 = ends m"
    using own_pasv [of m h0 "blocks h" working True] i(1,3) w
    by (auto simp: fun_upd_idem split: sum.splits)
  have d: "m1 Data_socket_member = Ptr (next_block h0) 0 \<and>
      blocks h1 (next_block h0) = Some (Data_socket_block PASSIVE NULL)"
    using 1(1) by (auto simp: heap_create_passive_data_socket_def
        heap_setup_passive_data_socket_def working_def malloc_def)
  obtain m' h' R where 2: "heap_events root (replicate n (Mem_pasv working True)) (False, m1, h1) =
      Inr (False, m', h')" "own m' h' R" "ends m' = ends m1" "card (dom R) = card (dom (blocks h)) + n"
    using pasv_times [OF 1(2)] d by blast
  from own_destroy_connection [OF 2(2), of verbose] 1(1,3) 2 i(2,4) assms(3) show ?thesis
    by (auto simp: ends_def)
qed

lemma repeated_pasv_leaks_witness:
  "\<exists>m' h' h''.
    heap_events ''/srv'' (replicate (Suc 2) (Mem_pasv working True))
      (False, fst demo_start, snd demo_start) = Inr (False, m', h') \<and>
    heap_destroy_connection True m' h' = Inr h'' \<and>
    card (dom (blocks h'')) = card (dom (blocks empty_heap)) + 2"
  by (rule repeated_pasv_leaks [OF heap_ok_empty demo_start]) (simp add: working_def)

end
