(* ===== verification/Session_Memory.thy ===== *)
theory Session_Memory
  imports Connection_Memory Server
begin

text \<open>
  The memory of Connection_Memory behind the sessions of the handlers: every command that a
  handler carries out on a \<open>connection_t\<close> is a list of memory events on its pointers, after which
  the pointers lead to the strings the handler has left in the connection.
\<close>

section \<open>What the pointers mean\<close>

definition text_of :: "heap \<Rightarrow> ptr \<Rightarrow> string option" where
  "text_of h p = (case load_text p h of Inl _ \<Rightarrow> None | Inr s \<Rightarrow> Some s)"

definition mirrors :: "connection_t \<Rightarrow> memory_state \<Rightarrow> bool" where
  "mirrors c s \<longleftrightarrow>
     (case s of (l, m, h) \<Rightarrow>
        l = logged_in c \<and> user c = text_of h (m User) \<and>
        working_directory c = text_of h (m Working_directory) \<and>
        (data_socket c = None \<longleftrightarrow> m Data_socket_member = NULL))"

lemma text_of_NULL [simp]: "text_of h NULL = None"
  by (simp add: text_of_def load_text_def block_of_def)

lemma text_of_at: "blocks h a = Some (Text_block s) \<Longrightarrow> text_of h (Ptr a 0) = Some s"
  by (simp add: text_of_def load_text_def block_of_def)

lemma own_text:
  assumes "own m h R" "mb = User \<or> mb = Working_directory"
  shows "text_of h (m mb) = None \<longleftrightarrow> m mb = NULL"
proof (cases "m mb = NULL")
  case False
  with own_load [OF assms(1) _ assms(2)] show ?thesis by (auto simp: text_of_def)
qed simp

section \<open>Members an event does not touch\<close>

fun touched :: "memory_event \<Rightarrow> member" where
  "touched (Mem_user cmd) = User"
| "touched (Mem_pass cmd) = User"
| "touched (Mem_cwd d1 d2) = Working_directory"
| "touched _ = Data_socket_member"

definition put_member :: "member \<Rightarrow> ptr \<Rightarrow> memory_state \<Rightarrow> memory_state" where
  "put_member mb q s = (case s of (l, m, h) \<Rightarrow> (l, m(mb := q), h))"

lemma on_ok_map: "map_sum id f (on_ok r g) = on_ok r (\<lambda>x. map_sum id f (g x))"
  by (cases r) auto

lemma on_ok_cong_Inr: "(\<And>x. r = Inr x \<Longrightarrow> f x = g x) \<Longrightarrow> on_ok r f = on_ok r g"
  by (cases r) auto

lemma heap_event_untouched:
  assumes "mb \<noteq> touched e"
  shows "heap_event root e (put_member mb q (l, m, h)) =
    map_sum id (put_member mb q) (heap_event root e (l, m, h))"
proof (cases e)
  case (Mem_user cmd)
  with assms show ?thesis
    by (auto simp: heap_user_command_def put_member_def on_ok_map on_ok_assoc Let_def fun_upd_twist
        split: option.splits prod.splits intro!: on_ok_cong_Inr)
next
  case (Mem_pass cmd)
  with assms show ?thesis
    by (auto simp: heap_pass_command_def heap_process_login_def put_member_def on_ok_map on_ok_assoc
        Let_def fun_upd_twist split: prod.splits intro!: on_ok_cong_Inr)
next
  case (Mem_cwd d1 d2)
  with assms show ?thesis
    by (auto simp: heap_change_dir_def heap_replace_directory_def heap_check_new_path_def put_member_def
        on_ok_map on_ok_assoc Let_def fun_upd_twist split: prod.splits intro!: on_ok_cong_Inr)
next
  case (Mem_pasv alloc ready)
  with assms show ?thesis
    by (auto simp: heap_create_passive_data_socket_def put_member_def on_ok_map on_ok_assoc
        Let_def fun_upd_twist split: prod.splits intro!: on_ok_cong_Inr)
next
  case (Mem_port alloc ready arg)
  with assms show ?thesis
    by (auto simp: heap_create_active_data_socket_def put_member_def on_ok_map on_ok_assoc
        Let_def fun_upd_twist split: prod.splits intro!: on_ok_cong_Inr)
next
  case Mem_transfer
  with assms show ?thesis
    by (auto simp: heap_end_transfer_def put_member_def on_ok_map on_ok_assoc
        Let_def fun_upd_twist split: prod.splits intro!: on_ok_cong_Inr)
qed

text \<open>
  A member put aside is part of the rest, and the rest stays: so the text behind a member that an
  event does not touch stays.
\<close>

lemma own_put_aside:
  assumes "own m h R" "m mb = Ptr a i"
  shows "\<exists>R'. own (m(mb := NULL)) h R' \<and> R' a = blocks h a"
proof -
  obtain F where o: "owns h m F" "others h F = R" using assms(1) by (auto simp: own_def)
  have "holds h mb (Ptr a i) (F mb)" using ownsD(2) [OF o(1), of mb] assms(2) by simp
  then have a: "a \<in> F mb" by (cases mb) (auto simp: holds_def)
  have "owns h (m(mb := NULL)) (F(mb := {}))"
    using o(1) ownsD(1) [OF o(1)] by (intro owns_change) auto
  moreover have "a \<notin> (F(mb := {})) x" for x
    using a ownsD(3) [OF o(1), of x mb] by (cases "x = mb") auto
  then have "others h (F(mb := {})) a = blocks h a"
    by (simp add: others_def restrict_map_def del: fun_upd_apply)
  ultimately show ?thesis by (auto simp: own_def)
qed

lemma untouched_text:
  assumes o: "own m h R" and mb: "mb = User \<or> mb = Working_directory" "mb \<noteq> touched e"
    and e: "heap_event root e (l, m, h) = Inr (l', m', h')"
  shows "text_of h' (m' mb) = text_of h (m mb)"
proof -
  have put: "heap_event root e (l, m(mb := q), h) = Inr (l', m'(mb := q), h')" for q
    using heap_event_untouched [OF mb(2), of root q l m h] e by (simp add: put_member_def)
  have "m(mb := m mb) = m" by simp
  with put [of "m mb"] e have "m' = m'(mb := m mb)" by simp
  then have same: "m' mb = m mb" by (metis fun_upd_same)
  show ?thesis
  proof (cases "m mb")
    case NULL
    with same show ?thesis by simp
  next
    case (Ptr a i)
    obtain F where "owns h m F" using o by (auto simp: own_def)
    with mb(1) Ptr obtain s where s: "i = 0" "blocks h a = Some (Text_block s)"
      using ownsD(2) [of h m F mb] by (auto simp: holds_def)
    obtain R1 where R1: "own (m(mb := NULL)) h R1" "R1 a = Some (Text_block s)"
      using own_put_aside [OF o Ptr] s(2) by auto
    from heap_event_goes_on [OF R1(1), of root e l] put [of NULL]
    obtain R2 where R2: "own (m'(mb := NULL)) h' R2" "R1 \<subseteq>\<^sub>m R2"
      by (auto simp: goes_on.simps(2))
    have "R2 a = Some (Text_block s)" using R2(2) R1(2) by (metis map_le_def domI)
    then have "blocks h' a = Some (Text_block s)" by (rule own_rest [OF R2(1)])
    with same Ptr s show ?thesis by (simp add: text_of_at)
  qed
qed

section \<open>The texts events write\<close>

lemma user_text:
  assumes "heap_user_command False cmd m h = Inr (m', h')"
  shows "text_of h' (m' User) = (if argc cmd = 0 then None else argv0 cmd)"
  using assms
  by (auto simp: heap_user_command_def strdup_def malloc_def on_ok_Inr text_of_at
      split: option.splits if_splits)

lemma replace_text:
  assumes "heap_replace_directory d m h = Inr (m', h')"
  shows "text_of h' (m' Working_directory) = d"
  using assms
  by (cases d)
    (auto simp: heap_replace_directory_def heap_getcwd_def strdup_def malloc_def on_ok_Inr text_of_at)

lemma change_dir_text:
  assumes "heap_change_dir root (Some wd) d m h = Inr (m', h')"
  shows "text_of h' (m' Working_directory) =
    (if strncmp wd root (length root) \<noteq> 0 then d else Some wd)"
proof -
  from assms obtain m1 h1 where 1: "heap_replace_directory (Some wd) m h = Inr (m1, h1)"
    "heap_check_new_path root d m1 h1 = Inr (m', h')"
    by (auto simp: heap_change_dir_def on_ok_Inr)
  have t: "text_of h1 (m1 Working_directory) = Some wd" by (rule replace_text [OF 1(1)])
  then have "load_text (m1 Working_directory) h1 = Inr wd" by (auto simp: text_of_def split: sum.splits)
  with 1(2) t show ?thesis
    by (auto simp: heap_check_new_path_def replace_text split: if_splits)
qed

lemma pass_text:
  assumes o: "own m h R" and u: "text_of h (m User) = Some u"
    and e: "heap_pass_command False cmd m h = Inr (l', m', h')"
  shows "l' = ((strcmp u ''Anonymous'' = 0 \<or> strcmp u ''anonymous'' = 0) \<and>
      strcmp (get_password cmd) '''' = 0) \<and>
    text_of h' (m' User) = (if l' then Some u else None)"
proof -
  have nn: "m User \<noteq> NULL" using u by auto
  obtain F where F: "owns h m F" using o by (auto simp: own_def)
  with nn obtain a s where a: "m User = Ptr a 0" "blocks h a = Some (Text_block s)"
    using ownsD(2) [of h m F User] by (cases "m User") (auto simp: holds_def)
  with u have s: "blocks h a = Some (Text_block u)" by (simp add: text_of_at)
  have "a \<noteq> next_block h" using heap_ok_live [OF ownsD(1) [OF F] a(2)] by simp
  then show ?thesis
    using e a(1) s
    by (auto simp: heap_pass_command_def heap_process_login_def strdup_def malloc_def load_text_def
        block_of_def text_of_at split: if_splits)
qed

section \<open>What the events do to a connection\<close>

lemma event_user:
  assumes o: "own m h R" and c: "mirrors c (l, m, h)" and "\<not> logged_in c"
    and a: "argc cmd = 0 \<or> argv0 cmd \<noteq> None"
  shows "\<exists>s. heap_event root (Mem_user cmd) (l, m, h) = Inr s \<and>
    mirrors (c\<lparr>user := (if argc cmd = 0 then None else argv0 cmd)\<rparr>) s"
proof -
  have l: "\<not> l" using c assms(3) by (simp add: mirrors_def)
  obtain m' h' where e: "heap_user_command l cmd m h = Inr (m', h')" "same_ends m m'"
    using own_user [OF o a, of l] by blast
  then have ev: "heap_event root (Mem_user cmd) (l, m, h) = Inr (l, m', h')" by simp
  have "text_of h' (m' Working_directory) = text_of h (m Working_directory)"
    by (rule untouched_text [OF o _ _ ev]) simp_all
  with c e l user_text [of cmd m h m' h'] show ?thesis
    by (simp add: mirrors_def same_ends_def)
qed

lemma event_pass:
  assumes o: "own m h R" and c: "mirrors c (l, m, h)" and "\<not> logged_in c" and u: "user c = Some u"
  shows "\<exists>s. heap_event root (Mem_pass cmd) (l, m, h) = Inr s \<and>
    mirrors (if (strcmp u ''Anonymous'' = 0 \<or> strcmp u ''anonymous'' = 0) \<and>
                strcmp (get_password cmd) '''' = 0
             then c\<lparr>logged_in := True\<rparr> else c\<lparr>user := None\<rparr>) s"
proof -
  have l: "\<not> l" "text_of h (m User) = Some u" using c assms(3) u by (simp_all add: mirrors_def)
  obtain l' m' h' where e: "heap_pass_command l cmd m h = Inr (l', m', h')" "same_ends m m'"
    using own_pass [OF o, of l cmd] by blast
  then have ev: "heap_event root (Mem_pass cmd) (l, m, h) = Inr (l', m', h')" by simp
  have "text_of h' (m' Working_directory) = text_of h (m Working_directory)"
    by (rule untouched_text [OF o _ _ ev]) simp_all
  with c e l u assms(3) pass_text [OF o l(2), of cmd l' m' h'] ev show ?thesis
    by (auto simp: mirrors_def same_ends_def)
qed

lemma event_cwd:
  assumes o: "own m h R" and c: "mirrors c (l, m, h)"
  shows "\<exists>s. heap_event root (Mem_cwd (Some wd) d) (l, m, h) = Inr s \<and>
    mirrors (c\<lparr>working_directory := (if strncmp wd root (length root) \<noteq> 0 then d else Some wd)\<rparr>) s"
proof -
  obtain m' h' where e: "heap_change_dir root (Some wd) d m h = Inr (m', h')" "same_ends m m'"
    using own_change_dir [OF o, of "Some wd" root d] by auto
  then have ev: "heap_event root (Mem_cwd (Some wd) d) (l, m, h) = Inr (l, m', h')" by simp
  have "text_of h' (m' User) = text_of h (m User)"
    by (rule untouched_text [OF o _ _ ev]) simp_all
  with c e(2) ev change_dir_text [OF e(1)] show ?thesis
    by (simp add: mirrors_def same_ends_def)
qed

text \<open>The three that touch the data socket.\<close>

lemma socket_event:
  assumes o: "own m h R" and c: "mirrors c (l, m, h)"
    and e: "heap_event root e (l, m, h) = Inr (l, m', h')" "touched e = Data_socket_member"
    and ds: "m' Data_socket_member = NULL \<longleftrightarrow> ds = None"
  shows "mirrors (c\<lparr>data_socket := ds\<rparr>) (l, m', h')"
  using c ds untouched_text [OF o _ _ e(1)] e(2) by (auto simp: mirrors_def)

lemma event_transfer:
  assumes o: "own m h R" and c: "mirrors c (l, m, h)"
  shows "\<exists>s. heap_event root Mem_transfer (l, m, h) = Inr s \<and> mirrors (c\<lparr>data_socket := None\<rparr>) s"
proof -
  obtain h' where ev: "heap_event root Mem_transfer (l, m, h) = Inr (l, m(Data_socket_member := NULL), h')"
    using own_transfer [OF o] by auto
  from socket_event [OF o c ev] ev show ?thesis by simp
qed

lemma event_pasv:
  assumes o: "own m h R" and c: "mirrors c (l, m, h)"
    and ds: "ds \<noteq> None \<Longrightarrow> alloc Alloc_data_socket \<and> alloc Alloc_ports"
  shows "\<exists>s. heap_event root (Mem_pasv alloc (ds \<noteq> None)) (l, m, h) = Inr s \<and>
    mirrors (c\<lparr>data_socket := ds\<rparr>) s"
proof -
  obtain R' where R': "own (m(Data_socket_member := NULL)) h R'"
    using own_socket_forgotten [OF o] by blast
  have "\<exists>m' h'. heap_create_passive_data_socket alloc (ds \<noteq> None) m h = Inr (m', h') \<and>
    (m' Data_socket_member = NULL \<longleftrightarrow> ds = None)"
  proof (cases "whole_pasv alloc (ds \<noteq> None)")
    case True
    with own_pasv [OF R', of alloc "ds \<noteq> None"] ds show ?thesis
      by (cases ds) (auto simp: whole_pasv_def split: sum.splits)
  next
    case False
    with ds have "ds = None" by (cases ds) (auto simp: whole_pasv_def)
    then show ?thesis
      by (simp add: heap_create_passive_data_socket_def heap_setup_passive_data_socket_def
          case_prod_beta Let_def)
  qed
  then obtain m' h' where ev: "heap_event root (Mem_pasv alloc (ds \<noteq> None)) (l, m, h) = Inr (l, m', h')"
    and ds: "m' Data_socket_member = NULL \<longleftrightarrow> ds = None" by auto
  from socket_event [OF o c ev _ ds] ev show ?thesis by simp
qed

lemma event_port:
  assumes o: "own m h R" and c: "mirrors c (l, m, h)"
    and made: "alloc Alloc_host_port" "parse_host_port_values arg \<noteq> None"
    and w: "whole_port alloc ready \<longleftrightarrow> ds \<noteq> None"
  shows "\<exists>s. heap_event root (Mem_port alloc ready arg) (l, m, h) = Inr s \<and>
    mirrors (c\<lparr>data_socket := ds\<rparr>) s"
proof -
  obtain p h1 where 1: "malloc Raw_block h = (p, h1)" by fastforce
  obtain n where n: "p = Ptr n 0" "R n = None" "own m h1 (R(n \<mapsto> Raw_block))"
    using own_malloc [OF o 1] by blast
  obtain R1 where R1: "own (m(Data_socket_member := NULL)) h1 R1" "R(n \<mapsto> Raw_block) \<subseteq>\<^sub>m R1"
    using own_socket_forgotten [OF n(3)] by blast
  obtain q h2 where q: "heap_setup_active_data_socket alloc ready h1 = Inr (q, h2)"
    "q = NULL \<longleftrightarrow> \<not> whole_port alloc ready"
    using own_setup_active [OF R1(1), of alloc ready] by auto
  obtain m' h' where m': "heap_create_active_data_socket alloc ready arg m h = Inr (m', h')"
    using own_port [OF o, of alloc ready arg] by blast
  then have "m' Data_socket_member = q"
    using 1 q(1) made
    by (auto simp: heap_create_active_data_socket_def on_ok_Inr Let_def split: if_splits)
  with q(2) w have ds: "m' Data_socket_member = NULL \<longleftrightarrow> ds = None" by simp
  have ev: "heap_event root (Mem_port alloc ready arg) (l, m, h) = Inr (l, m', h')" using m' by simp
  from socket_event [OF o c ev _ ds] ev show ?thesis by simp
qed

lemma event_bad_port:
  assumes o: "own m h R" and c: "mirrors c (l, m, h)"
    and bad: "\<not> alloc Alloc_host_port \<or> parse_host_port_values arg = None"
  shows "\<exists>s. heap_event root (Mem_port alloc ready arg) (l, m, h) = Inr s \<and> mirrors c s"
proof -
  obtain m' h' where m': "heap_create_active_data_socket alloc ready arg m h = Inr (m', h')"
    using own_port [OF o, of alloc ready arg] by blast
  then have "m' = m"
    using bad by (auto simp: heap_create_active_data_socket_def on_ok_Inr Let_def case_prod_beta
        split: if_splits)
  then have ds: "m' Data_socket_member = NULL \<longleftrightarrow> data_socket c = None"
    using c by (simp add: mirrors_def)
  have ev: "heap_event root (Mem_port alloc ready arg) (l, m, h) = Inr (l, m', h')" using m' by simp
  from socket_event [OF o c ev _ ds] ev show ?thesis by simp
qed

section \<open>What each command does to the memory\<close>

text \<open>
  The calls of the memory functions a handler makes on a connection, with their arguments: what
  \<open>getcwd\<close> gives in CWD and CDUP, which calls of \<open>malloc\<close> succeed in PASV and PORT and whether the
  socket could be made, and whether a transfer gets as far as \<open>execute_data_socket_command\<close>.
\<close>

type_synonym tracker = "command_t \<Rightarrow> connection_t \<Rightarrow> world \<Rightarrow> memory_event list"

definition user_events :: tracker where
  "user_events cmd c w = [Mem_user cmd]"

definition pass_events :: tracker where
  "pass_events cmd c w = [Mem_pass cmd]"

definition move_events :: "connection_t \<Rightarrow> string \<Rightarrow> world \<Rightarrow> memory_event list" where
  "move_events c path w =
     (if fs_access (fsys w) (cwd w) path \<and> fs_opendir (fsys w) (cwd w) path
      then [Mem_cwd (getcwd (cwd_target c path w))
              (getcwd (snd (chdir (srv_path (server c)) (cwd_target c path w))))]
      else [])"

definition cwd_events :: tracker where
  "cwd_events cmd c w =
     (case argv0 cmd of
        Some path \<Rightarrow> if logged_in c \<and> argc cmd = 1 then move_events c path w else []
      | None \<Rightarrow> [])"

definition cdup_events :: tracker where
  "cdup_events cmd c w = (if logged_in c then move_events c ''..'' w else [])"

definition pasv_alloc :: "os \<Rightarrow> world \<Rightarrow> alloc_site \<Rightarrow> bool" where
  "pasv_alloc os w s =
     (case setup_passive_data_socket os w of
        (Some ds, w1) \<Rightarrow>
          os_malloc os (if s = Alloc_ports then printf (log_passive_created (ds_port ds)) w1 else w) s
      | (None, w1) \<Rightarrow> os_malloc os w s)"

definition pasv_events :: "os \<Rightarrow> tracker" where
  "pasv_events os cmd c w =
     (if logged_in c
      then [Mem_pasv (pasv_alloc os w) (fst (setup_passive_data_socket os w) \<noteq> None)] else [])"

definition port_alloc :: "os \<Rightarrow> world \<Rightarrow> alloc_site \<Rightarrow> bool" where
  "port_alloc os w s =
     os_malloc os (if s = Alloc_address then snd (init_active_data_socket os w) else w) s"

definition port_events :: "os \<Rightarrow> tracker" where
  "port_events os cmd c w =
     (case argv0 cmd of
        Some arg \<Rightarrow>
          if logged_in c \<and> argc cmd = 1
          then [Mem_port (port_alloc os w) (fst (init_active_data_socket os w) \<noteq> None) arg] else []
      | None \<Rightarrow> [])"

definition list_events :: tracker where
  "list_events cmd c w =
     (if logged_in c \<and> data_socket c \<noteq> None
      then (case list_check c cmd w of Inr (False, w1) \<Rightarrow> [Mem_transfer] | _ \<Rightarrow> []) else [])"

definition retr_events :: tracker where
  "retr_events cmd c w =
     (case argv0 cmd of
        Some path \<Rightarrow>
          if logged_in c \<and> data_socket c \<noteq> None \<and> argc cmd = 1 \<and> fst (check_file_exists c path w) \<noteq> -1
          then [Mem_transfer] else []
      | None \<Rightarrow> [])"

definition stor_events :: tracker where
  "stor_events cmd c w =
     (if logged_in c \<and> data_socket c \<noteq> None \<and> argc cmd = 1 then [Mem_transfer] else [])"

text \<open>The commands that are not in this table keep the members as they are.\<close>

definition memory_table :: "os \<Rightarrow> (string \<times> tracker) list" where
  "memory_table os =
     [(''USER'', user_events), (''PASS'', pass_events), (''CWD'', cwd_events),
      (''CDUP'', cdup_events), (''PASV'', pasv_events os), (''PORT'', port_events os),
      (''RETR'', retr_events), (''STOR'', stor_events), (''LIST'', list_events)]"

definition events_of :: "os \<Rightarrow> string \<Rightarrow> tracker" where
  "events_of os nm =
     (case map_of (memory_table os) nm of None \<Rightarrow> (\<lambda>cmd c w. []) | Some e \<Rightarrow> e)"

definition command_events :: "os \<Rightarrow> command_t option \<Rightarrow> connection_t \<Rightarrow> world \<Rightarrow> memory_event list" where
  "command_events os cmd c w =
     (case cmd of
        None \<Rightarrow> []
      | Some k \<Rightarrow>
          let k = k\<lparr>name := touppercase (name k)\<rparr> in events_of os (c_str (name k)) k c w)"

fun session_events :: "os \<Rightarrow> command_t option list \<Rightarrow> connection_t \<Rightarrow> world \<Rightarrow> memory_event list" where
  "session_events os [] c w = []"
| "session_events os (cmd # cmds) c w =
     command_events os cmd c w @
     (case execute_command os cmd c w of
        Inl e \<Rightarrow> []
      | Inr (st, c1, w1) \<Rightarrow> if st = COMMAND_QUIT then [] else session_events os cmds c1 w1)"

section \<open>The handlers\<close>

text \<open>
  A handler whose work on the members is the list of events given for it.  An error of a handler (a
  NULL it follows) ends the server, so that only its results are of interest here.
\<close>

locale memory_handler =
  fixes handle :: handler and events :: tracker
  assumes tracked: "args_match cmd \<Longrightarrow> handle cmd c w = Inr (st, c', w') \<Longrightarrow> own m h R \<Longrightarrow>
    mirrors c (l, m, h) \<Longrightarrow>
    \<exists>s. heap_events (srv_path (server c)) (events cmd c w) (l, m, h) = Inr s \<and> mirrors c' s"

lemma one_event:
  assumes "\<exists>s. heap_event root e (l, m, h) = Inr s \<and> mirrors c' s"
  shows "\<exists>s. heap_events root [e] (l, m, h) = Inr s \<and> mirrors c' s"
  using assms by auto

lemma memory_handler_unchanged:
  assumes "\<And>cmd c w st c' w'. handle cmd c w = Inr (st, c', w') \<Longrightarrow>
    logged_in c' = logged_in c \<and> user c' = user c \<and> working_directory c' = working_directory c \<and>
    data_socket c' = data_socket c"
  shows "memory_handler handle (\<lambda>cmd c w. [])"
  by unfold_locales (use assms in \<open>fastforce simp: mirrors_def\<close>)

interpretation quit_memory: memory_handler quit_command "\<lambda>cmd c w. []"
  by (rule memory_handler_unchanged) (auto simp: quit_command_def)

interpretation noop_memory: memory_handler noop_command "\<lambda>cmd c w. []"
  by (rule memory_handler_unchanged) (auto simp: noop_command_def split: if_splits)

interpretation help_memory: memory_handler help_command "\<lambda>cmd c w. []"
  by (rule memory_handler_unchanged) (auto simp: help_command_def Let_def split: if_splits)

interpretation pwd_memory: memory_handler pwd_command "\<lambda>cmd c w. []"
  by (rule memory_handler_unchanged) (auto simp: pwd_command_def split: if_splits)

interpretation type_memory: memory_handler type_command "\<lambda>cmd c w. []"
  by (rule memory_handler_unchanged)
    (auto simp: type_command_def change_type_def Let_def split: if_splits option.splits)

interpretation dele_memory: memory_handler dele_command "\<lambda>cmd c w. []"
  by (rule memory_handler_unchanged)
    (auto simp: dele_command_def delete_file_cases Let_def split: if_splits option.splits)

interpretation user_memory: memory_handler user_command user_events
proof
  fix cmd c w st c' w' m h R l
  assume a: "args_match cmd" and r: "user_command cmd c w = Inr (st, c', w')"
    and o: "own m h R" "mirrors c (l, m, h)"
  have "\<exists>s. heap_event (srv_path (server c)) (Mem_user cmd) (l, m, h) = Inr s \<and> mirrors c' s"
  proof (cases "logged_in c")
    case True
    with r o(2) show ?thesis by (auto simp: user_command_def heap_user_command_def mirrors_def)
  next
    case False
    have n: "argc cmd = 0 \<or> argv0 cmd \<noteq> None" using args_match_None [OF a] by blast
    have "c' = c\<lparr>user := (if argc cmd = 0 then None else argv0 cmd)\<rparr>"
      using r False by (auto simp: user_command_def Let_def split: if_splits)
    then show ?thesis by (simp only: event_user [OF o False n])
  qed
  then show "\<exists>s. heap_events (srv_path (server c)) (user_events cmd c w) (l, m, h) = Inr s \<and> mirrors c' s"
    unfolding user_events_def by (rule one_event)
qed

interpretation pass_memory: memory_handler pass_command pass_events
proof
  fix cmd c w st c' w' m h R l
  assume r: "pass_command cmd c w = Inr (st, c', w')" and o: "own m h R" "mirrors c (l, m, h)"
  have "\<exists>s. heap_event (srv_path (server c)) (Mem_pass cmd) (l, m, h) = Inr s \<and> mirrors c' s"
  proof (cases "logged_in c \<or> user c = None")
    case True
    with r have "c' = c" by (auto simp: pass_command_cases split: if_splits option.splits)
    moreover have "l \<or> m User = NULL"
      using True o(2) own_text [OF o(1), of User] by (auto simp: mirrors_def)
    ultimately show ?thesis using o(2) by (auto simp: heap_pass_command_def)
  next
    case False
    then obtain u where u: "user c = Some u" "\<not> logged_in c" by blast
    with r have "c' = (if (strcmp u ''Anonymous'' = 0 \<or> strcmp u ''anonymous'' = 0) \<and>
        strcmp (get_password cmd) '''' = 0 then c\<lparr>logged_in := True\<rparr> else c\<lparr>user := None\<rparr>)"
      by (auto simp: pass_command_cases split: if_splits)
    then show ?thesis by (simp only: event_pass [OF o u(2,1)])
  qed
  then show "\<exists>s. heap_events (srv_path (server c)) (pass_events cmd c w) (l, m, h) = Inr s \<and> mirrors c' s"
    unfolding pass_events_def by (rule one_event)
qed

lemma change_dir_tracked:
  assumes r: "change_dir c path w = Inr (st, c', w')" and o: "own m h R" "mirrors c (l, m, h)"
  shows "\<exists>s. heap_events (srv_path (server c)) (move_events c path w) (l, m, h) = Inr s \<and> mirrors c' s"
proof (cases "fs_access (fsys w) (cwd w) path \<and> fs_opendir (fsys w) (cwd w) path")
  case False
  with r o(2) show ?thesis by (auto simp: change_dir_cases move_events_def split: if_splits)
next
  case True
  let ?root = "srv_path (server c)"
  obtain wd where wd: "getcwd (cwd_target c path w) = Some wd"
    using r True by (auto simp: change_dir_cases Let_def split: option.splits)
  define d where "d = getcwd (snd (chdir ?root (cwd_target c path w)))"
  have "c' = c\<lparr>working_directory := (if strncmp wd ?root (length ?root) \<noteq> 0 then d else Some wd)\<rparr>"
    using r True wd by (auto simp: change_dir_cases Let_def d_def)
  moreover have "move_events c path w = [Mem_cwd (Some wd) d]"
    using True wd by (simp add: move_events_def d_def)
  ultimately show ?thesis by (simp only: one_event [OF event_cwd [OF o]])
qed

interpretation cwd_memory: memory_handler cwd_command cwd_events
proof
  fix cmd c w st c' w' m h R l
  assume "cwd_command cmd c w = Inr (st, c', w')" and o: "own m h R" "mirrors c (l, m, h)"
  then show "\<exists>s. heap_events (srv_path (server c)) (cwd_events cmd c w) (l, m, h) = Inr s \<and> mirrors c' s"
    by (auto simp: cwd_command_def cwd_events_def simp del: split_paired_Ex split: if_splits option.splits
        intro: change_dir_tracked [OF _ o])
qed

interpretation cdup_memory: memory_handler cdup_command cdup_events
proof
  fix cmd c w st c' w' m h R l
  assume "cdup_command cmd c w = Inr (st, c', w')" and o: "own m h R" "mirrors c (l, m, h)"
  then show "\<exists>s. heap_events (srv_path (server c)) (cdup_events cmd c w) (l, m, h) = Inr s \<and> mirrors c' s"
    by (auto simp: cdup_command_def cdup_events_def simp del: split_paired_Ex split: if_splits option.splits
        intro: change_dir_tracked [OF _ o])
qed

interpretation pasv_memory: memory_handler "pasv_command os" "pasv_events os" for os
proof
  fix cmd c w st c' w' m h R l
  assume r: "pasv_command os cmd c w = Inr (st, c', w')" and o: "own m h R" "mirrors c (l, m, h)"
  show "\<exists>s. heap_events (srv_path (server c)) (pasv_events os cmd c w) (l, m, h) = Inr s \<and> mirrors c' s"
  proof (cases "logged_in c")
    case False
    with r o(2) show ?thesis by (auto simp: pasv_command_def pasv_events_def)
  next
    case True
    obtain ds w1 where s: "setup_passive_data_socket os w = (ds, w1)" by fastforce
    from r True s have "c' = c\<lparr>data_socket := ds\<rparr>"
      by (auto simp: pasv_command_def create_passive_data_socket_def Let_def split: option.splits)
    moreover have "pasv_alloc os w Alloc_data_socket \<and> pasv_alloc os w Alloc_ports" if "ds \<noteq> None"
      using that r True s
      by (auto simp: pasv_command_def create_passive_data_socket_def pasv_alloc_def split_port_def
          setup_passive_data_socket_def init_passive_data_socket_def Let_def case_prod_beta
          split: option.splits if_splits)
    ultimately show ?thesis
      using one_event [OF event_pasv [OF o]] True s by (simp add: pasv_events_def)
  qed
qed

lemma setup_active_made:
  "fst (setup_active_data_socket os hp w) \<noteq> None \<longleftrightarrow>
     whole_port (port_alloc os w) (fst (init_active_data_socket os w) \<noteq> None)"
  by (auto simp: setup_active_data_socket_def init_active_data_socket_def whole_port_def
      port_alloc_def Let_def case_prod_beta split: option.splits if_splits)

interpretation port_memory: memory_handler "port_command os" "port_events os" for os
proof
  fix cmd c w st c' w' m h R l
  assume r: "port_command os cmd c w = Inr (st, c', w')" and o: "own m h R" "mirrors c (l, m, h)"
  show "\<exists>s. heap_events (srv_path (server c)) (port_events os cmd c w) (l, m, h) = Inr s \<and> mirrors c' s"
  proof (cases "logged_in c \<and> argc cmd = 1")
    case False
    with r o(2) show ?thesis
      by (auto simp: port_command_def port_events_def split: if_splits option.splits)
  next
    case True
    with r obtain arg where arg: "argv0 cmd = Some arg"
      by (auto simp: port_command_def create_active_data_socket_def split: option.splits)
    let ?ready = "fst (init_active_data_socket os w) \<noteq> None"
    have es: "port_events os cmd c w = [Mem_port (port_alloc os w) ?ready arg]"
      using True arg by (simp add: port_events_def)
    have hp: "port_alloc os w Alloc_host_port = os_malloc os w Alloc_host_port"
      by (simp add: port_alloc_def)
    show ?thesis
    proof (cases "get_host_port (os_malloc os w Alloc_host_port) arg")
      case None
      then have "c' = c" "\<not> port_alloc os w Alloc_host_port \<or> parse_host_port_values arg = None"
        using r True arg hp
        by (auto simp: port_command_def create_active_data_socket_def get_host_port_def split: if_splits)
      then show ?thesis using one_event [OF event_bad_port [OF o]] es by simp
    next
      case (Some host_port)
      then have "port_alloc os w Alloc_host_port" "parse_host_port_values arg \<noteq> None"
        "c' = c\<lparr>data_socket := fst (setup_active_data_socket os host_port w)\<rparr>"
        using r True arg hp
        by (auto simp: port_command_def create_active_data_socket_def get_host_port_def Let_def
            case_prod_beta split: if_splits option.splits)
      then show ?thesis
        using one_event [OF event_port [OF o _ _ setup_active_made [symmetric]]] es by simp
    qed
  qed
qed

text \<open>The three transfers lose the data socket or do nothing.\<close>

lemma transfer_tracked:
  assumes "execute_data_socket_command os c e cmd w1 = Inr (st, c', w')"
    and o: "own m h R" "mirrors c (l, m, h)"
  shows "\<exists>s. heap_events root [Mem_transfer] (l, m, h) = Inr s \<and> mirrors c' s"
proof -
  have "logged_in c' = logged_in c \<and> user c' = user c \<and> data_socket c' = None \<and>
      working_directory c' = working_directory c"
    using execute_data_socket_contract [OF assms(1)] by blast
  then have "mirrors c' s" if "mirrors (c\<lparr>data_socket := None\<rparr>) s" for s
    using that by (simp add: mirrors_def split: prod.splits)
  with event_transfer [OF o, of root] show ?thesis by (intro one_event) blast
qed

interpretation list_memory: memory_handler "list_command os" list_events for os
proof
  fix cmd c w st c' w' m h R l
  assume "list_command os cmd c w = Inr (st, c', w')" and o: "own m h R" "mirrors c (l, m, h)"
  then show "\<exists>s. heap_events (srv_path (server c)) (list_events cmd c w) (l, m, h) = Inr s \<and> mirrors c' s"
    by (auto simp: list_command_def list_events_def simp del: heap_events.simps(2) split_paired_Ex
        split: if_splits sum.splits bool.splits intro: transfer_tracked [OF _ o])
qed

interpretation retr_memory: memory_handler "retr_command os" retr_events for os
proof
  fix cmd c w st c' w' m h R l
  assume "retr_command os cmd c w = Inr (st, c', w')" and o: "own m h R" "mirrors c (l, m, h)"
  then show "\<exists>s. heap_events (srv_path (server c)) (retr_events cmd c w) (l, m, h) = Inr s \<and> mirrors c' s"
    by (auto simp: retr_command_def retr_events_def Let_def case_prod_beta simp del: heap_events.simps(2) split_paired_Ex
        split: if_splits option.splits intro: transfer_tracked [OF _ o])
qed

interpretation stor_memory: memory_handler "stor_command os" stor_events for os
proof
  fix cmd c w st c' w' m h R l
  assume "stor_command os cmd c w = Inr (st, c', w')" and o: "own m h R" "mirrors c (l, m, h)"
  then show "\<exists>s. heap_events (srv_path (server c)) (stor_events cmd c w) (l, m, h) = Inr s \<and> mirrors c' s"
    by (auto simp: stor_command_def stor_events_def simp del: heap_events.simps(2) split_paired_Ex
        split: if_splits intro: transfer_tracked [OF _ o])
qed

section \<open>Sessions\<close>

lemma events_of_name:
  "events_of os ''USER'' = user_events" "events_of os ''PASS'' = pass_events"
  "events_of os ''CWD'' = cwd_events" "events_of os ''CDUP'' = cdup_events"
  "events_of os ''PASV'' = pasv_events os" "events_of os ''PORT'' = port_events os"
  "events_of os ''RETR'' = retr_events" "events_of os ''STOR'' = stor_events"
  "events_of os ''LIST'' = list_events"
  "events_of os ''QUIT'' = (\<lambda>cmd c w. [])" "events_of os ''DELE'' = (\<lambda>cmd c w. [])"
  "events_of os ''PWD'' = (\<lambda>cmd c w. [])" "events_of os ''HELP'' = (\<lambda>cmd c w. [])"
  "events_of os ''NOOP'' = (\<lambda>cmd c w. [])" "events_of os ''TYPE'' = (\<lambda>cmd c w. [])"
  by (simp_all add: events_of_def memory_table_def)

lemma command_handlers_tracked:
  "list_all (\<lambda>(n, handle). NUL \<notin> set n \<and> memory_handler handle (events_of os n)) (command_handlers os)"
  by (simp add: command_handlers_def events_of_name c_str_def user_memory.memory_handler_axioms
      pass_memory.memory_handler_axioms cwd_memory.memory_handler_axioms
      cdup_memory.memory_handler_axioms quit_memory.memory_handler_axioms
      dele_memory.memory_handler_axioms pwd_memory.memory_handler_axioms
      pasv_memory.memory_handler_axioms port_memory.memory_handler_axioms
      help_memory.memory_handler_axioms noop_memory.memory_handler_axioms
      retr_memory.memory_handler_axioms stor_memory.memory_handler_axioms
      list_memory.memory_handler_axioms type_memory.memory_handler_axioms)

definition commands_match :: "command_t option list \<Rightarrow> bool" where
  "commands_match cmds \<longleftrightarrow> list_all (\<lambda>cmd. case cmd of None \<Rightarrow> True | Some k \<Rightarrow> args_match k) cmds"

lemma find_handler_None: "find_handler hs nm = None \<Longrightarrow> (n, h) \<in> set hs \<Longrightarrow> strcmp n nm \<noteq> 0"
  by (induction hs nm rule: find_handler.induct) (auto split: if_splits)

lemma strcmp_c_str: "NUL \<notin> set a \<Longrightarrow> strcmp a b = 0 \<longleftrightarrow> a = c_str b"
  by (induction a b rule: strcmp.induct) (auto simp: c_str_def)

lemma no_handler_no_events:
  assumes "find_handler (command_handlers os) nm = None"
  shows "events_of os (c_str nm) = (\<lambda>cmd c w. [])"
proof (cases "map_of (memory_table os) (c_str nm)")
  case None
  then show ?thesis by (simp add: events_of_def)
next
  case (Some e)
  then have "c_str nm \<in> fst ` set (memory_table os)" by (metis map_of_eq_None_iff option.distinct(1))
  moreover have "fst ` set (memory_table os) \<subseteq> fst ` set (command_handlers os)"
    by (simp add: memory_table_def command_handlers_def)
  ultimately obtain handle where h: "(c_str nm, handle) \<in> set (command_handlers os)" by force
  then have "NUL \<notin> set (c_str nm)"
    using command_handlers_tracked [of os] by (auto simp: list_all_iff)
  with find_handler_None [OF assms h] show ?thesis by (simp add: strcmp_c_str)
qed

lemma execute_command_tracked:
  assumes r: "execute_command os cmd c w = Inr (st, c', w')"
    and a: "\<And>k. cmd = Some k \<Longrightarrow> args_match k" and o: "own m h R" "mirrors c (l, m, h)"
  shows "\<exists>s. heap_events (srv_path (server c)) (command_events os cmd c w) (l, m, h) = Inr s \<and> mirrors c' s"
proof (cases cmd)
  case None
  with r o(2) show ?thesis by (simp add: execute_command_def command_events_def)
next
  case (Some k)
  let ?k = "k\<lparr>name := touppercase (name k)\<rparr>"
  have es: "command_events os cmd c w = events_of os (c_str (name ?k)) ?k c w"
    by (simp add: command_events_def Some)
  show ?thesis
  proof (cases "find_handler (command_handlers os) (name ?k)")
    case None
    with r Some o(2) es no_handler_no_events [OF None] show ?thesis
      by (simp add: execute_command_def get_command_handler_def)
  next
    case (Some handle)
    from find_handler_mem [OF Some] obtain n where n: "(n, handle) \<in> set (command_handlers os)"
      "strcmp n (name ?k) = 0" by blast
    then have "c_str (name ?k) = n" "memory_handler handle (events_of os n)"
      using command_handlers_tracked [of os] by (auto simp: list_all_iff strcmp_c_str)
    moreover have "args_match ?k" using a [OF \<open>cmd = Some k\<close>] by (simp add: args_match_def)
    moreover have "handle ?k c w = Inr (st, c', w')"
      using r Some \<open>cmd = Some k\<close> by (simp add: execute_command_def get_command_handler_def)
    ultimately show ?thesis using memory_handler.tracked o es by fastforce
  qed
qed

lemma heap_events_append:
  "heap_events root (es @ es') s = on_ok (heap_events root es s) (heap_events root es')"
proof (induction es arbitrary: s)
  case (Cons e es)
  then show ?case by (cases "heap_event root e s") simp_all
qed simp

lemma run_session_tracked:
  assumes "run_session os cmds c w = Inr (c', w')" "commands_match cmds"
    and "own m h R" "mirrors c (l, m, h)"
  shows "\<exists>s. heap_events (srv_path (server c)) (session_events os cmds c w) (l, m, h) = Inr s \<and> mirrors c' s"
  using assms
proof (induction cmds arbitrary: c w l m h R)
  case (Cons cmd cmds)
  from Cons.prems(1) obtain st c1 w1 where e: "execute_command os cmd c w = Inr (st, c1, w1)"
    by (auto split: sum.splits)
  have "\<And>k. cmd = Some k \<Longrightarrow> args_match k" using Cons.prems(2) by (simp add: commands_match_def)
  from execute_command_tracked [OF e this Cons.prems(3,4)] obtain s where
    es: "heap_events (srv_path (server c)) (command_events os cmd c w) (l, m, h) = Inr s" "mirrors c1 s"
    by blast
  show ?case
  proof (cases "st = COMMAND_QUIT")
    case True
    with Cons.prems(1) e have "c' = c1" by simp
    with es True e show ?thesis by simp
  next
    case False
    obtain l1 m1 h1 where s: "s = (l1, m1, h1)" by (cases s)
    obtain R1 where R1: "own m1 h1 R1"
      using heap_events_go_on [OF Cons.prems(3), of "srv_path (server c)" "command_events os cmd c w" l] es(1) s
      by (auto simp: goes_on.simps(2))
    have srv: "server c1 = server c" using execute_command_contract [OF e] by (simp add: same_peer_def)
    have "run_session os cmds c1 w1 = Inr (c', w')" using Cons.prems(1) e False by simp
    from Cons.IH [OF this _ R1, of l1] Cons.prems(2) es(2) s srv obtain s' where
      "heap_events (srv_path (server c)) (session_events os cmds c1 w1) s = Inr s'" "mirrors c' s'"
      by (auto simp: commands_match_def)
    with es(1) e False show ?thesis by (simp add: heap_events_append)
  qed
qed simp

lemma init_mirrors:
  assumes "init_connection os sv fd addr w0 = (c, w)" "os_fdopen os w0 fd"
    and "heap_init_connection alloc True (srv_path sv) h = (m, h0)"
  shows "mirrors c (False, m, h0)" "server c = sv"
proof -
  have "c = \<lparr>server = sv, client_sockfd = fd,
      client_addr = (if os_malloc os w0 Alloc_client_addr then Some addr else None),
      stream = Some \<lparr>fileno = fd, read_ahead = []\<rparr>, logged_in = False, user = None,
      working_directory = Some (srv_path sv), data_socket = None, transfer_mode = BINARY\<rparr>"
    using assms(1,2) by (auto simp: init_connection_def Let_def)
  then show "mirrors c (False, m, h0)" "server c = sv"
    using assms(3)
    by (auto simp: mirrors_def heap_init_connection_def no_pointers_def strdup_def malloc_def
        text_of_at split: if_splits)
qed

section \<open>Properties\<close>

text \<open>
  Property C17: the memory of a connection follows its session.  Whatever commands a client has
  carried out, the memory functions they call (\<open>session_events\<close>: command by command, with the
  directories, allocations and sockets the handler met), run from the memory of
  \<open>init_connection\<close>, end without a fault in pointers to exactly the user name and the directory
  the handlers have left in the connection, with a data socket exactly when it has one;
  \<open>destroy_connection\<close> then gives the memory back without touching a block that was live before,
  unless it prints an address that could not be allocated.
\<close>

theorem session_memory_follows:
  assumes "heap_ok h" "init_connection os sv fd addr w0 = (c, w)" "os_fdopen os w0 fd"
    and "heap_init_connection (os_malloc os w0) True (srv_path sv) h = (m, h0)"
    and "run_session os cmds c w = Inr (c', w')" "commands_match cmds"
  shows "\<exists>l m' h'.
    heap_events (srv_path sv) (session_events os cmds c w) (False, m, h0) = Inr (l, m', h') \<and>
    mirrors c' (l, m', h') \<and>
    (if verbose \<and> \<not> os_malloc os w0 Alloc_client_addr
     then heap_destroy_connection verbose m' h' = Inl Null_deref
     else \<exists>h''. heap_destroy_connection verbose m' h' = Inr h'' \<and> blocks h \<subseteq>\<^sub>m blocks h'')"
proof -
  let ?es = "session_events os cmds c w"
  note i = own_init_connection [OF assms(1,4)] and c = init_mirrors [OF assms(2-4)]
  obtain s where es: "heap_events (srv_path sv) ?es (False, m, h0) = Inr s" "mirrors c' s"
    using run_session_tracked [OF assms(5,6) i(1) c(1)] c(2) by blast
  obtain l m' h' where s: "s = (l, m', h')" by (cases s)
  from life_returned [OF assms(1,4), where root = "srv_path sv" and es = ?es and verbose = verbose] es(1) s
  have "if verbose \<and> \<not> os_malloc os w0 Alloc_client_addr
    then heap_destroy_connection verbose m' h' = Inl Null_deref
    else \<exists>h''. heap_destroy_connection verbose m' h' = Inr h'' \<and> blocks h \<subseteq>\<^sub>m blocks h''" by simp
  with es s show ?thesis by blast
qed

text \<open>An anonymous client logs in.\<close>

definition demo_session :: "command_t option list" where
  "demo_session =
     [Some (demo_command ''user'' [''anonymous'']), Some (demo_command ''PASS'' [])]"

definition demo_memory :: "pointers \<times> heap" where
  "demo_memory = heap_init_connection (os_malloc demo_os demo_world) True (srv_path demo_server) empty_heap"

lemma demo_init:
  "init_connection demo_os demo_server 4 \<lparr>sin_addr = INADDR_LOOPBACK, sin_port = 50000\<rparr> demo_world =
     (demo_conn, demo_world)"
  by (simp add: init_connection_def demo_os_def demo_conn_def demo_server_def)

lemma demo_session_events:
  "session_events demo_os demo_session demo_conn demo_world =
     [Mem_user (demo_command ''USER'' [''anonymous'']), Mem_pass (demo_command ''PASS'' [])]"
proof -
  have "touppercase ''user'' = ''USER''" "touppercase ''PASS'' = ''PASS''"
    "c_str ''USER'' = ''USER''" "c_str ''PASS'' = ''PASS''" by code_simp+
  then show ?thesis
    by (simp add: demo_session_def demo_login demo_password command_events_def events_of_name
        demo_command_def user_events_def pass_events_def
        demo_login [unfolded demo_command_def, simplified] demo_password [unfolded demo_command_def, simplified])
qed

theorem session_memory_follows_witness:
  "\<exists>w' l m' h'. run_session demo_os demo_session demo_conn demo_world = Inr (demo_user, w') \<and>
    heap_events (srv_path demo_server)
      [Mem_user (demo_command ''USER'' [''anonymous'']), Mem_pass (demo_command ''PASS'' [])]
      (False, fst demo_memory, snd demo_memory) = Inr (l, m', h') \<and>
    mirrors demo_user (l, m', h') \<and> (\<exists>h''. heap_destroy_connection True m' h' = Inr h'')"
proof -
  obtain w' where r: "run_session demo_os demo_session demo_conn demo_world = Inr (demo_user, w')"
    by (simp add: demo_session_def demo_login demo_password)
  have m: "commands_match demo_session"
    by (simp add: commands_match_def demo_session_def args_match_def demo_command_def)
  have f: "os_fdopen demo_os demo_world 4" "os_malloc demo_os demo_world Alloc_client_addr"
    by (simp_all add: demo_os_def)
  have h: "heap_init_connection (os_malloc demo_os demo_world) True (srv_path demo_server) empty_heap =
    (fst demo_memory, snd demo_memory)" by (simp add: demo_memory_def)
  from session_memory_follows [OF heap_ok_empty demo_init f(1) h r m, of True]
  have "\<exists>l m' h'. heap_events (srv_path demo_server)
      [Mem_user (demo_command ''USER'' [''anonymous'']), Mem_pass (demo_command ''PASS'' [])]
      (False, fst demo_memory, snd demo_memory) = Inr (l, m', h') \<and> mirrors demo_user (l, m', h') \<and>
    (\<exists>h''. heap_destroy_connection True m' h' = Inr h'' \<and> blocks empty_heap \<subseteq>\<^sub>m blocks h'')"
    by (simp only: f(2) simp_thms if_False demo_session_events)
  with r show ?thesis by blast
qed

end
