(* ===== verification/Answers.thy ===== *)
theory Answers
  imports Control_Input Transfers Server
begin

text \<open>
  No command goes unanswered: every line a client sends is followed by a reply on its connection or
  by a child that sends one.  The contract of a handler is extended accordingly (locale
  \<open>answering_handler\<close>) and interpreted for the handlers of the table.  The last section turns
  this round: a reply is a write, and a write to a connection the peer has reset raises \<open>SIGPIPE\<close>.
\<close>

section \<open>Replies\<close>

text \<open>From \<open>w\<close> to \<open>w'\<close> the process \<open>p\<close> has written to \<open>fd\<close>.\<close>

definition spoken :: "int \<Rightarrow> int \<Rightarrow> world \<Rightarrow> world \<Rightarrow> bool" where
  "spoken p fd w w' \<longleftrightarrow> (\<exists>es. trace w' = trace w @ es \<and> bytes_sent p fd es \<noteq> [])"

definition grows :: "world \<Rightarrow> world \<Rightarrow> bool" where
  "grows w w' \<longleftrightarrow> (\<exists>es. trace w' = trace w @ es)"

lemma spoken_before: "spoken p fd w w1 \<Longrightarrow> grows w1 w' \<Longrightarrow> spoken p fd w w'"
  by (fastforce simp: spoken_def grows_def)

lemma spoken_after: "grows w w1 \<Longrightarrow> spoken p fd w1 w' \<Longrightarrow> spoken p fd w w'"
  by (fastforce simp: spoken_def grows_def)

lemma grows_quiet: "quiet w w' \<Longrightarrow> grows w w'"
  by (auto simp: quiet_def grows_def)

lemma grows_replies: "replies_to fd w w' \<Longrightarrow> grows w w'"
  by (auto simp: replies_to_def grows_def)

lemma grows_trans: "grows w w1 \<Longrightarrow> grows w1 w' \<Longrightarrow> grows w w'"
  by (force simp: grows_def)

lemma grows_same: "trace w' = trace w \<Longrightarrow> grows w w'"
  by (simp add: grows_def)

lemma spoken_reply:
  assumes "grows w w1" "p = self_pid w1" "fd = client_sockfd c" "s \<noteq> []"
  shows "spoken p fd w (reply c s w1)"
  using assms by (auto simp: spoken_def grows_def)

lemma spoken_trace:
  "trace w' = trace w @ es @ [Sent p fd s] \<Longrightarrow> s \<noteq> [] \<Longrightarrow> spoken p fd w w'"
  by (auto simp: spoken_def)

lemma messages [simp]:
  "msg_please_login \<noteq> []" "msg_local_error \<noteq> []" "msg_no_data_socket \<noteq> []" "msg_closing \<noteq> []"
  "msg_user_fixed \<noteq> []" "msg_need_password \<noteq> []" "msg_already_in \<noteq> []" "msg_user_first \<noteq> []"
  "msg_login_ok \<noteq> []" "msg_login_bad \<noteq> []" "msg_noop \<noteq> []" "msg_help_start \<noteq> []"
  "msg_help_list \<noteq> []" "msg_help_end \<noteq> []" "msg_pwd d \<noteq> []" "msg_ascii \<noteq> []" "msg_binary \<noteq> []"
  "msg_bad_type \<noteq> []" "msg_cwd_failed \<noteq> []" "msg_cwd_ok \<noteq> []" "msg_dele_failed \<noteq> []"
  "msg_dele_ok \<noteq> []" "msg_no_connection \<noteq> []" "msg_passive h p q \<noteq> []" "msg_bad_port \<noteq> []"
  "msg_port_ok \<noteq> []" "msg_list_failed \<noteq> []" "msg_list_start \<noteq> []" "msg_list_ok \<noteq> []"
  "msg_opening \<noteq> []" "msg_complete \<noteq> []" "msg_denied \<noteq> []" "msg_no_file \<noteq> []" "msg_unknown \<noteq> []"
  by (simp_all add: msg_please_login_def msg_local_error_def msg_no_data_socket_def
      msg_closing_def msg_user_fixed_def msg_need_password_def msg_already_in_def
      msg_user_first_def msg_login_ok_def msg_login_bad_def msg_noop_def msg_help_start_def
      msg_help_list_def msg_help_end_def msg_pwd_def msg_ascii_def msg_binary_def msg_bad_type_def
      msg_cwd_failed_def msg_cwd_ok_def msg_dele_failed_def msg_dele_ok_def msg_no_connection_def
      msg_passive_def msg_bad_port_def msg_port_ok_def msg_list_failed_def msg_list_start_def
      msg_list_ok_def msg_opening_def msg_complete_def msg_denied_def msg_no_file_def
      msg_unknown_def)

section \<open>The contract\<close>

text \<open>A child that can run to its end: it has a stream, a data socket, and a file name to use.\<close>

definition job_ready :: "job \<Rightarrow> bool" where
  "job_ready j \<longleftrightarrow>
     stream (job_connection j) \<noteq> None \<and> data_socket (job_connection j) \<noteq> None \<and>
     (job_execution j = Execute_ls_command \<or> argv0 (job_command j) \<noteq> None)"

definition answers :: "connection_t \<Rightarrow> world \<Rightarrow> world \<Rightarrow> bool" where
  "answers c w w' \<longleftrightarrow>
     spoken (self_pid w) (client_sockfd c) w w' \<or>
     (\<exists>j. jobs w' = jobs w @ [j] \<and> job_ready j \<and> same_peer c (job_connection j))"

lemma answers_reply:
  assumes "quiet w w1" "client_sockfd c' = client_sockfd c" "s \<noteq> []"
  shows "answers c w (reply c' s w1)"
  using assms quietD [OF assms(1)] grows_quiet [OF assms(1)]
  by (simp add: answers_def spoken_reply)

lemmas answers_reply_now = answers_reply [OF quiet_refl]

locale answering_handler = ftp_handler +
  assumes answered:
    "handle cmd c w = Inr (st, c', w') \<Longrightarrow> st \<noteq> COMMAND_QUIT \<Longrightarrow> args_match cmd \<Longrightarrow>
     stream c \<noteq> None \<Longrightarrow> answers c w w'"
begin

text \<open>Either way somebody owes the client a reply and can send it.\<close>

lemma answered_cases:
  assumes "handle cmd c w = Inr (st, c', w')" "st \<noteq> COMMAND_QUIT" "args_match cmd" "stream c \<noteq> None"
  obtains (reply) "spoken (self_pid w) (client_sockfd c) w w'"
  | (child) j where "jobs w' = jobs w @ [j]" "job_ready j" "same_peer c (job_connection j)"
  using answered [OF assms] by (auto simp: answers_def)

end

section \<open>The handlers that reply themselves\<close>

lemma change_dir_answers: "change_dir c path w = Inr (st, c', w') \<Longrightarrow> answers c w w'"
  by (auto simp: change_dir_cases Let_def answers_def split: if_splits option.splits
      intro!: spoken_reply grows_same)

interpretation user_answers: answering_handler user_command
  by unfold_locales
    (auto simp: user_command_def Let_def answers_def split: if_splits intro!: spoken_reply grows_same)

interpretation pass_answers: answering_handler pass_command
  by unfold_locales
    (auto simp: pass_command_cases answers_def split: if_splits option.splits
      intro!: spoken_reply grows_same)

interpretation quit_answers: answering_handler quit_command
  by unfold_locales (auto simp: quit_command_def)

interpretation noop_answers: answering_handler noop_command
  by unfold_locales
    (auto simp: noop_command_def answers_def split: if_splits intro!: spoken_reply grows_same)

interpretation help_answers: answering_handler help_command
  by unfold_locales
    (auto simp: help_command_def Let_def answers_def split: if_splits
      intro!: spoken_reply grows_trans [OF grows_replies [OF replies_to_reply]
        grows_replies [OF replies_to_reply]] grows_same)

interpretation pwd_answers: answering_handler pwd_command
  by unfold_locales
    (auto simp: pwd_command_def answers_def split: if_splits intro!: spoken_reply grows_same)

interpretation type_answers: answering_handler type_command
  by unfold_locales
    (auto simp: type_command_def change_type_def Let_def answers_def split: if_splits option.splits
      intro!: spoken_reply grows_same)

interpretation cwd_answers: answering_handler cwd_command
  by unfold_locales
    (auto simp: cwd_command_def split: if_splits option.splits
      intro: change_dir_answers answers_reply_now)

interpretation cdup_answers: answering_handler cdup_command
  by unfold_locales
    (auto simp: cdup_command_def split: if_splits intro: change_dir_answers answers_reply_now)

interpretation dele_answers: answering_handler dele_command
  by unfold_locales
    (auto simp: dele_command_def delete_file_cases Let_def answers_def
      split: if_splits option.splits intro!: spoken_reply grows_same)

interpretation pasv_answers: answering_handler "pasv_command os" for os
proof unfold_locales
  fix cmd c w st c' w'
  assume "pasv_command os cmd c w = Inr (st, c', w')"
  then show "answers c w w'"
    using setup_passive_quiet [of w os]
    by (auto simp: pasv_command_def create_passive_data_socket_def Let_def case_prod_beta
        split: if_splits option.splits intro!: answers_reply quiet_log)
qed

interpretation port_answers: answering_handler "port_command os" for os
proof unfold_locales
  fix cmd c w st c' w'
  assume "port_command os cmd c w = Inr (st, c', w')"
  then show "answers c w w'"
    using setup_active_quiet [of w os]
    by (auto simp: port_command_def create_active_data_socket_def Let_def case_prod_beta
        split: if_splits option.splits intro!: answers_reply quiet_log)
qed


section \<open>The handlers that start a child\<close>

lemma answers_quiet:
  assumes "quiet w w1" "answers c w1 w2" "quiet w2 w'"
  shows "answers c w w'"
  using assms(2) quietD [OF assms(1)] quietD [OF assms(3)]
    spoken_after [OF grows_quiet [OF assms(1)] spoken_before [OF _ grows_quiet [OF assms(3)]]]
  by (auto simp: answers_def)

lemma spawned_answers:
  assumes "stream c \<noteq> None" "e = Execute_ls_command \<or> argv0 cmd \<noteq> None"
  shows "answers c w (spawned os c ds e cmd failed w)"
proof -
  have "answers c w (w\<lparr>jobs := jobs w @ [forked os (c\<lparr>data_socket := Some ds\<rparr>) e cmd w]\<rparr>)"
    using assms by (auto simp: answers_def job_ready_def)
  then show ?thesis
    by (auto simp: spawned_def intro: answers_reply_now answers_reply [OF quiet_steps(2)])
qed

lemma execute_data_socket_answers:
  assumes r: "execute_data_socket_command os c e cmd w = Inr (st, c', w')"
    and "stream c \<noteq> None" "e = Execute_ls_command \<or> argv0 cmd \<noteq> None"
  shows "answers c w w'"
proof -
  from r obtain ds where ds: "data_socket c = Some ds"
    by (auto simp: execute_data_socket_command_def split: option.splits)
  from r ds obtain n ds1 w1 where est: "establish_data_socket_connection os ds w = Inr (n, ds1, w1)"
    by (auto simp: execute_data_socket_command_def split: sum.splits)
  have q1: "quiet w w1" by (rule establish_quiet [OF est])
  from r have d: "destroy_data_socket (Some ds1) True (spawned os c ds1 e cmd (n = -1) w1) = Inr w'"
    unfolding execute_data_socket_cases [OF ds est] by (auto split: sum.splits)
  have q2: "quiet (spawned os c ds1 e cmd (n = -1) w1) w'" using destroy_data_socket_quiet [OF d] ..
  show ?thesis by (rule answers_quiet [OF q1 spawned_answers [OF assms(2,3)] q2])
qed

lemma checked_answers:
  assumes "checked c w w1" "answers c w1 w'"
  shows "answers c w w'"
proof -
  have "grows w w1" "self_pid w1 = self_pid w" "jobs w1 = jobs w"
    using assms(1) by (auto simp: checked_def replies_to_def grows_def)
  with assms(2) show ?thesis by (auto simp: answers_def intro: spoken_after)
qed

lemma check_file_exists_answers:
  "check_file_exists c path w = (r, w') \<Longrightarrow> r = -1 \<Longrightarrow> answers c w w'"
  by (auto simp: check_file_exists_def Let_def answers_def split: if_splits
      intro!: spoken_reply grows_same)

lemma list_check_answers:
  "list_check c cmd w = Inr (True, w') \<Longrightarrow> answers c w w'"
  by (auto simp: list_check_def list_check_exists_def check_directory_access_def answers_def
      Let_def case_prod_beta split: if_splits option.splits sum.splits intro!: spoken_reply grows_same)

lemma argv0_of_argc: "args_match cmd \<Longrightarrow> argc cmd = 1 \<Longrightarrow> argv0 cmd \<noteq> None"
  by (auto dest: args_match_None)

interpretation retr_answers: answering_handler "retr_command os" for os
proof unfold_locales
  fix cmd c w st c' w'
  assume r: "retr_command os cmd c w = Inr (st, c', w')" and "args_match cmd" "stream c \<noteq> None"
  then show "answers c w w'"
    using check_file_exists_checked [of c w]
    by (auto simp: retr_command_def case_prod_beta Let_def split: if_splits option.splits
        intro: answers_reply_now check_file_exists_answers [OF prod.collapse [symmetric]]
          checked_answers [OF _ execute_data_socket_answers])
qed

interpretation stor_answers: answering_handler "stor_command os" for os
proof unfold_locales
  fix cmd c w st c' w'
  assume r: "stor_command os cmd c w = Inr (st, c', w')" and "args_match cmd" "stream c \<noteq> None"
  then show "answers c w w'"
    using argv0_of_argc [of cmd]
    by (auto simp: stor_command_def split: if_splits
        intro: answers_reply_now execute_data_socket_answers)
qed

interpretation list_answers: answering_handler "list_command os" for os
proof unfold_locales
  fix cmd c w st c' w'
  assume r: "list_command os cmd c w = Inr (st, c', w')" and s: "stream c \<noteq> None"
  show "answers c w w'"
  proof (cases "logged_in c \<and> data_socket c \<noteq> None")
    case False
    with r show ?thesis by (auto simp: list_command_def split: if_splits intro: answers_reply_now)
  next
    case True
    with r obtain failed w1 where l: "list_check c cmd w = Inr (failed, w1)"
      by (auto simp: list_command_def split: sum.splits)
    with r True s show ?thesis
      by (auto simp: list_command_def split: if_splits
          intro: list_check_answers checked_answers [OF list_check_checked execute_data_socket_answers])
  qed
qed

section \<open>The dispatcher\<close>

lemmas answering_axioms =
  user_answers.answering_handler_axioms pass_answers.answering_handler_axioms
  cwd_answers.answering_handler_axioms cdup_answers.answering_handler_axioms
  quit_answers.answering_handler_axioms dele_answers.answering_handler_axioms
  pwd_answers.answering_handler_axioms pasv_answers.answering_handler_axioms
  port_answers.answering_handler_axioms help_answers.answering_handler_axioms
  noop_answers.answering_handler_axioms retr_answers.answering_handler_axioms
  stor_answers.answering_handler_axioms list_answers.answering_handler_axioms
  type_answers.answering_handler_axioms

lemma command_handlers_answer: "list_all (\<lambda>(n, h). answering_handler h) (command_handlers os)"
  by (simp add: command_handlers_def answering_axioms)

lemma execute_command_answers:
  assumes e: "execute_command os cmd c w = Inr (st, c', w')" "st \<noteq> COMMAND_QUIT" "stream c \<noteq> None"
    and wf: "\<And>command. cmd = Some command \<Longrightarrow> args_match command"
  shows "answers c w w'"
proof (cases "\<exists>command h. cmd = Some command \<and>
    find_handler (command_handlers os) (touppercase (name command)) = Some h")
  case True
  then obtain command h where c: "cmd = Some command"
    "find_handler (command_handlers os) (touppercase (name command)) = Some h" by blast
  then have "answering_handler h"
    using command_handlers_answer [of os] by (auto simp: list_all_iff dest: find_handler_mem)
  moreover have "args_match (command\<lparr>name := touppercase (name command)\<rparr>)"
    using wf [OF c(1)] by (simp add: args_match_def)
  moreover have "h (command\<lparr>name := touppercase (name command)\<rparr>) c w = Inr (st, c', w')"
    using e(1) c by (simp add: execute_command_def get_command_handler_def)
  ultimately show ?thesis using answering_handler.answered e(2,3) by blast
next
  case False
  then have "w' = not_found_message c w"
    using e(1) by (auto simp: execute_command_def get_command_handler_def Let_def
        split: option.splits)
  then show ?thesis by (simp add: not_found_message_def answers_reply_now)
qed


section \<open>The child\<close>

text \<open>\<open>speaks c w w'\<close>: the running process goes on as itself and has replied.\<close>

definition speaks :: "connection_t \<Rightarrow> world \<Rightarrow> world \<Rightarrow> bool" where
  "speaks c w w' \<longleftrightarrow> self_pid w' = self_pid w \<and> spoken (self_pid w) (client_sockfd c) w w'"

lemma speaks_reply:
  "grows w w1 \<Longrightarrow> self_pid w1 = self_pid w \<Longrightarrow> s \<noteq> [] \<Longrightarrow> speaks c w (reply c s w1)"
  by (simp add: speaks_def spoken_reply)

lemma append_file_quiet: "self_pid (append_file p s w) = self_pid w \<and> trace (append_file p s w) = trace w"
  by (simp add: append_file_def split: option.splits node.splits)

lemma fold_append_file_quiet:
  "self_pid (fold (append_file p) ls w) = self_pid w \<and> trace (fold (append_file p) ls w) = trace w"
  by (induction ls arbitrary: w) (simp_all add: append_file_quiet)

lemma transfer_file_data_quiet:
  assumes "transfer_file_data os p fd w = Inr (r, w')"
  shows "self_pid w' = self_pid w" "trace w' = trace w"
  using assms
  by (auto simp: transfer_file_data_def fold_append_file_quiet Let_def split: if_splits option.splits)

lemma send_chunks_grows: "grows w (send_chunks fd d w)" "self_pid (send_chunks fd d w) = self_pid w"
  by (simp_all add: send_chunks_eq grows_def)

lemma execute_ls_speaks:
  assumes "data_socket c \<noteq> None"
  shows "\<exists>st w'. execute_ls_command os c cmd w = Inr (st, w') \<and> speaks c w w'"
proof -
  obtain st w1 where g: "goto_path c cmd w = (st, w1)" by fastforce
  show ?thesis
  proof (cases "st = COMMAND_FAILURE")
    case True
    with g have "speaks c w w1"
      by (auto simp: goto_path_def Let_def case_prod_beta split: if_splits
          intro!: speaks_reply grows_same)
    with g True show ?thesis by (simp add: execute_ls_command_def)
  next
    case False
    then have w1: "trace w1 = trace w" "self_pid w1 = self_pid w"
      using g by (auto simp: goto_path_def Let_def case_prod_beta split: if_splits)
    then have gw: "grows w w1" by (simp add: grows_same)
    have "speaks c w (reply c msg_local_error (perror ''popen'' w1))"
      using grows_trans [OF gw grows_quiet [OF quiet_steps(2)]] w1 by (intro speaks_reply) auto
    moreover
    let ?w2 = "\<lambda>ds l. snd (chdir (srv_path (server c))
        (send_chunks (ds_client_sockfd ds) l (reply c msg_list_start w1)))"
    have "grows w (?w2 ds l) \<and> self_pid (?w2 ds l) = self_pid w" for ds l
      using w1 by (simp add: send_chunks_eq grows_def)
    then have "speaks c w (reply c msg_list_ok (?w2 ds l))" for ds l by (intro speaks_reply) auto
    ultimately show ?thesis
      using g False assms
      by (auto simp: execute_ls_command_def list_directory_def Let_def split: option.splits)
  qed
qed

lemma execute_retr_speaks:
  assumes "data_socket c \<noteq> None" "argv0 cmd \<noteq> None"
  shows "\<exists>st w'. execute_retr_command c cmd w = Inr (st, w') \<and> speaks c w w'"
  using assms
  by (auto simp: execute_retr_command_def Let_def send_chunks_eq grows_def split: option.splits
      intro!: speaks_reply)

text \<open>The client keeps the data connection of an upload open for ever.\<close>

definition keeps_open :: "os \<Rightarrow> connection_t \<Rightarrow> bool" where
  "keeps_open os c \<longleftrightarrow>
     (\<exists>ds w. data_socket c = Some ds \<and> os_recv os w (ds_client_sockfd ds) = None)"

definition waits_for_upload :: "os \<Rightarrow> command_execution \<Rightarrow> connection_t \<Rightarrow> fault \<Rightarrow> bool" where
  "waits_for_upload os e c f \<longleftrightarrow> f = Blocked \<and> e = Execute_stor_command \<and> keeps_open os c"

lemma execute_stor_speaks:
  assumes "data_socket c \<noteq> None" "argv0 cmd \<noteq> None"
  shows "case execute_stor_command os c cmd w of
      Inl f \<Rightarrow> waits_for_upload os Execute_stor_command c f
    | Inr (st, w') \<Rightarrow> speaks c w w'"
proof -
  obtain ds path where a: "data_socket c = Some ds" "argv0 cmd = Some path" using assms by blast
  show ?thesis
  proof (cases "fs_fopen_w (fsys w) (cwd w) path")
    case None
    then show ?thesis using a by (auto simp: execute_stor_command_def grows_def intro!: speaks_reply)
  next
    case (Some r)
    then obtain p fs' where o: "fs_fopen_w (fsys w) (cwd w) path = Some (p, fs')" by (cases r) auto
    let ?w1 = "reply c msg_opening (w\<lparr>fsys := fs'\<rparr>)"
    show ?thesis
    proof (cases "transfer_file_data os p (ds_client_sockfd ds) ?w1")
      case (Inl f)
      then have "f = Blocked" "keeps_open os c"
        using a(1) by (auto simp: transfer_file_data_def keeps_open_def Let_def split: if_splits option.splits)
      then show ?thesis
        using a o Inl by (simp add: execute_stor_command_def waits_for_upload_def)
    next
      case (Inr x)
      obtain n w2 where x: "x = (n, w2)" by (cases x)
      then have "speaks c w (reply c msg_complete w2)"
        using transfer_file_data_quiet [OF Inr [unfolded x]]
        by (intro speaks_reply) (simp_all add: grows_def)
      then show ?thesis using a o Inr x by (simp add: execute_stor_command_def)
    qed
  qed
qed

lemma run_execution_speaks:
  assumes "data_socket c \<noteq> None" "e = Execute_ls_command \<or> argv0 cmd \<noteq> None"
  shows "case run_execution os e c cmd w of
      Inl f \<Rightarrow> waits_for_upload os e c f
    | Inr (st, w') \<Rightarrow> speaks c w w'"
proof (cases e)
  case Execute_ls_command
  then show ?thesis
    using execute_ls_speaks [OF assms(1), of os cmd w] by (auto simp: run_execution_def)
next
  case Execute_retr_command
  then show ?thesis
    using execute_retr_speaks [of c cmd w] assms by (auto simp: run_execution_def)
next
  case Execute_stor_command
  then show ?thesis
    using execute_stor_speaks [OF assms(1), of cmd os w] assms(2)
    by (simp only: run_execution_def command_execution.simps simp_thms)
qed

text \<open>
  A child ends and has replied before, or it waits for the end of an upload that the client does not
  end.
\<close>

lemma child_speaks:
  assumes "job_ready j"
  shows "case run_job os j w of
      Inl f \<Rightarrow> waits_for_upload os (job_execution j) (job_connection j) f
    | Inr w' \<Rightarrow> spoken (job_pid j) (client_sockfd (job_connection j)) w w'"
proof -
  let ?c = "job_connection j" and ?w0 = "w\<lparr>self_pid := job_pid j, cwd := job_cwd j, open_fds := job_fds j\<rparr>"
  have ready: "data_socket ?c \<noteq> None" "job_execution j = Execute_ls_command \<or> argv0 (job_command j) \<noteq> None"
    using assms by (auto simp: job_ready_def)
  note speaks = run_execution_speaks [OF ready, of os ?w0]
  show ?thesis
  proof (cases "run_execution os (job_execution j) ?c (job_command j) ?w0")
    case (Inl f)
    then show ?thesis using speaks by (simp add: run_job_def child_main_def)
  next
    case (Inr x)
    then obtain st w1 where e: "run_execution os (job_execution j) ?c (job_command j) ?w0 = Inr (st, w1)"
      by (cases x) auto
    with speaks have s: "speaks ?c ?w0 w1" by simp
    let ?w2 = "close (srv_sockfd (server ?c)) w1"
    have "\<exists>w3. destroy_connection ?c False ?w2 = Inr w3"
      using assms by (auto simp: destroy_connection_def destroy_data_socket_def job_ready_def)
    then obtain w3 where d: "destroy_connection ?c False ?w2 = Inr w3" ..
    have "grows w1 w3"
      using grows_quiet [OF quiet_steps(3)] grows_quiet [OF destroy_connection_quiet [OF d]]
      by (rule grows_trans)
    with s have "spoken (job_pid j) (client_sockfd ?c) w w3"
      by (auto simp: speaks_def spoken_def grows_def)
    with e d show ?thesis by (simp add: run_job_def child_main_def spoken_def)
  qed
qed

section \<open>One line of input\<close>

lemma line_read_keeps:
  assumes "read_socket c w = Inr (l, c1, w1)"
  shows "client_sockfd c1 = client_sockfd c" "stream c1 \<noteq> None" "trace w1 = trace w"
    "jobs w1 = jobs w" "self_pid w1 = self_pid w"
  using assms by (auto simp: read_socket_def Let_def case_prod_beta split: option.splits line_input.splits)

lemma answered_line:
  assumes read: "read_socket c w = Inr (Line l, c1, w1)"
    and run: "handle_connection os (client_sockfd c) c w = Inr (Some (fd', c', w'))"
  shows "spoken (self_pid w) (client_sockfd c) w w' \<or>
    (\<exists>j. jobs w' = jobs w @ [j] \<and> job_ready j \<and> same_peer c1 (job_connection j))"
proof -
  note keeps = line_read_keeps [OF read]
  from run obtain st c2 w2 where h: "handle_client_command os c w = Inr (Some (st, c2, w2))"
    by (auto simp: handle_connection_def split: sum.splits option.splits)
  with read obtain a cmd where
    p: "parse_buffer (os_malloc os (printf (log_command a l) w1)) l = Inr cmd"
    and e: "execute_command os cmd c1 (printf (log_command a l) w1) = Inr (st, c2, w2)"
    by (auto simp: handle_client_command_def Let_def map_sum_def split: option.splits sum.splits)
  let ?w0 = "printf (log_command a l) w1"
  have g0: "grows w ?w0" using keeps by (simp add: grows_def)
  show ?thesis
  proof (cases "st = COMMAND_QUIT")
    case True
    with run h obtain w3 where w': "w' = close (client_sockfd c) w3"
      and d: "destroy_connection c2 True (dprintf (client_sockfd c) msg_closing w2) = Inr w3"
      by (auto simp: handle_connection_def Let_def split: sum.splits)
    have x: "replies_to (client_sockfd c1) ?w0 w2"
      using execute_command_contract [OF e] by simp
    then have "self_pid w2 = self_pid w" using keeps by (auto simp: replies_to_def)
    then have "spoken (self_pid w) (client_sockfd c) w2 (dprintf (client_sockfd c) msg_closing w2)"
      by (simp add: spoken_def)
    then have "spoken (self_pid w) (client_sockfd c) w w3"
      using grows_trans [OF g0 grows_replies [OF x]] grows_quiet [OF destroy_connection_quiet [OF d]]
      by (blast intro: spoken_before spoken_after)
    then show ?thesis by (simp add: w' spoken_def)
  next
    case False
    have "args_match command" if "cmd = Some command" for command
      using parse_buffer_cases_wf [OF p [unfolded that]] by (simp add: args_match_def wf_command_def)
    then have "answers c1 ?w0 w2"
      by (rule execute_command_answers [OF e False keeps(2)])
    moreover have "w' = w2" using run h False by (simp add: handle_connection_def)
    ultimately show ?thesis
      using keeps spoken_after [OF g0] by (auto simp: answers_def)
  qed
qed


section \<open>Writing to a connection that was reset\<close>

text \<open>
  The kernel decides which writes raise \<open>SIGPIPE\<close>: \<open>raises h e\<close> says that the write \<open>e\<close> does, after the
  events \<open>h\<close>.  \<open>survives sigs raises h es\<close>: a process with the dispositions \<open>sigs\<close> is alive after the
  events \<open>es\<close>.
\<close>

fun survives :: "signals \<Rightarrow> (event list \<Rightarrow> event \<Rightarrow> bool) \<Rightarrow> event list \<Rightarrow> event list \<Rightarrow> bool" where
  "survives sigs raises h [] \<longleftrightarrow> True"
| "survives sigs raises h (e # es) \<longleftrightarrow>
     \<not> (raises h e \<and> deliver (\<lambda>_ x. x) sigs SIGPIPE () = None) \<and> survives sigs raises (h @ [e]) es"

text \<open>
  What \<open>send(2)\<close> documents of a connection the peer has reset.  The first write reports \<open>ECONNRESET\<close>,
  which raises nothing; the connection is then shut down for writing, and every further write fails
  with \<open>EPIPE\<close> and raises \<open>SIGPIPE\<close>.  The events count from the reset on.
\<close>

definition reset_by_peer :: "(event list \<Rightarrow> event \<Rightarrow> bool) \<Rightarrow> int \<Rightarrow> int \<Rightarrow> bool" where
  "reset_by_peer raises p fd \<longleftrightarrow>
     (\<forall>h s. bytes_sent p fd h \<noteq> [] \<longrightarrow> s \<noteq> [] \<longrightarrow> raises h (Sent p fd s))"

lemma survives_append:
  "survives sigs raises h (es @ es') \<longleftrightarrow>
     survives sigs raises h es \<and> survives sigs raises (h @ es) es'"
  by (induction es arbitrary: h) auto

lemma survives_silent:
  assumes "survives sigs raises h es" "reset_by_peer raises p fd" "bytes_sent p fd h \<noteq> []"
    and "deliver (\<lambda>_ x. x) sigs SIGPIPE () = None"
  shows "bytes_sent p fd es = []"
  using assms(1,3)
proof (induction es arbitrary: h)
  case (Cons e es)
  have "bytes_sent p fd [e] = []"
  proof (rule ccontr)
    assume "bytes_sent p fd [e] \<noteq> []"
    then obtain s where "e = Sent p fd s" "s \<noteq> []" by (cases e) (auto split: if_splits)
    with assms(2) Cons.prems assms(4) show False by (simp add: reset_by_peer_def)
  qed
  moreover have "bytes_sent p fd es = []"
    using Cons.prems by (intro Cons.IH [of "h @ [e]"]) simp_all
  ultimately show ?case using bytes_sent_append [of p fd "[e]" es] by simp
qed simp

lemma setup_signal_SIGPIPE:
  "sigs SIGPIPE = Sig_default \<Longrightarrow> deliver (\<lambda>_ x. x) (setup_signal sigs) SIGPIPE () = None"
  by (simp add: deliver_def setup_signal_def SIGINT_def SIGTERM_def SIGPIPE_def SIGCHLD_def)

section \<open>Properties\<close>

text \<open>A client that has not logged in sends NOOP.\<close>

definition demo_noop_world :: world where
  "demo_noop_world = demo_world\<lparr>net_in := (\<lambda>_. [])(4 := [''NOOP'' @ crlf])\<rparr>"

lemma demo_noop_read:
  "read_socket demo_conn demo_noop_world = Inr (Line (''NOOP'' @ [CR]), demo_conn, demo_world)"
proof -
  have "stream_getline [] [''NOOP'' @ crlf] False = (Line (''NOOP'' @ crlf), [], [])" by code_simp
  moreover have "chomp (''NOOP'' @ crlf) = ''NOOP'' @ [CR]" by code_simp
  moreover have "demo_noop_world\<lparr>net_in := (net_in demo_noop_world)(4 := [])\<rparr> = demo_world"
    by (simp add: demo_noop_world_def demo_world_def fun_upd_idem)
  ultimately show ?thesis
    by (simp add: read_socket_def demo_conn_def demo_noop_world_def demo_world_def)
qed

lemma demo_noop_handled:
  "\<exists>w'. handle_connection demo_os 4 demo_conn demo_noop_world = Inr (Some (4, demo_conn, w')) \<and>
     trace w' = [Printed (log_command \<lparr>sin_addr = INADDR_LOOPBACK, sin_port = 50000\<rparr> (''NOOP'' @ [CR])),
       Sent 1 4 msg_please_login] \<and> jobs w' = []"
proof -
  have "parse_buffer (\<lambda>_. True) (''NOOP'' @ [CR]) = Inr (Some (demo_command ''NOOP'' []))"
    by code_simp
  moreover have "find_handler (command_handlers demo_os) (touppercase ''NOOP'') = Some noop_command"
    by (simp add: command_handlers_def touppercase_def)
  ultimately show ?thesis
    using demo_noop_read
    by (simp add: handle_connection_def handle_client_command_def execute_command_def
        get_command_handler_def demo_command_def noop_command_def demo_conn_def demo_os_def
        demo_world_def)
qed

text \<open>
  Property C28: one client can end the server.  \<open>setup_signal\<close> leaves the default action of \<open>SIGPIPE\<close>.
  When a client resets its connection while two of its lines are still to be handled, whatever they
  are and whatever happens between them, the server does not survive their answers, unless it leaves
  one of them to a child: the first answer meets \<open>ECONNRESET\<close> and is ignored, the second raises
  \<open>SIGPIPE\<close>.
\<close>

theorem reset_client_ends_server:
  assumes "read_socket c w = Inr (Line l, c1, w1)"
    and "handle_connection os (client_sockfd c) c w = Inr (Some (fd', c', w'))"
    and "trace w' = trace w @ es" "jobs w' = jobs w"
    and "read_socket d v = Inr (Line k, d1, v1)" "client_sockfd d = client_sockfd c"
    and "handle_connection os (client_sockfd d) d v = Inr (Some (fd'', d', v'))"
    and "trace v' = trace v @ es'" "jobs v' = jobs v" "self_pid v = self_pid w"
    and "reset_by_peer raises (self_pid w) (client_sockfd c)" "sigs SIGPIPE = Sig_default"
  shows "\<not> survives (setup_signal sigs) raises [] (es @ between @ es')"
proof
  assume alive: "survives (setup_signal sigs) raises [] (es @ between @ es')"
  have "spoken (self_pid w) (client_sockfd c) w w'"
    using answered_line [OF assms(1,2)] assms(4) by auto
  then have 1: "bytes_sent (self_pid w) (client_sockfd c) es \<noteq> []"
    using assms(3) by (auto simp: spoken_def)
  have "spoken (self_pid v) (client_sockfd d) v v'"
    using answered_line [OF assms(5,7)] assms(9) by auto
  then have 2: "bytes_sent (self_pid w) (client_sockfd c) es' \<noteq> []"
    using assms(6,8,10) by (auto simp: spoken_def)
  from alive have "survives (setup_signal sigs) raises (es @ between) es'"
    by (simp add: survives_append)
  moreover have "bytes_sent (self_pid w) (client_sockfd c) (es @ between) \<noteq> []" using 1 by simp
  ultimately have "bytes_sent (self_pid w) (client_sockfd c) es' = []"
    using assms(11) setup_signal_SIGPIPE [of sigs] assms(12) by (blast intro: survives_silent)
  with 2 show False by simp
qed

theorem reset_client_ends_server_witness:
  "\<exists>w' es. handle_connection demo_os 4 demo_conn demo_noop_world = Inr (Some (4, demo_conn, w')) \<and>
    trace w' = trace demo_noop_world @ es \<and>
    \<not> survives (setup_signal (\<lambda>_. Sig_default)) (\<lambda>h e. bytes_sent 1 4 h \<noteq> []) [] (es @ [] @ es)"
proof -
  obtain w' where h: "handle_connection demo_os 4 demo_conn demo_noop_world = Inr (Some (4, demo_conn, w'))"
    and j: "jobs w' = []" using demo_noop_handled by blast
  have c: "client_sockfd demo_conn = 4" "self_pid demo_noop_world = 1"
    by (simp_all add: demo_conn_def demo_noop_world_def demo_world_def)
  have t: "trace w' = trace demo_noop_world @ trace w'" "jobs w' = jobs demo_noop_world"
    using j by (simp_all add: demo_noop_world_def demo_world_def)
  have h4: "handle_connection demo_os (client_sockfd demo_conn) demo_conn demo_noop_world =
      Inr (Some (4, demo_conn, w'))" using h c by simp
  have r: "reset_by_peer (\<lambda>h e. bytes_sent 1 4 h \<noteq> []) (self_pid demo_noop_world) (client_sockfd demo_conn)"
    by (simp add: reset_by_peer_def c)
  have "\<not> survives (setup_signal (\<lambda>_. Sig_default)) (\<lambda>h e. bytes_sent 1 4 h \<noteq> []) []
      (trace w' @ [] @ trace w')"
    by (rule reset_client_ends_server [OF demo_noop_read h4 t demo_noop_read refl h4 t refl r refl])
  with h t show ?thesis by blast
qed

end
