(* ===== verification/Replies.thy ===== *)
theory Replies
  imports Answers
begin

text \<open>
  What the server says, message by message: the reply sequences of RFC 959 as an automaton over the
  messages of one connection, and the proof that every line of a client is answered with exactly one
  such sequence, by the server or, when it comes to its end, by the child started for the line.
\<close>

section \<open>The grammar\<close>

text \<open>A line of text, and one that begins with a code of three digits and the separator \<open>sep\<close>.\<close>

definition text_line :: "string \<Rightarrow> bool" where
  "text_line m \<longleftrightarrow>
     2 \<le> length m \<and> drop (length m - 2) m = crlf \<and>
     list_all (\<lambda>c. c \<noteq> CR \<and> c \<noteq> LF) (take (length m - 2) m)"

definition coded :: "char \<Rightarrow> string \<Rightarrow> bool" where
  "coded sep m \<longleftrightarrow> text_line m \<and> 6 \<le> length m \<and> list_all isdigit (take 3 m) \<and> m ! 3 = sep"

text \<open>
  A dialogue: a preliminary reply (1yz) may come first, then one final reply (2yz to 5yz), which is a
  line or a text whose last line repeats the code of its first.
\<close>

datatype dialogue = Awaiting | Begun | In_text string | Finished | Violated

definition final_reply :: "string \<Rightarrow> bool" where
  "final_reply m \<longleftrightarrow> coded SP m \<and> hd m \<in> set ''2345''"

definition preliminary_reply :: "string \<Rightarrow> bool" where
  "preliminary_reply m \<longleftrightarrow> coded SP m \<and> hd m = CHR ''1''"

definition text_start :: "string \<Rightarrow> bool" where
  "text_start m \<longleftrightarrow> coded CHR ''-'' m \<and> hd m \<in> set ''2345''"

fun heard :: "dialogue \<Rightarrow> string \<Rightarrow> dialogue" where
  "heard Awaiting m =
     (if preliminary_reply m then Begun
      else if final_reply m then Finished
      else if text_start m then In_text (take 3 m) else Violated)"
| "heard Begun m =
     (if final_reply m then Finished
      else if text_start m then In_text (take 3 m) else Violated)"
| "heard (In_text code) m =
     (if coded SP m \<and> take 3 m = code then Finished
      else if text_line m then In_text code else Violated)"
| "heard Finished m = Violated"
| "heard Violated m = Violated"

definition complete_dialogue :: "string list \<Rightarrow> bool" where
  "complete_dialogue ms \<longleftrightarrow> foldl heard Awaiting ms = Finished"

lemma violated: "foldl heard Violated ms = Violated"
  by (induction ms) simp_all

lemma complete_single: "final_reply m \<Longrightarrow> complete_dialogue [m]"
  by (auto simp: complete_dialogue_def final_reply_def preliminary_reply_def)

lemma complete_preliminary: "preliminary_reply p \<Longrightarrow> final_reply m \<Longrightarrow> complete_dialogue [p, m]"
  by (simp add: complete_dialogue_def)

text \<open>A dialogue that is complete cannot be continued.\<close>

lemma complete_ends:
  assumes "complete_dialogue ms" "complete_dialogue (ms @ ms')"
  shows "ms' = []"
proof (cases ms')
  case (Cons m ms'')
  with assms show ?thesis by (simp add: complete_dialogue_def violated)
qed

lemma final_replies [simp]:
  "final_reply msg_please_login" "final_reply msg_local_error" "final_reply msg_no_data_socket"
  "final_reply msg_closing" "final_reply msg_user_fixed" "final_reply msg_need_password"
  "final_reply msg_already_in" "final_reply msg_user_first" "final_reply msg_login_ok"
  "final_reply msg_login_bad" "final_reply msg_noop" "final_reply msg_ascii" "final_reply msg_binary"
  "final_reply msg_bad_type" "final_reply msg_cwd_failed" "final_reply msg_cwd_ok"
  "final_reply msg_dele_failed" "final_reply msg_dele_ok" "final_reply msg_no_connection"
  "final_reply msg_bad_port" "final_reply msg_port_ok" "final_reply msg_list_failed"
  "final_reply msg_list_ok" "final_reply msg_complete" "final_reply msg_denied"
  "final_reply msg_no_file" "final_reply msg_unknown"
  by code_simp+

lemma preliminary_replies [simp]:
  "preliminary_reply msg_list_start" "preliminary_reply msg_opening"
  by code_simp+

lemma help_dialogue: "complete_dialogue [msg_help_start, msg_help_list, msg_help_end]"
  by code_simp

lemma text_line_crlf [simp]: "text_line (s @ crlf) \<longleftrightarrow> list_all (\<lambda>c. c \<noteq> CR \<and> c \<noteq> LF) s"
  by (simp add: text_line_def)

text \<open>The two replies with a text of their own.\<close>

definition plain_directory :: "connection_t \<Rightarrow> bool" where
  "plain_directory c \<longleftrightarrow>
     (case working_directory c of None \<Rightarrow> True | Some d \<Rightarrow> CR \<notin> set d \<and> LF \<notin> set d)"

lemma final_pwd: "plain_directory c \<Longrightarrow> final_reply (msg_pwd (working_directory c))"
proof -
  assume p: "plain_directory c"
  let ?d = "percent_s (working_directory c)"
  have d: "list_all (\<lambda>c. c \<noteq> CR \<and> c \<noteq> LF) ?d"
    using p by (auto simp: plain_directory_def percent_s_def list_all_iff split: option.splits)
  have m: "msg_pwd (working_directory c) = (''257 '' @ [CHR 0x22] @ ?d @ [CHR 0x22]) @ crlf"
    by (simp add: msg_pwd_def)
  show ?thesis
    unfolding final_reply_def coded_def m text_line_crlf
    using d by (simp add: isdigit_def)
qed

lemma show_int_plain: "0 \<le> i \<Longrightarrow> list_all (\<lambda>c. c \<noteq> CR \<and> c \<noteq> LF) (show_int i)"
  using show_nat_digits isdigit_neq by (fastforce simp: show_int_def list_all_iff)

lemma final_passive:
  assumes "0 \<le> p" "0 \<le> q"
  shows "final_reply (msg_passive (replace_dots_with_commas (inet_ntoa a)) p q)"
proof -
  let ?h = "replace_dots_with_commas (inet_ntoa a)"
  have "list_all (\<lambda>c. c \<noteq> CR \<and> c \<noteq> LF) ?h"
    using show_nat_digits isdigit_neq
    by (fastforce simp: replace_dots_with_commas_def inet_ntoa_def list_all_iff)
  then have t: "list_all (\<lambda>c. c \<noteq> CR \<and> c \<noteq> LF)
      (''227 Entering Passive Mode ('' @ ?h @ '','' @ show_int p @ '','' @ show_int q @ '').'')"
    using show_int_plain assms by simp
  have m: "msg_passive ?h p q =
      (''227 Entering Passive Mode ('' @ ?h @ '','' @ show_int p @ '','' @ show_int q @ '').'') @ crlf"
    by (simp add: msg_passive_def)
  show ?thesis
    unfolding final_reply_def coded_def m text_line_crlf
    using t by (simp add: isdigit_def)
qed

section \<open>What is said\<close>

text \<open>The messages a process writes to a descriptor, one for each write.\<close>

fun messages_sent :: "int \<Rightarrow> int \<Rightarrow> event list \<Rightarrow> string list" where
  "messages_sent p fd [] = []"
| "messages_sent p fd (Sent q g s # es) =
     (if q = p \<and> g = fd then s # messages_sent p fd es else messages_sent p fd es)"
| "messages_sent p fd (e # es) = messages_sent p fd es"

lemma messages_sent_append [simp]:
  "messages_sent p fd (es @ es') = messages_sent p fd es @ messages_sent p fd es'"
  by (induction p fd es rule: messages_sent.induct) auto

lemma concat_messages_sent: "concat (messages_sent p fd es) = bytes_sent p fd es"
  by (induction p fd es rule: messages_sent.induct) auto

lemma messages_sent_log: "list_all is_log es \<Longrightarrow> messages_sent p fd es = []"
  by (induction p fd es rule: messages_sent.induct) auto

definition said :: "int \<Rightarrow> int \<Rightarrow> world \<Rightarrow> world \<Rightarrow> string list \<Rightarrow> bool" where
  "said p fd w w' ms \<longleftrightarrow> (\<exists>es. trace w' = trace w @ es \<and> messages_sent p fd es = ms)"

text \<open>The process has said nothing to anybody and is the same.\<close>

definition still :: "world \<Rightarrow> world \<Rightarrow> bool" where
  "still w w' \<longleftrightarrow>
     self_pid w' = self_pid w \<and> jobs w' = jobs w \<and> (\<exists>es. trace w' = trace w @ es \<and> list_all is_log es)"

lemma still_quiet: "quiet w w' \<Longrightarrow> still w w'"
  by (simp add: still_def quiet_def)

lemma still_same: "self_pid w' = self_pid w \<Longrightarrow> jobs w' = jobs w \<Longrightarrow> trace w' = trace w \<Longrightarrow> still w w'"
  by (simp add: still_def)

lemma still_refl [simp]: "still w w"
  by (simp add: still_same)

lemma still_trans: "still w w1 \<Longrightarrow> still w1 w' \<Longrightarrow> still w w'"
  by (force simp: still_def)

lemma still_says: "still w w' \<Longrightarrow> said p fd w w' []"
  by (auto simp: still_def said_def messages_sent_log)

lemma said_trans: "said p fd w w1 ms \<Longrightarrow> said p fd w1 w' ms' \<Longrightarrow> said p fd w w' (ms @ ms')"
  by (force simp: said_def)

lemma said_reply: "p = self_pid w \<Longrightarrow> fd = client_sockfd c \<Longrightarrow> said p fd w (reply c s w) [s]"
  by (simp add: said_def)

lemma said_then_reply:
  "said p fd w w1 ms \<Longrightarrow> p = self_pid w1 \<Longrightarrow> fd = client_sockfd c \<Longrightarrow> said p fd w (reply c s w1) (ms @ [s])"
  using said_trans said_reply by blast

section \<open>The contract\<close>

text \<open>
  A command ends with a complete dialogue, or silently with one child that owes it.
\<close>

definition dialogue :: "connection_t \<Rightarrow> world \<Rightarrow> world \<Rightarrow> bool" where
  "dialogue c w w' \<longleftrightarrow>
     (\<exists>ms. said (self_pid w) (client_sockfd c) w w' ms \<and>
        (complete_dialogue ms \<and> jobs w' = jobs w \<or>
         ms = [] \<and> (\<exists>j. jobs w' = jobs w @ [j] \<and> job_ready j \<and> same_peer c (job_connection j))))"

lemma dialogue_reply:
  assumes "still w w1" "client_sockfd c' = client_sockfd c" "final_reply s"
  shows "dialogue c w (reply c' s w1)"
proof -
  have w1: "self_pid w1 = self_pid w" "jobs w1 = jobs w" using assms(1) by (simp_all add: still_def)
  have "said (self_pid w) (client_sockfd c) w (reply c' s w1) ([] @ [s])"
    using still_says [OF assms(1)] w1 assms(2) by (intro said_then_reply) auto
  then show ?thesis
    using w1 complete_single [OF assms(3)] unfolding dialogue_def by (intro exI [of _ "[s]"]) simp
qed

lemma dialogue_after:
  assumes "still w w1" "dialogue c w1 w2" "still w2 w'"
  shows "dialogue c w w'"
proof -
  have s: "self_pid w1 = self_pid w" "jobs w1 = jobs w" "self_pid w' = self_pid w2" "jobs w' = jobs w2"
    using assms(1,3) by (simp_all add: still_def)
  obtain ms where ms: "said (self_pid w1) (client_sockfd c) w1 w2 ms"
    "complete_dialogue ms \<and> jobs w2 = jobs w1 \<or>
      ms = [] \<and> (\<exists>j. jobs w2 = jobs w1 @ [j] \<and> job_ready j \<and> same_peer c (job_connection j))"
    using assms(2) by (auto simp: dialogue_def)
  have "said (self_pid w) (client_sockfd c) w w' (([] @ ms) @ [])"
    using said_trans [OF said_trans [OF still_says [OF assms(1)] ms(1)] still_says [OF assms(3)]] s
    by simp
  with ms(2) s show ?thesis unfolding dialogue_def by (intro exI [of _ ms]) simp
qed

lemmas dialogue_now = dialogue_reply [OF still_refl]

locale replying_handler = answering_handler +
  assumes replied:
    "handle cmd c w = Inr (st, c', w') \<Longrightarrow> st \<noteq> COMMAND_QUIT \<Longrightarrow> args_match cmd \<Longrightarrow>
     stream c \<noteq> None \<Longrightarrow> plain_directory c \<Longrightarrow> dialogue c w w'"
    and quits_silently:
      "handle cmd c w = Inr (COMMAND_QUIT, c', w') \<Longrightarrow> still w w'"

section \<open>The handlers that reply themselves\<close>

interpretation user_replies: replying_handler user_command
  by unfold_locales (auto simp: user_command_def Let_def split: if_splits intro!: dialogue_now)

interpretation pass_replies: replying_handler pass_command
  by unfold_locales (auto simp: pass_command_cases split: if_splits option.splits intro!: dialogue_now)

interpretation quit_replies: replying_handler quit_command
  by unfold_locales (auto simp: quit_command_def)

interpretation noop_replies: replying_handler noop_command
  by unfold_locales (auto simp: noop_command_def split: if_splits intro!: dialogue_now)

lemma help_says:
  "dialogue c w (reply c msg_help_end (reply c msg_help_list (reply c msg_help_start w)))"
proof -
  have "said (self_pid w) (client_sockfd c) w
      (reply c msg_help_end (reply c msg_help_list (reply c msg_help_start w)))
      (([msg_help_start] @ [msg_help_list]) @ [msg_help_end])"
    by (intro said_then_reply said_reply) simp_all
  then show ?thesis unfolding dialogue_def using help_dialogue
    by (intro exI [of _ "[msg_help_start, msg_help_list, msg_help_end]"]) simp
qed

interpretation help_replies: replying_handler help_command
  by unfold_locales
    (auto simp: help_command_def Let_def split: if_splits intro!: dialogue_now help_says)

interpretation pwd_replies: replying_handler pwd_command
  by unfold_locales (auto simp: pwd_command_def split: if_splits intro!: dialogue_now final_pwd)

interpretation type_replies: replying_handler type_command
  by unfold_locales
    (auto simp: type_command_def change_type_def Let_def split: if_splits option.splits
      intro!: dialogue_now)

lemma change_dir_replies:
  "change_dir c path w = Inr (st, c', w') \<Longrightarrow> dialogue c w w' \<and> st \<noteq> COMMAND_QUIT"
  by (auto simp: change_dir_cases Let_def split: if_splits option.splits
      intro!: dialogue_reply still_same)

interpretation cwd_replies: replying_handler cwd_command
  by unfold_locales
    (auto simp: cwd_command_def split: if_splits option.splits
      dest: change_dir_replies intro!: dialogue_now)

interpretation cdup_replies: replying_handler cdup_command
  by unfold_locales
    (auto simp: cdup_command_def split: if_splits dest: change_dir_replies intro!: dialogue_now)

interpretation dele_replies: replying_handler dele_command
  by unfold_locales
    (auto simp: dele_command_def delete_file_cases Let_def split: if_splits option.splits
      intro!: dialogue_reply still_same)

interpretation pasv_replies: replying_handler "pasv_command os" for os
proof unfold_locales
  fix cmd c w st c' w'
  assume "pasv_command os cmd c w = Inr (st, c', w')"
  then show "dialogue c w w'"
    using setup_passive_quiet [of w os]
    by (auto simp: pasv_command_def create_passive_data_socket_def Let_def case_prod_beta
        split_port_def split: if_splits option.splits
        intro!: dialogue_reply final_passive still_quiet quiet_log)
next
  fix cmd c w c' w'
  assume "pasv_command os cmd c w = Inr (COMMAND_QUIT, c', w')"
  then show "still w w'"
    by (auto simp: pasv_command_def create_passive_data_socket_def Let_def case_prod_beta
        split: if_splits option.splits)
qed

interpretation port_replies: replying_handler "port_command os" for os
proof unfold_locales
  fix cmd c w st c' w'
  assume "port_command os cmd c w = Inr (st, c', w')"
  then show "dialogue c w w'"
    using setup_active_quiet [of w os]
    by (auto simp: port_command_def create_active_data_socket_def Let_def case_prod_beta
        split: if_splits option.splits intro!: dialogue_reply still_quiet quiet_log)
next
  fix cmd c w c' w'
  assume "port_command os cmd c w = Inr (COMMAND_QUIT, c', w')"
  then show "still w w'"
    by (auto simp: port_command_def create_active_data_socket_def Let_def case_prod_beta
        split: if_splits option.splits)
qed

section \<open>The handlers that start a child\<close>

lemma spawned_dialogue:
  assumes "stream c \<noteq> None" "e = Execute_ls_command \<or> argv0 cmd \<noteq> None"
  shows "dialogue c w (spawned os c ds e cmd failed w)"
proof -
  have "dialogue c w (w\<lparr>jobs := jobs w @ [forked os (c\<lparr>data_socket := Some ds\<rparr>) e cmd w]\<rparr>)"
    using assms by (auto simp: dialogue_def job_ready_def said_def)
  then show ?thesis
    by (auto simp: spawned_def intro!: dialogue_now dialogue_reply still_quiet)
qed

lemma execute_data_socket_dialogue:
  assumes r: "execute_data_socket_command os c e cmd w = Inr (st, c', w')"
    and "stream c \<noteq> None" "e = Execute_ls_command \<or> argv0 cmd \<noteq> None"
  shows "dialogue c w w'"
proof -
  from r obtain ds where ds: "data_socket c = Some ds"
    by (auto simp: execute_data_socket_command_def split: option.splits)
  from r ds obtain n ds1 w1 where est: "establish_data_socket_connection os ds w = Inr (n, ds1, w1)"
    by (auto simp: execute_data_socket_command_def split: sum.splits)
  have q1: "still w w1" by (rule still_quiet [OF establish_quiet [OF est]])
  from r have d: "destroy_data_socket (Some ds1) True (spawned os c ds1 e cmd (n = -1) w1) = Inr w'"
    unfolding execute_data_socket_cases [OF ds est] by (auto split: sum.splits)
  have q2: "still (spawned os c ds1 e cmd (n = -1) w1) w'"
    by (rule still_quiet [OF destroy_data_socket_quiet [OF d, THEN conjunct1]])
  show ?thesis by (rule dialogue_after [OF q1 spawned_dialogue [OF assms(2,3)] q2])
qed

lemma execute_data_socket_status:
  "execute_data_socket_command os c e cmd w \<noteq> Inr (COMMAND_QUIT, c', w')"
  using execute_data_socket_contract [of os c e cmd w COMMAND_QUIT c' w'] by auto

lemma check_file_exists_says:
  "check_file_exists c path w = (r, w') \<Longrightarrow> if r = -1 then dialogue c w w' else still w w'"
  by (auto simp: check_file_exists_def Let_def split: if_splits intro!: dialogue_reply still_same)

lemma list_check_says:
  "list_check c cmd w = Inr (failed, w') \<Longrightarrow> if failed then dialogue c w w' else still w w'"
  by (auto simp: list_check_def list_check_exists_def check_directory_access_def
      Let_def case_prod_beta split: if_splits option.splits sum.splits intro!: dialogue_reply still_same)

lemma checked_dialogue: "still w w1 \<Longrightarrow> dialogue c w1 w' \<Longrightarrow> dialogue c w w'"
  by (rule dialogue_after [OF _ _ still_refl])

interpretation retr_replies: replying_handler "retr_command os" for os
proof unfold_locales
  fix cmd c w st c' w'
  assume "retr_command os cmd c w = Inr (st, c', w')" and "stream c \<noteq> None"
  then show "dialogue c w w'"
    by (auto simp: retr_command_def Let_def split: if_splits option.splits prod.splits
        intro!: dialogue_now dest!: check_file_exists_says
        intro: checked_dialogue [OF _ execute_data_socket_dialogue])
next
  fix cmd c w c' w'
  assume "retr_command os cmd c w = Inr (COMMAND_QUIT, c', w')"
  then show "still w w'"
    using execute_data_socket_status
    by (auto simp: retr_command_def Let_def split: if_splits option.splits prod.splits)
qed

interpretation stor_replies: replying_handler "stor_command os" for os
proof unfold_locales
  fix cmd c w st c' w'
  assume r: "stor_command os cmd c w = Inr (st, c', w')" and "args_match cmd" "stream c \<noteq> None"
  then show "dialogue c w w'"
    using argv0_of_argc [of cmd]
    by (auto simp: stor_command_def split: if_splits
        intro: dialogue_now [OF refl final_replies(3)] execute_data_socket_dialogue
        intro!: dialogue_now)
next
  fix cmd c w c' w'
  assume "stor_command os cmd c w = Inr (COMMAND_QUIT, c', w')"
  then show "still w w'"
    using execute_data_socket_status by (auto simp: stor_command_def split: if_splits)
qed

interpretation list_replies: replying_handler "list_command os" for os
proof unfold_locales
  fix cmd c w st c' w'
  assume "list_command os cmd c w = Inr (st, c', w')" and "stream c \<noteq> None"
  then show "dialogue c w w'"
    by (auto simp: list_command_def split: if_splits sum.splits prod.splits
        intro!: dialogue_now dest!: list_check_says
        intro: checked_dialogue [OF _ execute_data_socket_dialogue])
next
  fix cmd c w c' w'
  assume "list_command os cmd c w = Inr (COMMAND_QUIT, c', w')"
  then show "still w w'"
    using execute_data_socket_status
    by (auto simp: list_command_def split: if_splits sum.splits prod.splits)
qed

section \<open>The dispatcher\<close>

lemmas replying_axioms =
  user_replies.replying_handler_axioms pass_replies.replying_handler_axioms
  cwd_replies.replying_handler_axioms cdup_replies.replying_handler_axioms
  quit_replies.replying_handler_axioms dele_replies.replying_handler_axioms
  pwd_replies.replying_handler_axioms pasv_replies.replying_handler_axioms
  port_replies.replying_handler_axioms help_replies.replying_handler_axioms
  noop_replies.replying_handler_axioms retr_replies.replying_handler_axioms
  stor_replies.replying_handler_axioms list_replies.replying_handler_axioms
  type_replies.replying_handler_axioms

lemma command_handlers_reply: "list_all (\<lambda>(n, h). replying_handler h) (command_handlers os)"
  by (simp add: command_handlers_def replying_axioms)

lemma execute_command_dialogue:
  assumes e: "execute_command os cmd c w = Inr (st, c', w')" and "stream c \<noteq> None" "plain_directory c"
    and wf: "\<And>command. cmd = Some command \<Longrightarrow> args_match command"
  shows "if st = COMMAND_QUIT then still w w' else dialogue c w w'"
proof -
  from e consider "st = COMMAND_NOT_FOUND" "w' = not_found_message c w"
    | k n h where "cmd = Some k" "(n, h) \<in> set (command_handlers os)"
        "h (k\<lparr>name := touppercase (name k)\<rparr>) c w = Inr (st, c', w')"
    by (auto simp: execute_command_def get_command_handler_def Let_def
        split: option.splits dest: find_handler_mem)
  then show ?thesis
  proof cases
    case 1
    then show ?thesis by (auto simp: not_found_message_def intro!: dialogue_now)
  next
    case 2
    have "replying_handler h" using command_handlers_reply [of os] 2(2) by (auto simp: list_all_iff)
    moreover have "args_match (k\<lparr>name := touppercase (name k)\<rparr>)"
      using wf [OF 2(1)] by (simp add: args_match_def)
    ultimately show ?thesis
      using 2(3) assms(2,3) replying_handler.replied replying_handler.quits_silently
      by (cases "st = COMMAND_QUIT") auto
  qed
qed

section \<open>The child\<close>

text \<open>The data connection of a child is not its control connection.\<close>

definition apart :: "connection_t \<Rightarrow> bool" where
  "apart c \<longleftrightarrow> (case data_socket c of None \<Rightarrow> True | Some ds \<Rightarrow> ds_client_sockfd ds \<noteq> client_sockfd c)"

lemma said_elsewhere:
  "g \<noteq> fd \<Longrightarrow> said p fd w (send_chunks g d w) []"
proof -
  have "messages_sent p fd (map (Sent q g) ls) = []" if "g \<noteq> fd" for q ls
    using that by (induction ls) auto
  then show "g \<noteq> fd \<Longrightarrow> ?thesis" by (auto simp: said_def send_chunks_eq)
qed

lemma said_same: "trace w' = trace w \<Longrightarrow> said p fd w w' []"
  by (simp add: said_def)

lemma said_quietly: "said p fd w w1 [] \<Longrightarrow> trace w' = trace w1 \<Longrightarrow> said p fd w w' []"
  by (simp add: said_def)

text \<open>A child's messages: a final reply, or a preliminary one and a final one.\<close>

definition replies_in_full :: "connection_t \<Rightarrow> world \<Rightarrow> world \<Rightarrow> bool" where
  "replies_in_full c w w' \<longleftrightarrow>
     self_pid w' = self_pid w \<and>
     (\<exists>ms. said (self_pid w) (client_sockfd c) w w' ms \<and> complete_dialogue ms)"

lemma in_full_single:
  assumes "still w w1" "final_reply s"
  shows "replies_in_full c w (reply c s w1)"
proof -
  have "said (self_pid w) (client_sockfd c) w (reply c s w1) ([] @ [s])"
    using still_says [OF assms(1)] assms(1) by (intro said_then_reply) (auto simp: still_def)
  then show ?thesis
    using complete_single [OF assms(2)] assms(1) unfolding replies_in_full_def still_def
    by (auto intro!: exI [of _ "[s]"])
qed

lemma in_full_pair:
  assumes "still w w1" "preliminary_reply p" "said (self_pid w) (client_sockfd c) (reply c p w1) w2 []"
    "self_pid w2 = self_pid w" "final_reply s"
  shows "replies_in_full c w (reply c s w2)"
proof -
  have p: "self_pid w1 = self_pid w" using assms(1) by (simp add: still_def)
  have "said (self_pid w) (client_sockfd c) w (reply c p w1) ([] @ [p])"
    using still_says [OF assms(1)] p by (intro said_then_reply) auto
  then have "said (self_pid w) (client_sockfd c) w (reply c s w2) ((([] @ [p]) @ []) @ [s])"
    using said_trans [OF _ assms(3)] assms(4) by (intro said_then_reply) auto
  then show ?thesis
    using complete_preliminary [OF assms(2,5)] assms(4) unfolding replies_in_full_def
    by (auto intro!: exI [of _ "[p, s]"])
qed

lemma execute_retr_in_full:
  assumes "execute_retr_command c cmd w = Inr (st, w')" "apart c"
  shows "replies_in_full c w w'"
proof -
  obtain path ds where a: "argv0 cmd = Some path" "data_socket c = Some ds"
    using assms(1) by (auto simp: execute_retr_command_def split: option.splits)
  let ?w1 = "snd (chdir (srv_path (server c)) (snd (chdir_ptr (working_directory c) (reply c msg_opening w))))"
  have 1: "said p fd (reply c msg_opening w) ?w1 []" for p fd by (rule said_same) simp
  have 2: "said p (client_sockfd c) ?w1 (send_chunks (ds_client_sockfd ds) d ?w1) []" for p d
    using assms(2) a(2) by (intro said_elsewhere) (simp add: apart_def)
  have 3: "said p fd ?w1 (perror ''fopen'' ?w1) []" for p fd by (rule still_says [OF still_quiet]) simp
  show ?thesis
    using assms(1) a said_trans [OF 1 2] said_trans [OF 1 3]
    by (auto simp: execute_retr_command_def Let_def send_chunks_grows split: option.splits
        intro!: in_full_pair [of w w msg_opening])
qed

lemma execute_stor_in_full:
  assumes "execute_stor_command os c cmd w = Inr (st, w')"
  shows "replies_in_full c w w'"
proof -
  have failed: "replies_in_full c w (reply c msg_local_error (reply c msg_opening w))"
    by (rule in_full_pair [of w w msg_opening]) (simp_all add: said_same)
  have stored: "replies_in_full c w (reply c msg_complete w2)"
    if "transfer_file_data os q g (reply c msg_opening (w\<lparr>fsys := fs\<rparr>)) = Inr (r, w2)" for q g fs r w2
    using transfer_file_data_quiet [OF that]
    by (intro in_full_pair [of w "w\<lparr>fsys := fs\<rparr>" msg_opening]) (simp_all add: said_same still_same)
  show ?thesis
    using assms failed stored
    by (auto simp: execute_stor_command_def Let_def split: option.splits prod.splits sum.splits)
qed

lemma execute_ls_in_full:
  assumes "execute_ls_command os c cmd w = Inr (st, w')" "apart c"
  shows "replies_in_full c w w'"
proof -
  obtain st1 w1 where g: "goto_path c cmd w = (st1, w1)" by fastforce
  show ?thesis
  proof (cases "st1 = COMMAND_FAILURE")
    case True
    with g assms(1) have "w' = w1" by (simp add: execute_ls_command_def)
    with g True show ?thesis
      by (auto simp: goto_path_def Let_def case_prod_beta split: if_splits
          intro!: in_full_single still_same)
  next
    case False
    then have s: "still w w1"
      using g by (auto simp: goto_path_def Let_def case_prod_beta split: if_splits intro!: still_same)
    then have p: "self_pid w1 = self_pid w" by (simp add: still_def)
    have f: "replies_in_full c w (reply c msg_local_error (perror ''popen'' w1))"
      by (rule in_full_single [OF still_trans [OF s still_quiet]]) simp_all
    have "replies_in_full c w (reply c msg_list_ok (snd (chdir (srv_path (server c))
        (send_chunks (ds_client_sockfd ds) l (reply c msg_list_start w1)))))"
      if "data_socket c = Some ds" for ds l
    proof (rule in_full_pair [OF s, of msg_list_start])
      have "said p (client_sockfd c) v (send_chunks (ds_client_sockfd ds) l v) []" for p v
        using assms(2) that by (intro said_elsewhere) (simp add: apart_def)
      then show "said (self_pid w) (client_sockfd c) (reply c msg_list_start w1)
          (snd (chdir (srv_path (server c))
            (send_chunks (ds_client_sockfd ds) l (reply c msg_list_start w1)))) []"
        by (rule said_quietly) simp
    qed (simp_all add: p send_chunks_grows)
    with f g False assms(1) show ?thesis
      by (auto simp: execute_ls_command_def list_directory_def Let_def split: option.splits)
  qed
qed

lemma run_execution_in_full:
  assumes "run_execution os e c cmd w = Inr (st, w')" "apart c"
  shows "replies_in_full c w w'"
  using assms execute_retr_in_full execute_stor_in_full execute_ls_in_full
  by (cases e) (auto simp: run_execution_def)

lemma child_in_full:
  assumes "run_job os j w = Inr w'" "apart (job_connection j)"
  shows "\<exists>ms. said (job_pid j) (client_sockfd (job_connection j)) w w' ms \<and> complete_dialogue ms"
proof -
  let ?c = "job_connection j"
  let ?w0 = "w\<lparr>self_pid := job_pid j, cwd := job_cwd j, open_fds := job_fds j\<rparr>"
  obtain st w1 w3 where e: "run_execution os (job_execution j) ?c (job_command j) ?w0 = Inr (st, w1)"
    and d: "destroy_connection ?c False (close (srv_sockfd (server ?c)) w1) = Inr w3"
    and w': "w' = w3\<lparr>self_pid := self_pid w, cwd := cwd w, open_fds := open_fds w\<rparr>"
    using assms(1)
    by (auto simp: run_job_def child_main_def Let_def map_sum_def split: sum.splits)
  obtain ms where ms: "said (job_pid j) (client_sockfd ?c) ?w0 w1 ms" "complete_dialogue ms"
    using run_execution_in_full [OF e assms(2)] by (auto simp: replies_in_full_def)
  have "still w1 w3"
    using quiet_trans [OF quiet_steps(3) destroy_connection_quiet [OF d]] by (rule still_quiet)
  from said_trans [OF ms(1) still_says [OF this]]
  have "said (job_pid j) (client_sockfd ?c) ?w0 w3 ms" by simp
  then have "said (job_pid j) (client_sockfd ?c) w w' ms" by (simp add: said_def w')
  with ms(2) show ?thesis by blast
qed

section \<open>One line of input\<close>

lemma dialogue_of_line:
  assumes read: "read_socket c w = Inr (Line l, c1, w1)"
    and run: "handle_connection os (client_sockfd c) c w = Inr (Some (fd', c', w'))"
    and plain: "plain_directory c1"
  shows "dialogue c1 w w'"
proof -
  note keeps = line_read_keeps [OF read]
  from run obtain st c2 w2 where h: "handle_client_command os c w = Inr (Some (st, c2, w2))"
    by (auto simp: handle_connection_def split: sum.splits option.splits)
  with read obtain a cmd where
    p: "parse_buffer (os_malloc os (printf (log_command a l) w1)) l = Inr cmd"
    and e: "execute_command os cmd c1 (printf (log_command a l) w1) = Inr (st, c2, w2)"
    by (auto simp: handle_client_command_def Let_def map_sum_def split: option.splits sum.splits)
  let ?w0 = "printf (log_command a l) w1"
  have s0: "still w ?w0" using keeps by (simp add: still_def)
  have "args_match command" if "cmd = Some command" for command
    using parse_buffer_cases_wf [OF p [unfolded that]] by (simp add: args_match_def wf_command_def)
  from execute_command_dialogue [OF e keeps(2) plain this]
  have d: "if st = COMMAND_QUIT then still ?w0 w2 else dialogue c1 ?w0 w2" .
  show ?thesis
  proof (cases "st = COMMAND_QUIT")
    case True
    with run h obtain w3 where w': "w' = close (client_sockfd c) w3"
      and q: "destroy_connection c2 True (dprintf (client_sockfd c) msg_closing w2) = Inr w3"
      by (auto simp: handle_connection_def Let_def split: sum.splits)
    have "dialogue c1 w (reply c1 msg_closing w2)"
      using still_trans [OF s0] d True by (intro dialogue_reply) simp_all
    moreover have "reply c1 msg_closing w2 = dprintf (client_sockfd c) msg_closing w2"
      using keeps by (simp add: reply_def)
    moreover have "still (dprintf (client_sockfd c) msg_closing w2) w'"
      unfolding w' using destroy_connection_quiet [OF q]
      by (intro still_quiet quiet_log) simp
    ultimately show ?thesis using dialogue_after [OF still_refl] by simp
  next
    case False
    with d run h show ?thesis
      using dialogue_after [OF s0 _ still_refl] by (simp add: handle_connection_def)
  qed
qed

section \<open>Properties\<close>

text \<open>
  Property C8: answers have the form of RFC 959.  When the handling of a line of a client, whose
  directory has no line breaks in its name, has come to its end, what the server has sent to that
  client is one complete dialogue: at most one preliminary reply and exactly one final reply.  Or it
  has sent nothing and started one child for it; and a child that comes to its end has sent one
  complete dialogue, whatever happened around it.  The one way for it not to come to its end, where
  writes return, is an upload that the client does not end: no other call waits, and nothing in it is
  undefined.
\<close>

theorem one_dialogue_per_line:
  assumes "read_socket c w = Inr (Line l, c1, w1)"
    and "handle_connection os (client_sockfd c) c w = Inr (Some (fd', c', w'))"
    and "plain_directory c1"
  shows "(\<exists>ms. said (self_pid w) (client_sockfd c) w w' ms \<and> complete_dialogue ms \<and> jobs w' = jobs w) \<or>
    said (self_pid w) (client_sockfd c) w w' [] \<and>
    (\<exists>j. jobs w' = jobs w @ [j] \<and> client_sockfd (job_connection j) = client_sockfd c \<and>
      (\<forall>os v. case run_job os j v of
         Inl f \<Rightarrow> waits_for_upload os (job_execution j) (job_connection j) f
       | Inr v' \<Rightarrow> apart (job_connection j) \<longrightarrow>
           (\<exists>ms. said (job_pid j) (client_sockfd c) v v' ms \<and> complete_dialogue ms)))"
proof -
  note keeps = line_read_keeps [OF assms(1)]
  from dialogue_of_line [OF assms] obtain ms where
    ms: "said (self_pid w) (client_sockfd c) w w' ms"
    and m: "complete_dialogue ms \<and> jobs w' = jobs w \<or>
      ms = [] \<and> (\<exists>j. jobs w' = jobs w @ [j] \<and> job_ready j \<and> same_peer c1 (job_connection j))"
    using keeps by (auto simp: dialogue_def)
  from m show ?thesis
  proof
    assume "ms = [] \<and> (\<exists>j. jobs w' = jobs w @ [j] \<and> job_ready j \<and> same_peer c1 (job_connection j))"
    then obtain j where j: "ms = []" "jobs w' = jobs w @ [j]" "job_ready j"
      "same_peer c1 (job_connection j)" by blast
    then have fd: "client_sockfd (job_connection j) = client_sockfd c"
      using keeps by (simp add: same_peer_def)
    have "case run_job os j v of
         Inl f \<Rightarrow> waits_for_upload os (job_execution j) (job_connection j) f
       | Inr v' \<Rightarrow> apart (job_connection j) \<longrightarrow>
           (\<exists>ms. said (job_pid j) (client_sockfd c) v v' ms \<and> complete_dialogue ms)" for os v
      using child_speaks [OF j(3), of os v] child_in_full [of os j v] fd
      by (cases "run_job os j v") auto
    with ms j(1,2) fd show ?thesis by blast
  qed (use ms in blast)
qed

theorem one_dialogue_per_line_witness:
  "\<exists>w' ms. handle_connection demo_os 4 demo_conn demo_noop_world = Inr (Some (4, demo_conn, w')) \<and>
    said (self_pid demo_noop_world) 4 demo_noop_world w' ms \<and> complete_dialogue ms"
proof -
  obtain w' where h: "handle_connection demo_os 4 demo_conn demo_noop_world = Inr (Some (4, demo_conn, w'))"
    and j: "jobs w' = []" using demo_noop_handled by blast
  have c: "client_sockfd demo_conn = 4" by (simp add: demo_conn_def)
  have p: "plain_directory demo_conn" by code_simp
  have "jobs w' \<noteq> jobs demo_noop_world @ [k]" for k using j by simp
  with one_dialogue_per_line [OF demo_noop_read _ p, of demo_os 4 demo_conn w'] h c
  show ?thesis by auto
qed

end
