(* ===== verification/Transfer_Flow.thy ===== *)
theory Transfer_Flow
  imports Client_Properties
begin

text \<open>
  GET against RETR when the data connection can hold a limited number of bytes.  The other theories
  run the child of RETR and the client one after the other, as if a write never blocked.  Here the
  writes of the child (the events it leaves in its trace) and the reads of the client are the steps
  of a transition system with a buffer between them.  The child writes its first reply, the file,
  and its second reply; \<open>check_get_response\<close> of the client wants both replies before the client
  reads the file.
\<close>

section \<open>The transition system\<close>

record flow =
  to_write :: "event list"      \<comment> \<open>what the child still has to write\<close>
  control_in :: "string list"   \<comment> \<open>packets that have arrived on the control connection\<close>
  buffered :: string            \<comment> \<open>bytes in the data connection\<close>
  read_off :: string            \<comment> \<open>bytes the client has read from it\<close>

definition flow_start :: "event list \<Rightarrow> flow" where
  "flow_start es = \<lparr>to_write = es, control_in = [], buffered = [], read_off = []\<rparr>"

text \<open>
  The client reads data once \<open>check_get_response\<close> has succeeded on the packets that have arrived; on
  fewer packets it waits.
\<close>

definition past_replies :: "client_env \<Rightarrow> int \<Rightarrow> world \<Rightarrow> string list \<Rightarrow> bool" where
  "past_replies env fd w packets \<longleftrightarrow>
     (case check_get_response env fd (w\<lparr>net_in := (net_in w)(fd := packets)\<rparr>) of
        Done st _ \<Rightarrow> st = COMMAND_SUCCESS
      | _ \<Rightarrow> False)"

text \<open>
  One step: the child writes a reply, a byte of the file if there is room, or is done with a write;
  or the client reads a byte.  \<open>fd\<close> is the child's control descriptor, \<open>dfd\<close> its data descriptor,
  \<open>cap\<close> what the data connection can hold.
\<close>

inductive flow_step :: "nat \<Rightarrow> int \<Rightarrow> int \<Rightarrow> (string list \<Rightarrow> bool) \<Rightarrow> flow \<Rightarrow> flow \<Rightarrow> bool"
  for cap :: nat and fd dfd :: int and past :: "string list \<Rightarrow> bool"
where
  write_reply:
    "to_write s = Sent p fd m # es \<Longrightarrow>
     flow_step cap fd dfd past s (s\<lparr>to_write := es, control_in := control_in s @ [m]\<rparr>)"
| write_byte:
    "to_write s = Sent p dfd (b # bs) # es \<Longrightarrow> length (buffered s) < cap \<Longrightarrow>
     flow_step cap fd dfd past s (s\<lparr>to_write := Sent p dfd bs # es, buffered := buffered s @ [b]\<rparr>)"
| write_end:
    "to_write s = Sent p dfd [] # es \<Longrightarrow> flow_step cap fd dfd past s (s\<lparr>to_write := es\<rparr>)"
| read_byte:
    "past (control_in s) \<Longrightarrow> buffered s = b # bs \<Longrightarrow>
     flow_step cap fd dfd past s (s\<lparr>buffered := bs, read_off := read_off s @ [b]\<rparr>)"

abbreviation flow_run :: "nat \<Rightarrow> int \<Rightarrow> int \<Rightarrow> (string list \<Rightarrow> bool) \<Rightarrow> flow \<Rightarrow> flow \<Rightarrow> bool" where
  "flow_run cap fd dfd past \<equiv> (flow_step cap fd dfd past)\<^sup>*\<^sup>*"

definition stuck :: "nat \<Rightarrow> int \<Rightarrow> int \<Rightarrow> (string list \<Rightarrow> bool) \<Rightarrow> flow \<Rightarrow> bool" where
  "stuck cap fd dfd past s \<longleftrightarrow> (\<nexists>s'. flow_step cap fd dfd past s s')"

section \<open>Every run ends\<close>

fun work :: "event list \<Rightarrow> nat" where
  "work [] = 0"
| "work (Sent p fd s # es) = 2 * length s + 1 + work es"
| "work (e # es) = work es"

definition flow_measure :: "flow \<Rightarrow> nat" where
  "flow_measure s = work (to_write s) + length (buffered s)"

lemma flow_step_decreases: "flow_step cap fd dfd past s s' \<Longrightarrow> flow_measure s' < flow_measure s"
  by (induction rule: flow_step.induct) (simp_all add: flow_measure_def)

lemma flow_terminates: "wfP (flow_step cap fd dfd past)\<inverse>\<inverse>"
  by (rule wfp_if_convertible_to_nat [where f = flow_measure]) (auto dest: flow_step_decreases)

lemma flow_gets_stuck: "\<exists>s'. flow_run cap fd dfd past s s' \<and> stuck cap fd dfd past s'"
proof (induction "flow_measure s" arbitrary: s rule: less_induct)
  case less
  show ?case
  proof (cases "stuck cap fd dfd past s")
    case False
    then obtain s1 where s1: "flow_step cap fd dfd past s s1" by (auto simp: stuck_def)
    from less [OF flow_step_decreases [OF s1]] obtain s2
      where "flow_run cap fd dfd past s1 s2" "stuck cap fd dfd past s2" by blast
    with s1 show ?thesis by (blast intro: converse_rtranclp_into_rtranclp)
  qed blast
qed

section \<open>The phases of a transfer\<close>

text \<open>
  Nothing written; the file being written and nothing of it read, because the second reply is
  still to come; everything written, and then the data connection has held the whole file.
\<close>

definition transfer_events :: "int \<Rightarrow> int \<Rightarrow> int \<Rightarrow> string \<Rightarrow> string list \<Rightarrow> string \<Rightarrow> event list" where
  "transfer_events p fd dfd m cs n =
     Sent p fd m # map (Sent p dfd) cs @ [Sent p fd n]"

inductive transfer_phase ::
    "nat \<Rightarrow> int \<Rightarrow> int \<Rightarrow> int \<Rightarrow> string \<Rightarrow> string list \<Rightarrow> string \<Rightarrow> flow \<Rightarrow> bool"
  for cap :: nat and p fd dfd :: int and m :: string and cs :: "string list" and n :: string
where
  nothing_written:
    "transfer_phase cap p fd dfd m cs n (flow_start (transfer_events p fd dfd m cs n))"
| writing:
    "buf @ concat ds = concat cs \<Longrightarrow> length buf \<le> cap \<Longrightarrow>
     transfer_phase cap p fd dfd m cs n
       \<lparr>to_write = map (Sent p dfd) ds @ [Sent p fd n], control_in = [m], buffered = buf, read_off = []\<rparr>"
| all_written:
    "got @ buf = concat cs \<Longrightarrow> length (concat cs) \<le> cap \<Longrightarrow>
     transfer_phase cap p fd dfd m cs n
       \<lparr>to_write = [], control_in = [m, n], buffered = buf, read_off = got\<rparr>"

lemma transfer_phase_step:
  assumes "transfer_phase cap p fd dfd m cs n s" "flow_step cap fd dfd past s s'"
    and "fd \<noteq> dfd" "\<not> past []" "\<not> past [m]"
  shows "transfer_phase cap p fd dfd m cs n s'"
  using assms(1)
proof cases
  case nothing_written
  from assms(2) show ?thesis
  proof (cases rule: flow_step.cases)
    case (write_reply q k es)
    then have "s' = \<lparr>to_write = map (Sent p dfd) cs @ [Sent p fd n], control_in = [m],
        buffered = [], read_off = []\<rparr>"
      using nothing_written by (auto simp: flow_start_def transfer_events_def)
    then show ?thesis using writing [of "[]" cs] by simp
  qed (use nothing_written assms(3,4) in \<open>auto simp: flow_start_def transfer_events_def\<close>)
next
  case (writing buf ds)
  show ?thesis
  proof (cases ds)
    case Nil
    from assms(2) show ?thesis
    proof (cases rule: flow_step.cases)
      case (write_reply q k es)
      then have "s' = \<lparr>to_write = [], control_in = [m, n], buffered = buf, read_off = []\<rparr>"
        using writing Nil by simp
      then show ?thesis using all_written [of "[]" buf] writing Nil by simp
    qed (use writing Nil assms(3,5) in auto)
  next
    case (Cons d ds')
    from assms(2) show ?thesis
    proof (cases rule: flow_step.cases)
      case (write_byte q b bs es)
      then have "s' = \<lparr>to_write = map (Sent p dfd) (bs # ds') @ [Sent p fd n], control_in = [m],
          buffered = buf @ [b], read_off = []\<rparr>" and "d = b # bs" "length buf < cap"
        using writing Cons by auto
      then show ?thesis
        using transfer_phase.writing [of "buf @ [b]" "bs # ds'"] writing Cons by simp
    next
      case (write_end q es)
      then have "s' = \<lparr>to_write = map (Sent p dfd) ds' @ [Sent p fd n], control_in = [m],
          buffered = buf, read_off = []\<rparr>" and "d = []"
        using writing Cons by auto
      then show ?thesis using transfer_phase.writing [of buf ds'] writing Cons by simp
    qed (use writing Cons assms(3,5) in auto)
  qed
next
  case (all_written got buf)
  from assms(2) show ?thesis
  proof (cases rule: flow_step.cases)
    case (read_byte b bs)
    then have "s' = \<lparr>to_write = [], control_in = [m, n], buffered = bs, read_off = got @ [b]\<rparr>"
      and "buf = b # bs" using all_written by auto
    then show ?thesis using transfer_phase.all_written [of "got @ [b]" bs] all_written by simp
  qed (use all_written in auto)
qed

lemma transfer_phase_run:
  assumes "flow_run cap fd dfd past (flow_start (transfer_events p fd dfd m cs n)) s"
    and "fd \<noteq> dfd" "\<not> past []" "\<not> past [m]"
  shows "transfer_phase cap p fd dfd m cs n s"
  using assms(1)
proof (induction rule: rtranclp_induct)
  case base
  show ?case by (rule nothing_written)
next
  case (step s s')
  then show ?case using transfer_phase_step [OF _ _ assms(2-4)] by blast
qed

text \<open>Where a run can end.\<close>

lemma stuck_transfer:
  assumes "transfer_phase cap p fd dfd m cs n s" "stuck cap fd dfd past s" "past [m, n]"
  shows "if length (concat cs) \<le> cap then to_write s = [] \<and> read_off s = concat cs
    else to_write s \<noteq> [] \<and> read_off s = [] \<and> length (buffered s) = cap"
  using assms(1)
proof cases
  case nothing_written
  then have "flow_step cap fd dfd past s (s\<lparr>to_write := map (Sent p dfd) cs @ [Sent p fd n],
      control_in := control_in s @ [m]\<rparr>)"
    by (intro flow_step.write_reply) (simp add: flow_start_def transfer_events_def)
  with assms(2) show ?thesis by (auto simp: stuck_def)
next
  case (writing buf ds)
  have no: "\<not> flow_step cap fd dfd past s s'" for s' using assms(2) by (simp add: stuck_def)
  show ?thesis
  proof (cases ds)
    case Nil
    have "\<exists>s'. flow_step cap fd dfd past s s'"
      by (intro exI, rule flow_step.write_reply) (simp add: writing Nil)
    with no show ?thesis by blast
  next
    case (Cons d ds')
    show ?thesis
    proof (cases d)
      case Nil
      have "\<exists>s'. flow_step cap fd dfd past s s'"
        by (intro exI, rule flow_step.write_end) (simp add: writing Cons Nil)
      with no show ?thesis by blast
    next
      case d: (Cons b bs)
      have "\<exists>s'. flow_step cap fd dfd past s s'" if "length buf < cap"
        by (intro exI, rule flow_step.write_byte) (simp_all add: writing Cons d that)
      with no have "\<not> length buf < cap" by blast
      then have "length buf = cap" using writing by simp
      moreover have "length (concat cs) = length buf + length (concat ds)"
        using writing by (metis length_append)
      ultimately show ?thesis using writing Cons d by simp
    qed
  qed
next
  case (all_written got buf)
  have "buf = []"
  proof (rule ccontr)
    assume "buf \<noteq> []"
    then obtain b bs where "buf = b # bs" by (cases buf) auto
    then have "flow_step cap fd dfd past s (s\<lparr>buffered := bs, read_off := read_off s @ [b]\<rparr>)"
      using all_written assms(3) by (intro flow_step.read_byte) simp_all
    with assms(2) show False by (auto simp: stuck_def)
  qed
  with all_written show ?thesis by simp
qed


section \<open>RETR and GET\<close>

text \<open>Nothing interrupts the client, and the server does not close the control connection.\<close>

definition patient :: "client_env \<Rightarrow> int \<Rightarrow> world \<Rightarrow> bool" where
  "patient env fd w \<longleftrightarrow>
     \<not> net_eof w fd \<and> (\<forall>v. \<not> env_interrupt env v) \<and> (\<forall>v g. os_fdopen (env_os env) v g)"

lemma past_transfer_replies:
  assumes "patient env fd w"
  shows "\<not> past_replies env fd w []" "\<not> past_replies env fd w [msg_opening]"
    "past_replies env fd w [msg_opening, msg_complete]"
proof -
  note p = assms [unfolded patient_def]
  let ?w = "\<lambda>ps. w\<lparr>net_in := (net_in w)(fd := ps)\<rparr>"
  have none: "read_response env fd (?w []) = Waits (?w [])"
    using p by (subst read_response_waits) simp_all
  have one: "read_response env fd (?w (msg_opening # ps)) = Done (Some msg_opening) (?w ps)" for ps
    using p by (subst read_plain_line [where ps = ps]) (simp_all add: transfer_replies)
  have two: "read_response env fd (?w [msg_complete]) = Done (Some msg_complete) (?w [])"
    using p by (subst read_plain_line [where ps = "[]"]) (simp_all add: transfer_replies)
  show "\<not> past_replies env fd w []" "\<not> past_replies env fd w [msg_opening]"
    "past_replies env fd w [msg_opening, msg_complete]"
    by (simp_all add: past_replies_def check_get_response_def none one two transfer_replies)
qed

text \<open>What the child writes is a transfer in the sense of the phases.\<close>

lemma retr_events:
  assumes "retr_source c cmd w ds data" "execute_retr_command c cmd w = Inr (st, w')"
    and "trace w' = trace w @ es"
  shows "es = transfer_events (self_pid w) (client_sockfd c) (ds_client_sockfd ds) msg_opening
    (chunks_of data) msg_complete"
  using execute_retr [OF assms(1)] assms(2,3) by (auto simp: transfer_events_def)

text \<open>A run of the two sides from the start, with a data connection that holds \<open>cap\<close> bytes.\<close>

definition get_run :: "nat \<Rightarrow> connection_t \<Rightarrow> data_socket_t \<Rightarrow> client_env \<Rightarrow> int \<Rightarrow> world \<Rightarrow>
    event list \<Rightarrow> flow \<Rightarrow> bool" where
  "get_run cap c ds env fd v es s \<longleftrightarrow>
     flow_run cap (client_sockfd c) (ds_client_sockfd ds) (past_replies env fd v) (flow_start es) s"

definition get_stuck :: "nat \<Rightarrow> connection_t \<Rightarrow> data_socket_t \<Rightarrow> client_env \<Rightarrow> int \<Rightarrow> world \<Rightarrow>
    flow \<Rightarrow> bool" where
  "get_stuck cap c ds env fd v s \<longleftrightarrow>
     stuck cap (client_sockfd c) (ds_client_sockfd ds) (past_replies env fd v) s"

lemma get_run_phase:
  assumes "retr_source c cmd w ds data" "client_sockfd c \<noteq> ds_client_sockfd ds" "patient env fd v"
    and "execute_retr_command c cmd w = Inr (st, w')" "trace w' = trace w @ es"
    and "get_run cap c ds env fd v es s"
  shows "transfer_phase cap (self_pid w) (client_sockfd c) (ds_client_sockfd ds) msg_opening
    (chunks_of data) msg_complete s"
  using transfer_phase_run [OF _ assms(2) past_transfer_replies(1,2) [OF assms(3)]] assms(6)
  unfolding get_run_def retr_events [OF assms(1,4,5)] by blast

lemma get_run_ends: "\<exists>s. get_run cap c ds env fd v es s \<and> get_stuck cap c ds env fd v s"
  unfolding get_run_def get_stuck_def by (rule flow_gets_stuck)

section \<open>Properties\<close>

text \<open>Property C21: GET of a large file never ends.  When the file is larger than the data connection
  can hold, every run of the child of RETR and of the client comes to a state in which neither can
  go on: the child waits for room to write the file, the client for the second reply, which comes
  after the file.  In no reachable state has the child finished or the client read a byte.\<close>

theorem get_of_large_file_deadlocks:
  assumes "retr_source c cmd w ds data" "client_sockfd c \<noteq> ds_client_sockfd ds" "patient env fd v"
    and "execute_retr_command c cmd w = Inr (st, w')" "trace w' = trace w @ es"
    and "NUL \<notin> set data" "cap < length data"
  shows "(\<exists>s. get_run cap c ds env fd v es s \<and> get_stuck cap c ds env fd v s) \<and>
    (\<forall>s. get_run cap c ds env fd v es s \<longrightarrow> to_write s \<noteq> [] \<and> read_off s = [])"
proof (intro conjI allI impI)
  show "\<exists>s. get_run cap c ds env fd v es s \<and> get_stuck cap c ds env fd v s" by (rule get_run_ends)
  fix s
  assume "get_run cap c ds env fd v es s"
  from get_run_phase [OF assms(1-5) this]
  show "to_write s \<noteq> []" "read_off s = []"
    using assms(7) chunks_of_text [OF assms(6)]
    by (cases; simp add: flow_start_def transfer_events_def)+
qed

text \<open>The client gets \<open>hello\<close> from a server whose data connection holds three bytes.\<close>

definition demo_sender :: connection_t where
  "demo_sender = demo_passive\<lparr>data_socket := Some (demo_ds\<lparr>ds_client_sockfd := 7\<rparr>)\<rparr>"

lemma demo_sender_source:
  "retr_source demo_sender (demo_command ''RETR'' [''/srv/ftp/pub/a'']) demo_world
     (demo_ds\<lparr>ds_client_sockfd := 7\<rparr>) ''hello''"
proof -
  have "fs_fopen_r (fsys demo_world)
      (cwd (snd (chdir_ptr (working_directory demo_sender) demo_world))) ''/srv/ftp/pub/a'' =
    Some ''hello''" by code_simp
  then show ?thesis
    by (simp add: retr_source_def demo_sender_def demo_command_def argv0_def)
qed

lemma demo_patient: "patient demo_env 3 (demo_client_world [] [])"
  by (simp add: patient_def demo_env_def demo_os_def demo_client_world_def)

theorem get_of_large_file_deadlocks_witness:
  "\<exists>es. (\<exists>s. get_run 3 demo_sender (demo_ds\<lparr>ds_client_sockfd := 7\<rparr>) demo_env 3
        (demo_client_world [] []) es s \<and>
      get_stuck 3 demo_sender (demo_ds\<lparr>ds_client_sockfd := 7\<rparr>) demo_env 3 (demo_client_world [] []) s) \<and>
    (\<forall>s. get_run 3 demo_sender (demo_ds\<lparr>ds_client_sockfd := 7\<rparr>) demo_env 3
        (demo_client_world [] []) es s \<longrightarrow> to_write s \<noteq> [] \<and> read_off s = [])"
proof -
  obtain w' es where r: "execute_retr_command demo_sender (demo_command ''RETR'' [''/srv/ftp/pub/a''])
      demo_world = Inr (COMMAND_SUCCESS, w')" "trace w' = trace demo_world @ es"
    using execute_retr [OF demo_sender_source] by blast
  have "client_sockfd demo_sender \<noteq> ds_client_sockfd (demo_ds\<lparr>ds_client_sockfd := 7\<rparr>)"
    by (simp add: demo_sender_def demo_passive_def demo_user_def demo_conn_def)
  from get_of_large_file_deadlocks [OF demo_sender_source this demo_patient r, of 3]
  show ?thesis by (intro exI [of _ es]) simp
qed

text \<open>Property C20: GET of a file that the data connection can hold always ends, and well.  Steps
  cannot go on for ever, some state without a step is reached, and in every such state the child
  has written everything and the client has read exactly the file.\<close>

theorem get_of_small_file_completes:
  assumes "retr_source c cmd w ds data" "client_sockfd c \<noteq> ds_client_sockfd ds" "patient env fd v"
    and "execute_retr_command c cmd w = Inr (st, w')" "trace w' = trace w @ es"
    and "NUL \<notin> set data" "length data \<le> cap"
  shows "wfP (flow_step cap (client_sockfd c) (ds_client_sockfd ds) (past_replies env fd v))\<inverse>\<inverse> \<and>
    (\<exists>s. get_run cap c ds env fd v es s \<and> get_stuck cap c ds env fd v s) \<and>
    (\<forall>s. get_run cap c ds env fd v es s \<longrightarrow> get_stuck cap c ds env fd v s \<longrightarrow>
       to_write s = [] \<and> read_off s = data)"
proof (intro conjI allI impI flow_terminates get_run_ends)
  fix s
  assume r: "get_run cap c ds env fd v es s" and k: "get_stuck cap c ds env fd v s"
  from get_run_phase [OF assms(1-5) r]
  have "if length (concat (chunks_of data)) \<le> cap
      then to_write s = [] \<and> read_off s = concat (chunks_of data)
      else to_write s \<noteq> [] \<and> read_off s = [] \<and> length (buffered s) = cap"
    by (rule stuck_transfer [OF _ k [unfolded get_stuck_def]])
      (rule past_transfer_replies(3) [OF assms(3)])
  then show "to_write s = []" "read_off s = data"
    using assms(7) chunks_of_text [OF assms(6)] by auto
qed

theorem get_of_small_file_completes_witness:
  "\<exists>es s. get_run 5 demo_sender (demo_ds\<lparr>ds_client_sockfd := 7\<rparr>) demo_env 3
      (demo_client_world [] []) es s \<and>
    get_stuck 5 demo_sender (demo_ds\<lparr>ds_client_sockfd := 7\<rparr>) demo_env 3 (demo_client_world [] []) s \<and>
    to_write s = [] \<and> read_off s = ''hello''"
proof -
  obtain w' es where r: "execute_retr_command demo_sender (demo_command ''RETR'' [''/srv/ftp/pub/a''])
      demo_world = Inr (COMMAND_SUCCESS, w')" "trace w' = trace demo_world @ es"
    using execute_retr [OF demo_sender_source] by blast
  have "client_sockfd demo_sender \<noteq> ds_client_sockfd (demo_ds\<lparr>ds_client_sockfd := 7\<rparr>)"
    by (simp add: demo_sender_def demo_passive_def demo_user_def demo_conn_def)
  from get_of_small_file_completes [OF demo_sender_source this demo_patient r, of 5]
  have "(\<exists>s. get_run 5 demo_sender (demo_ds\<lparr>ds_client_sockfd := 7\<rparr>) demo_env 3
        (demo_client_world [] []) es s \<and>
      get_stuck 5 demo_sender (demo_ds\<lparr>ds_client_sockfd := 7\<rparr>) demo_env 3 (demo_client_world [] []) s) \<and>
    (\<forall>s. get_run 5 demo_sender (demo_ds\<lparr>ds_client_sockfd := 7\<rparr>) demo_env 3
        (demo_client_world [] []) es s \<longrightarrow>
      get_stuck 5 demo_sender (demo_ds\<lparr>ds_client_sockfd := 7\<rparr>) demo_env 3 (demo_client_world [] []) s \<longrightarrow>
      to_write s = [] \<and> read_off s = ''hello'')" by simp
  then show ?thesis by blast
qed

end
