(* ===== verification/Concurrent_Transfers.thy ===== *)
theory Concurrent_Transfers
  imports Transfers Demo
begin

text \<open>
  Transfers at the same time.  The children of RETR and STOR run side by side, each in its loop:
  \<open>while (fgets(...)) dprintf(...)\<close> in \<open>commands/retr.c\<close>,
  \<open>while (read != -1) { fwrite(...); read = getline(...); }\<close> in \<open>commands/stor.c\<close>.  The steps of the
  transition system are the iterations of those two loops, taken by the children in any order on
  the same files and connections; its runs are compared with the loops run one child after the other.
  The opens have happened.  Streams may hold back what they read or write; no other process sees
  the difference as long as a file that is stored is nobody else's, which is assumed: two children
  that store the same file each write from their own position, and no order of the two gives that.
\<close>

section \<open>The transition system\<close>

text \<open>
  \<open>Sending pid fd p got\<close>: the child \<open>pid\<close> of a RETR has read \<open>got\<close> of the file \<open>p\<close> and sent it on \<open>fd\<close>.
  \<open>Storing pid fd p rest\<close>: the child \<open>pid\<close> of a STOR has \<open>rest\<close> to write to \<open>p\<close>, of what \<open>fd\<close> brings.
\<close>

datatype activity = Sending int int path string | Storing int int path string

fun target :: "activity \<Rightarrow> path" where
  "target (Sending pid fd p got) = p"
| "target (Storing pid fd p rest) = p"

fun stores :: "activity \<Rightarrow> bool" where
  "stores (Sending pid fd p got) \<longleftrightarrow> False"
| "stores (Storing pid fd p rest) \<longleftrightarrow> True"

text \<open>The process and descriptor a transfer sends on.\<close>

fun channel :: "activity \<Rightarrow> (int \<times> int) option" where
  "channel (Sending pid fd p got) = Some (pid, fd)"
| "channel (Storing pid fd p rest) = None"

definition contents :: "filesys \<Rightarrow> path \<Rightarrow> string" where
  "contents fs p = (case lookup fs p of Some (File r w d) \<Rightarrow> d | _ \<Rightarrow> [])"

text \<open>One iteration of the loop of a child; none when its stream is at the end.\<close>

fun iteration :: "activity \<Rightarrow> world \<Rightarrow> (activity \<times> world) option" where
  "iteration (Sending pid fd p got) w =
     (case fgets 1024 (drop (length got) (contents (fsys w) p)) of
        None \<Rightarrow> None
      | Some (buffer, rest) \<Rightarrow>
          Some (Sending pid fd p (got @ buffer), dprintf fd (c_str buffer) (w\<lparr>self_pid := pid\<rparr>)))"
| "iteration (Storing pid fd p rest) w =
     (case getline rest of
        None \<Rightarrow> None
      | Some (line, rest) \<Rightarrow>
          Some (Storing pid fd p rest, append_file p line (w\<lparr>self_pid := pid\<rparr>)))"

type_synonym transfers = "world \<times> activity list"

inductive io_step :: "transfers \<Rightarrow> transfers \<Rightarrow> bool" where
  "i < length as \<Longrightarrow> iteration (as ! i) w = Some (a, w') \<Longrightarrow> io_step (w, as) (w', as[i := a])"

inductive_cases io_stepE: "io_step s s'"

definition io_done :: "transfers \<Rightarrow> bool" where
  "io_done s \<longleftrightarrow> (\<nexists>s'. io_step s s')"

text \<open>A file that is stored is nobody else's, and no two children send on the same connection.\<close>

definition unshared :: "activity \<Rightarrow> activity \<Rightarrow> bool" where
  "unshared a b \<longleftrightarrow>
     (stores a \<or> stores b \<longrightarrow> target a \<noteq> target b) \<and> (channel a = None \<or> channel a \<noteq> channel b)"

definition separate :: "activity list \<Rightarrow> bool" where
  "separate as \<longleftrightarrow> (\<forall>i < length as. \<forall>j < length as. i \<noteq> j \<longrightarrow> unshared (as ! i) (as ! j))"

text \<open>At the start nothing has been read, and the files to store are there.\<close>

fun opened :: "filesys \<Rightarrow> activity \<Rightarrow> bool" where
  "opened fs (Sending pid fd p got) \<longleftrightarrow> got = []"
| "opened fs (Storing pid fd p rest) \<longleftrightarrow> (case lookup fs p of Some (File r w d) \<Rightarrow> True | _ \<Rightarrow> False)"

section \<open>What an iteration changes\<close>

text \<open>Only the file that is stored and the connection that is sent on.\<close>

definition affects :: "activity \<Rightarrow> world \<Rightarrow> world \<Rightarrow> bool" where
  "affects a w w' \<longleftrightarrow>
     (\<forall>q. (stores a \<longrightarrow> q \<noteq> target a) \<longrightarrow> lookup (fsys w') q = lookup (fsys w) q) \<and>
     (\<forall>pid fd. channel a \<noteq> Some (pid, fd) \<longrightarrow>
        bytes_sent pid fd (trace w') = bytes_sent pid fd (trace w))"

text \<open>What is the same for a transfer.\<close>

definition agree :: "activity \<Rightarrow> world \<Rightarrow> world \<Rightarrow> bool" where
  "agree b w w' \<longleftrightarrow>
     lookup (fsys w') (target b) = lookup (fsys w) (target b) \<and>
     (\<forall>pid fd. channel b = Some (pid, fd) \<longrightarrow>
        bytes_sent pid fd (trace w') = bytes_sent pid fd (trace w))"

lemma unshared_agree: "unshared a b \<Longrightarrow> affects a w w' \<Longrightarrow> agree b w w'"
  by (auto simp: unshared_def affects_def agree_def)

text \<open>The transfer \<open>a\<close> of the start, and the same transfer \<open>b\<close> later on.\<close>

fun along :: "world \<Rightarrow> world \<Rightarrow> activity \<Rightarrow> activity \<Rightarrow> bool" where
  "along w0 w (Sending pid fd p got0) b \<longleftrightarrow>
     (\<exists>got rest. b = Sending pid fd p got \<and> contents (fsys w0) p = got @ rest \<and>
        contents (fsys w) p = contents (fsys w0) p \<and>
        bytes_sent pid fd (trace w) @ concat (chunks_of rest) =
          bytes_sent pid fd (trace w0) @ concat (chunks_of (contents (fsys w0) p)))"
| "along w0 w (Storing pid fd p rest0) b \<longleftrightarrow>
     (\<exists>s rest r wr old. b = Storing pid fd p rest \<and> rest0 = s @ rest \<and>
        lookup (fsys w0) p = Some (File r wr old) \<and> lookup (fsys w) p = Some (File r wr (old @ s)))"

lemma along_kind: "along w0 w a b \<Longrightarrow> target b = target a \<and> stores b = stores a \<and> channel b = channel a"
  by (cases a) auto

lemma along_first: "agree a w0 w0' \<Longrightarrow> along w0' w a b \<Longrightarrow> along w0 w a b"
  by (cases a) (auto simp: agree_def contents_def)

lemma along_last: "agree a w w' \<Longrightarrow> along w0 w a b \<Longrightarrow> along w0 w' a b"
  by (cases a) (auto simp: agree_def contents_def)

lemma along_start: "opened (fsys w) a \<Longrightarrow> along w w a a"
  by (cases a) (auto split: option.splits node.splits)

lemma chunks_of_Nil [simp]: "chunks_of [] = []"
  by (simp add: chunks_of_def)

lemma chunks_of_step:
  assumes "fgets 1024 s = Some (l, r)"
  shows "chunks_of s = c_str l # chunks_of r"
proof -
  have s: "l \<noteq> []" "s = l @ r" using fgets_reader.piece [OF assms] by simp_all
  then obtain n where n: "length s = Suc n" "length r \<le> n" by (cases l) auto
  with assms have "read_lines (fgets 1024) (length s) s = l # read_lines (fgets 1024) n r" by simp
  also have "read_lines (fgets 1024) n r = read_lines (fgets 1024) (length r) r"
    using n(2) by (intro fgets_reader.read_lines_fuel) simp_all
  finally show ?thesis by (simp add: chunks_of_def)
qed

text \<open>The bytes a transfer still has to read or write.\<close>

fun to_do :: "world \<Rightarrow> activity \<Rightarrow> nat" where
  "to_do w0 (Sending pid fd p got) = length (contents (fsys w0) p) - length got"
| "to_do w0 (Storing pid fd p rest) = length rest"

lemma iteration_along:
  assumes "along w0 w a0 a" "iteration a w = Some (a', w')"
  shows "affects a0 w w' \<and> along w0 w' a0 a' \<and> to_do w0 a' < to_do w0 a"
proof (cases a0)
  case (Sending pid fd p got0)
  with assms(1) obtain got rest where a: "a = Sending pid fd p got" "contents (fsys w0) p = got @ rest"
    "contents (fsys w) p = contents (fsys w0) p"
    "bytes_sent pid fd (trace w) @ concat (chunks_of rest) =
      bytes_sent pid fd (trace w0) @ concat (chunks_of (contents (fsys w0) p))"
    by auto
  with assms(2) obtain l r where l: "fgets 1024 rest = Some (l, r)"
    and a': "a' = Sending pid fd p (got @ l)" "w' = dprintf fd (c_str l) (w\<lparr>self_pid := pid\<rparr>)"
    by (auto split: option.splits)
  have s: "l \<noteq> []" "rest = l @ r" using fgets_reader.piece [OF l] by simp_all
  have "bytes_sent pid fd (trace w') = bytes_sent pid fd (trace w) @ c_str l" "fsys w' = fsys w"
    by (simp_all add: a')
  with a s chunks_of_step [OF l] have "along w0 w' a0 a'" by (simp add: Sending a'(1))
  moreover have "affects a0 w w'" by (auto simp: affects_def Sending a'(2))
  moreover have "to_do w0 a' < to_do w0 a" using a s by (simp add: a'(1))
  ultimately show ?thesis by blast
next
  case (Storing pid fd p rest0)
  with assms(1) obtain s rest r wr old where a: "a = Storing pid fd p rest" "rest0 = s @ rest"
    "lookup (fsys w0) p = Some (File r wr old)" "lookup (fsys w) p = Some (File r wr (old @ s))"
    by auto
  with assms(2) obtain l rest' where l: "getline rest = Some (l, rest')"
    and a': "a' = Storing pid fd p rest'" "w' = append_file p l (w\<lparr>self_pid := pid\<rparr>)"
    by (auto split: option.splits)
  have ls: "l \<noteq> []" "rest = l @ rest'" using getline_reader.piece [OF l] by simp_all
  have w': "fsys w' = write_file (fsys w) p (old @ s @ l)" "trace w' = trace w"
    using a(4) by (simp_all add: a'(2) append_file_def)
  with a ls have "along w0 w' a0 a'" by (auto simp: Storing a'(1) lookup_write_file)
  moreover have "affects a0 w w'" by (auto simp: affects_def Storing w' lookup_write_file)
  moreover have "to_do w0 a' < to_do w0 a" using a ls by (simp add: a'(1))
  ultimately show ?thesis by blast
qed

lemma iteration_None:
  assumes "along w0 w a0 a" "iteration a w = None"
  shows "to_do w0 a = 0"
  using assms by (cases a0) (auto simp: fgets_reader.at_eof getline_reader.at_eof split: option.splits)

section \<open>What a run preserves\<close>

definition io_inv :: "transfers \<Rightarrow> transfers \<Rightarrow> bool" where
  "io_inv s0 s \<longleftrightarrow>
     list_all2 (along (fst s0) (fst s)) (snd s0) (snd s) \<and>
     (\<forall>p. (\<forall>a \<in> set (snd s0). stores a \<longrightarrow> target a \<noteq> p) \<longrightarrow>
        lookup (fsys (fst s)) p = lookup (fsys (fst s0)) p) \<and>
     (\<forall>pid fd. (\<forall>a \<in> set (snd s0). channel a \<noteq> Some (pid, fd)) \<longrightarrow>
        bytes_sent pid fd (trace (fst s)) = bytes_sent pid fd (trace (fst s0)))"

lemma io_inv_start: "list_all (opened (fsys w)) as \<Longrightarrow> io_inv (w, as) (w, as)"
  using along_start [of w] by (auto simp: io_inv_def list_all_iff list_all2_conv_all_nth)

lemma io_inv_nth:
  assumes "io_inv (w0, as0) (w, as)" "i < length as"
  shows "along w0 w (as0 ! i) (as ! i)" "length as = length as0"
  using assms by (auto simp: io_inv_def list_all2_conv_all_nth)

lemma io_inv_step:
  assumes sep: "separate as0" and inv: "io_inv (w0, as0) s" and step: "io_step s s'"
  shows "io_inv (w0, as0) s'"
  using step
proof (cases rule: io_step.cases)
  case (1 i as w a w')
  note inv = inv [unfolded 1(1)] and nth = io_inv_nth [OF inv [unfolded 1(1)]]
  have i: "affects (as0 ! i) w w'" "along w0 w' (as0 ! i) a"
    using iteration_along [OF nth(1) [OF 1(3)] 1(4)] by simp_all
  have l: "length as = length as0" using nth(2) [OF 1(3)] .
  have "along w0 w' (as0 ! j) (as ! j)" if "j < length as0" "j \<noteq> i" for j
  proof (rule along_last)
    have "unshared (as0 ! i) (as0 ! j)" using sep that 1(3) l by (auto simp: separate_def)
    then show "agree (as0 ! j) w w'" using i(1) by (rule unshared_agree)
    show "along w0 w (as0 ! j) (as ! j)" using nth(1) [of j] that(1) l by simp
  qed
  with i(2) l 1(3) have "list_all2 (along w0 w') as0 (as[i := a])"
    by (auto simp: list_all2_conv_all_nth nth_list_update)
  moreover have "as0 ! i \<in> set as0" using 1(3) l by simp
  ultimately show ?thesis
    using inv i(1) unfolding 1(2) io_inv_def affects_def by simp metis
qed

lemma io_inv_run:
  assumes "separate as" "list_all (opened (fsys w)) as" "io_step\<^sup>*\<^sup>* (w, as) s"
  shows "io_inv (w, as) s"
  using assms(3)
  by (induction rule: rtranclp_induct) (auto intro: io_inv_start [OF assms(2)] io_inv_step [OF assms(1)])

section \<open>Every run ends\<close>

definition all_to_do :: "world \<Rightarrow> activity list \<Rightarrow> nat" where
  "all_to_do w0 as = sum_list (map (to_do w0) as)"

lemma sum_list_less:
  "i < length xs \<Longrightarrow> f y < f (xs ! i) \<Longrightarrow> sum_list (map f (xs[i := y])) < (sum_list (map f xs) :: nat)"
  by (induction xs arbitrary: i) (auto split: nat.splits simp: less_Suc_eq_0_disj)

lemma io_step_decreases:
  assumes inv: "io_inv (w0, as0) s" and step: "io_step s s'"
  shows "all_to_do w0 (snd s') < all_to_do w0 (snd s)"
  using step
proof (cases rule: io_step.cases)
  case (1 i as w a w')
  have "along w0 w (as0 ! i) (as ! i)" using io_inv_nth [OF inv [unfolded 1(1)] 1(3)] by simp
  from iteration_along [OF this 1(4)] show ?thesis
    using 1(3) by (auto simp: 1(1,2) all_to_do_def intro!: sum_list_less)
qed

lemma io_run_bound:
  assumes "separate as" "list_all (opened (fsys w)) as"
  shows "(io_step ^^ k) (w, as) s \<Longrightarrow> k + all_to_do w (snd s) \<le> all_to_do w as"
proof (induction k arbitrary: s)
  case (Suc k)
  then obtain s1 where s1: "(io_step ^^ k) (w, as) s1" "io_step s1 s" by auto
  have "io_inv (w, as) s1" using io_inv_run [OF assms] relpowp_imp_rtranclp [OF s1(1)] by blast
  from io_step_decreases [OF this s1(2)] Suc.IH [OF s1(1)] show ?case by simp
qed simp

lemma io_gets_done:
  assumes "separate as" "list_all (opened (fsys w)) as" "io_step\<^sup>*\<^sup>* (w, as) s"
  shows "\<exists>s'. io_step\<^sup>*\<^sup>* s s' \<and> io_done s'"
  using assms(3)
proof (induction "all_to_do w (snd s)" arbitrary: s rule: less_induct)
  case less
  show ?case
  proof (cases "io_done s")
    case False
    then obtain s1 where s1: "io_step s s1" by (auto simp: io_done_def)
    have "io_step\<^sup>*\<^sup>* (w, as) s1" using less.prems s1 by (rule rtranclp.rtrancl_into_rtrancl)
    from less.hyps [OF io_step_decreases [OF io_inv_run [OF assms(1,2) less.prems] s1] this]
    show ?thesis using s1 by (blast intro: converse_rtranclp_into_rtranclp)
  qed blast
qed

section \<open>The same transfers, one after the other\<close>

text \<open>
  What one child does with the loops of the code: \<open>execute_retr_command\<close> sends the chunks of its
  file, \<open>execute_stor_command\<close> stores the data of its connection.
\<close>

fun alone :: "os \<Rightarrow> activity \<Rightarrow> world \<Rightarrow> world" where
  "alone os (Sending pid fd p got) w = send_chunks fd (contents (fsys w) p) (w\<lparr>self_pid := pid\<rparr>)"
| "alone os (Storing pid fd p rest) w =
     (case transfer_file_data os p fd (w\<lparr>self_pid := pid\<rparr>) of Inr (r, w') \<Rightarrow> w' | Inl e \<Rightarrow> w)"

text \<open>The kernel delivers on each connection what its child has to store, and its end.\<close>

definition delivers :: "os \<Rightarrow> activity list \<Rightarrow> bool" where
  "delivers os as \<longleftrightarrow>
     (\<forall>a \<in> set as. case a of Sending pid fd p got \<Rightarrow> True
        | Storing pid fd p rest \<Rightarrow>
            \<forall>w. self_pid w = pid \<longrightarrow> os_fdopen os w fd \<and> os_recv os w fd = Some rest)"

fun finished :: "world \<Rightarrow> activity \<Rightarrow> activity" where
  "finished w (Sending pid fd p got) = Sending pid fd p (contents (fsys w) p)"
| "finished w (Storing pid fd p rest) = Storing pid fd p []"

lemma bytes_sent_map_elsewhere: "(p, fd) \<noteq> (q, g) \<Longrightarrow> bytes_sent p fd (map (Sent q g) bs) = []"
  by (induction bs) auto

lemma alone_along:
  assumes "delivers os as" "a \<in> set as" "opened (fsys w) a"
  shows "affects a w (alone os a w) \<and> along w (alone os a w) a (finished w a)"
proof (cases a)
  case (Sending pid fd p got)
  then show ?thesis
    by (auto simp: send_chunks_eq affects_def bytes_sent_map_elsewhere)
next
  case (Storing pid fd p rest)
  then obtain r wr old where p: "lookup (fsys w) p = Some (File r wr old)"
    using assms(3) by (auto split: option.splits node.splits)
  let ?w = "w\<lparr>self_pid := pid\<rparr>"
  have d: "os_fdopen os ?w fd" "os_recv os ?w fd = Some rest"
    using assms(1,2) Storing by (auto simp: delivers_def)
  from fold_append_file [of ?w p r wr old "read_lines getline (length rest) rest"] p obtain w' where
    w': "fold (append_file p) (read_lines getline (length rest) rest) ?w = w'"
    "lookup (fsys w') = (lookup (fsys w))(p \<mapsto> File r wr (old @ rest))" "w' = ?w\<lparr>fsys := fsys w'\<rparr>"
    by (auto simp: getline_reader.read_lines_concat)
  from w'(3) have t: "trace w' = trace w" by (metis world.select_convs world.surjective world.update_convs)
  have "alone os a w = close fd w'"
    using d w'(1) by (simp add: Storing transfer_file_data_def)
  then show ?thesis using w'(2) t p by (auto simp: Storing affects_def)
qed

lemma separate_Cons:
  assumes "separate (a # as)"
  shows "separate as" and "b \<in> set as \<Longrightarrow> unshared a b"
proof -
  have all: "i < Suc (length as) \<Longrightarrow> j < Suc (length as) \<Longrightarrow> i \<noteq> j \<Longrightarrow>
      unshared ((a # as) ! i) ((a # as) ! j)" for i j
    using assms unfolding separate_def by (metis length_Cons)
  show "separate as" unfolding separate_def using all [of "Suc _" "Suc _"] by auto
  assume "b \<in> set as"
  then obtain i where "i < length as" "b = as ! i" by (auto simp: in_set_conv_nth)
  with all [of 0 "Suc i"] show "unshared a b" by simp
qed

lemma opened_cong: "agree a w w' \<Longrightarrow> opened (fsys w) a \<Longrightarrow> opened (fsys w') a"
  by (cases a) (simp_all add: agree_def)

lemma finished_cong: "agree a w w' \<Longrightarrow> finished w' a = finished w a"
  by (cases a) (simp_all add: agree_def contents_def)

text \<open>The serial run, seen as a state of the transition system.\<close>

lemma serial_inv:
  assumes "delivers os bs"
  shows "set as \<subseteq> set bs \<Longrightarrow> separate as \<Longrightarrow> list_all (opened (fsys w)) as \<Longrightarrow>
    io_inv (w, as) (fold (alone os) as w, map (finished w) as)"
proof (induction as arbitrary: w)
  case (Cons a as)
  let ?v = "alone os a w" and ?u = "fold (alone os) as (alone os a w)"
  have a: "affects a w ?v" "along w ?v a (finished w a)"
    using alone_along [OF assms, of a w] Cons.prems by simp_all
  have same: "agree b w ?v" if "b \<in> set as" for b
    using separate_Cons(2) [OF Cons.prems(2) that] a(1) by (rule unshared_agree)
  have fin: "map (finished ?v) as = map (finished w) as"
    by (intro map_cong refl finished_cong same)
  have "list_all (opened (fsys ?v)) as"
    using Cons.prems(3) opened_cong [OF same] by (auto simp: list_all_iff)
  with Cons.IH [of ?v] Cons.prems(1) separate_Cons(1) [OF Cons.prems(2)] fin
  have IH: "list_all2 (along ?v ?u) as (map (finished w) as)"
    "\<And>p. \<forall>b \<in> set as. stores b \<longrightarrow> target b \<noteq> p \<Longrightarrow> lookup (fsys ?u) p = lookup (fsys ?v) p"
    "\<And>pid fd. \<forall>b \<in> set as. channel b \<noteq> Some (pid, fd) \<Longrightarrow>
      bytes_sent pid fd (trace ?u) = bytes_sent pid fd (trace ?v)"
    by (simp_all add: io_inv_def)
  have tail: "list_all2 (along w ?u) as (map (finished w) as)"
    by (rule list.rel_mono_strong [OF IH(1)]) (metis along_first same)
  have "agree a ?v ?u"
    unfolding agree_def
  proof (intro conjI allI impI)
    show "lookup (fsys ?u) (target a) = lookup (fsys ?v) (target a)"
      using separate_Cons(2) [OF Cons.prems(2)] by (intro IH(2)) (metis unshared_def)
    show "bytes_sent pid fd (trace ?u) = bytes_sent pid fd (trace ?v)" if "channel a = Some (pid, fd)"
      for pid fd using separate_Cons(2) [OF Cons.prems(2)] that by (intro IH(3)) (metis unshared_def option.distinct(1))
  qed
  then have head: "along w ?u a (finished w a)" using a(2) by (rule along_last)
  have rest: "lookup (fsys ?u) p = lookup (fsys w) p"
    if "\<forall>b \<in> set (a # as). stores b \<longrightarrow> target b \<noteq> p" for p
    using IH(2) [of p] a(1) that by (auto simp: affects_def)
  have "bytes_sent pid fd (trace ?u) = bytes_sent pid fd (trace w)"
    if "\<forall>b \<in> set (a # as). channel b \<noteq> Some (pid, fd)" for pid fd
    using IH(3) [of pid fd] a(1) that by (auto simp: affects_def)
  with head tail rest show ?case by (simp add: io_inv_def)
qed (simp add: io_inv_def)

text \<open>When no step is left every transfer is finished.\<close>

lemma done_finished:
  assumes inv: "io_inv (w0, as0) (w, as)" and dn: "io_done (w, as)"
  shows "as = map (finished w0) as0"
proof (rule nth_equalityI)
  show "length as = length (map (finished w0) as0)"
    using inv by (auto simp: io_inv_def dest: list_all2_lengthD)
  fix i assume i: "i < length as"
  note along = io_inv_nth(1) [OF inv i] and l = io_inv_nth(2) [OF inv i]
  have "iteration (as ! i) w = None"
    using dn io_step.intros [OF i] unfolding io_done_def by (metis option.exhaust surj_pair)
  from iteration_None [OF along this] along show "as ! i = map (finished w0) as0 ! i"
    using i l by (cases "as0 ! i") auto
qed

text \<open>Two states in which all transfers are finished agree on the files and on what was sent.\<close>

lemma finished_states:
  assumes "io_inv (w0, as) (w, map (finished w0) as)" "io_inv (w0, as) (w', map (finished w0) as)"
  shows "lookup (fsys w) = lookup (fsys w')"
    and "bytes_sent pid fd (trace w) = bytes_sent pid fd (trace w')"
proof -
  have fin: "along w0 w a (finished w0 a)" "along w0 w' a (finished w0 a)" if "a \<in> set as" for a
    using assms that by (auto simp: io_inv_def list_all2_conv_all_nth in_set_conv_nth)
  show "lookup (fsys w) = lookup (fsys w')"
  proof
    fix p
    show "lookup (fsys w) p = lookup (fsys w') p"
    proof (cases "\<forall>a \<in> set as. stores a \<longrightarrow> target a \<noteq> p")
      case True
      then show ?thesis using assms by (simp add: io_inv_def)
    next
      case False
      then obtain a where a: "a \<in> set as" "stores a" "target a = p" by blast
      with fin [OF a(1)] show ?thesis by (cases a) auto
    qed
  qed
  show "bytes_sent pid fd (trace w) = bytes_sent pid fd (trace w')"
  proof (cases "\<forall>a \<in> set as. channel a \<noteq> Some (pid, fd)")
    case True
    then show ?thesis using assms by (simp add: io_inv_def)
  next
    case False
    then obtain a where a: "a \<in> set as" "channel a = Some (pid, fd)" by blast
    with fin [OF a(1)] show ?thesis by (cases a) auto
  qed
qed

section \<open>Any interleaving does what the serial run does\<close>

text \<open>
  Property C14.  Transfers at the same time are transfers one after the other, as long as a file
  that one of them stores is used by no other and no two send on the same connection (\<open>separate\<close>).
  The children of RETR and STOR take the iterations of their loops in any order.  Every such run
  takes at most as many iterations as there are bytes to move, and from each state it reaches some
  run ends.  Where it ends, the files are those that the loops of the code leave when each child
  runs alone, one after the other, and on every connection exactly the same bytes have been sent.
\<close>

theorem concurrent_transfers_serialize:
  assumes "separate as" "list_all (opened (fsys w)) as" "delivers os as"
    and "(io_step ^^ k) (w, as) (w', bs)"
  shows "k \<le> all_to_do w as \<and> (\<exists>s. io_step\<^sup>*\<^sup>* (w', bs) s \<and> io_done s) \<and>
    (io_done (w', bs) \<longrightarrow>
       lookup (fsys w') = lookup (fsys (fold (alone os) as w)) \<and>
       (\<forall>pid fd. bytes_sent pid fd (trace w') = bytes_sent pid fd (trace (fold (alone os) as w))))"
proof -
  note run = relpowp_imp_rtranclp [OF assms(4)]
  note serial = serial_inv [OF assms(3) subset_refl assms(1,2)]
  note inv = io_inv_run [OF assms(1,2) run]
  have "k \<le> all_to_do w as" using io_run_bound [OF assms(1,2,4)] by simp
  moreover have "bs = map (finished w) as" if "io_done (w', bs)"
    using done_finished [OF inv that] .
  ultimately show ?thesis
    using io_gets_done [OF assms(1,2) run] inv finished_states [OF _ serial] by blast
qed

text \<open>
  A client reads \<open>/srv/ftp/pub/a\<close> while another stores two lines in \<open>/srv/ftp/up\<close>; the iterations
  alternate.
\<close>

definition demo_both :: world where
  "demo_both = demo_world\<lparr>fsys := demo_fs @ [([''srv'', ''ftp'', ''up''], File True True [])]\<rparr>"

definition demo_upload :: string where
  "demo_upload = ''one'' @ [LF] @ ''two''"

definition demo_activities :: "activity list" where
  "demo_activities =
     [Sending 70 5 [''srv'', ''ftp'', ''pub'', ''a''] [],
      Storing 71 5 [''srv'', ''ftp'', ''up''] demo_upload]"

definition demo_network :: os where
  "demo_network = demo_os\<lparr>os_recv := (\<lambda>w fd. Some demo_upload)\<rparr>"

definition demo_interleaved :: "transfers option" where
  "demo_interleaved =
     fold (\<lambda>i s. case s of None \<Rightarrow> None
         | Some (w, as) \<Rightarrow>
             (case iteration (as ! i) w of None \<Rightarrow> None | Some (a, w') \<Rightarrow> Some (w', as[i := a])))
       [1, 0, 1] (Some (demo_both, demo_activities))"

lemma interleaved_run:
  assumes "fold (\<lambda>i s. case s of None \<Rightarrow> None
         | Some (w, as) \<Rightarrow>
             (case iteration (as ! i) w of None \<Rightarrow> None | Some (a, w') \<Rightarrow> Some (w', as[i := a])))
       is (Some (w, as)) = Some s" "\<forall>i \<in> set is. i < length as"
  shows "(io_step ^^ length is) (w, as) s"
  using assms
proof (induction "is" arbitrary: w as)
  case (Cons i js)
  let ?f = "\<lambda>i s. case s of None \<Rightarrow> None
    | Some (w, as) \<Rightarrow>
        (case iteration (as ! i) w of None \<Rightarrow> None | Some (a, w') \<Rightarrow> Some (w', as[i := a]))"
  have "fold ?f js None = None" by (induction js) simp_all
  with Cons.prems(1) obtain a w' where a: "iteration (as ! i) w = Some (a, w')"
    "fold ?f js (Some (w', as[i := a])) = Some s"
    by (auto split: option.splits prod.splits)
  have "io_step (w, as) (w', as[i := a])" using Cons.prems(2) a(1) by (intro io_step.intros) auto
  moreover have "(io_step ^^ length js) (w', as[i := a]) s"
    using Cons.prems(2) by (intro Cons.IH [OF a(2)]) simp
  ultimately show ?case unfolding list.size(4) add_0_right add_Suc_right by (rule relpowp_Suc_I2)
qed simp

lemma demo_interleaved:
  "case demo_interleaved of None \<Rightarrow> False
   | Some (w, as) \<Rightarrow>
       map (\<lambda>a. iteration a w = None) as = [True, True] \<and>
       trace w = [Sent 70 5 ''hello''] \<and>
       lookup (fsys w) [''srv'', ''ftp'', ''up''] = Some (File True True demo_upload)"
  by code_simp

theorem concurrent_transfers_serialize_witness:
  "\<exists>w' bs. (io_step ^^ 3) (demo_both, demo_activities) (w', bs) \<and> io_done (w', bs) \<and>
     lookup (fsys w') = lookup (fsys (fold (alone demo_network) demo_activities demo_both)) \<and>
     lookup (fsys w') [''srv'', ''ftp'', ''up''] = Some (File True True demo_upload) \<and>
     bytes_sent 70 5 (trace (fold (alone demo_network) demo_activities demo_both)) = ''hello''"
proof -
  obtain w' bs where d: "demo_interleaved = Some (w', bs)" "map (\<lambda>a. iteration a w' = None) bs = [True, True]"
    "trace w' = [Sent 70 5 ''hello'']"
    "lookup (fsys w') [''srv'', ''ftp'', ''up''] = Some (File True True demo_upload)"
    using demo_interleaved by (auto split: option.splits)
  from interleaved_run [OF d(1) [unfolded demo_interleaved_def]]
  have run: "(io_step ^^ 3) (demo_both, demo_activities) (w', bs)"
    by (simp add: demo_activities_def numeral_3_eq_3)
  have "\<forall>b \<in> set bs. iteration b w' = None" using d(2) by auto
  then have dn: "io_done (w', bs)" by (auto simp: io_done_def elim!: io_stepE)
  have sep: "separate demo_activities"
    by (simp add: separate_def unshared_def demo_activities_def less_Suc_eq nth_Cons' numeral_2_eq_2)
  have op: "list_all (opened (fsys demo_both)) demo_activities"
    by (simp add: demo_activities_def demo_both_def demo_world_def demo_fs_def lookup_def)
  have net: "delivers demo_network demo_activities"
    by (simp add: delivers_def demo_activities_def demo_network_def demo_os_def)
  from concurrent_transfers_serialize [OF sep op net run] dn
  have "lookup (fsys w') = lookup (fsys (fold (alone demo_network) demo_activities demo_both))"
    "bytes_sent 70 5 (trace w') = bytes_sent 70 5 (trace (fold (alone demo_network) demo_activities demo_both))"
    by blast+
  with run dn d(3,4) show ?thesis by (intro exI [of _ w'] exI [of _ bs]) simp
qed

end
