(* ===== verification/Client_Independence.thy ===== *)
theory Client_Independence
  imports Login Control_Input
begin

text \<open>
  The sessions of several clients in one server process, command by command in any order.  The
  handlers share the process and its working directory; for the commands that neither touch the
  files nor ask the kernel for anything (USER, PASS, CWD, CDUP, PWD, HELP, NOOP, TYPE and unknown
  ones) each client nevertheless sees exactly what it would see alone.  What makes it so is that
  CWD goes back to the root before it replies.
\<close>

section \<open>Local commands\<close>

definition local_command :: "command_t option \<Rightarrow> bool" where
  "local_command cmd \<longleftrightarrow>
     (case cmd of
        None \<Rightarrow> True
      | Some command \<Rightarrow>
          nul_free command \<and>
          touppercase (name command) \<notin>
            {''DELE'', ''PASV'', ''PORT'', ''RETR'', ''STOR'', ''LIST'', ''QUIT''})"

text \<open>Two states of the server process that agree on everything but their history and descriptors.\<close>

definition same_place :: "path \<Rightarrow> world \<Rightarrow> world \<Rightarrow> bool" where
  "same_place root w v \<longleftrightarrow>
     dir_path (fsys w) root \<and> cwd w = root \<and> cwd v = root \<and> fsys v = fsys w \<and> self_pid v = self_pid w"

text \<open>
  \<open>both_say w v r s\<close>: two outcomes, from \<open>w\<close> and from \<open>v\<close>, with the same status, the same connection
  and the same replies, neither of which changes the process but for its history.
\<close>

definition both_say :: "world \<Rightarrow> world \<Rightarrow> outcome \<Rightarrow> outcome \<Rightarrow> bool" where
  "both_say w v r s \<longleftrightarrow>
     (case r of
        Inl e \<Rightarrow> s = Inl e
      | Inr (st, c', w') \<Rightarrow>
          \<exists>v' es. s = Inr (st, c', v') \<and> trace w' = trace w @ es \<and> trace v' = trace v @ es \<and>
            fsys w' = fsys w \<and> cwd w' = cwd w \<and> self_pid w' = self_pid w \<and>
            fsys v' = fsys v \<and> cwd v' = cwd v \<and> self_pid v' = self_pid v)"

lemma both_say_reply:
  assumes "self_pid v = self_pid w"
  shows "both_say w v (Inr (st, c, reply c' m w)) (Inr (st, c, reply c' m v))"
  using assms by (auto simp: both_say_def)

definition local_handler :: "handler \<Rightarrow> bool" where
  "local_handler h \<longleftrightarrow>
     (\<forall>root cmd c w v. same_place root w v \<longrightarrow> srv_path (server c) = string_of_path root \<longrightarrow>
        both_say w v (h cmd c w) (h cmd c v))"

lemma local_handlerI:
  assumes "\<And>root cmd c w v. same_place root w v \<Longrightarrow> srv_path (server c) = string_of_path root \<Longrightarrow>
    both_say w v (h cmd c w) (h cmd c v)"
  shows "local_handler h"
  using assms by (simp add: local_handler_def)

lemma same_place_pid: "same_place root w v \<Longrightarrow> self_pid v = self_pid w"
  by (simp add: same_place_def)

lemma session_local:
  "local_handler user_command" "local_handler pass_command" "local_handler noop_command"
  "local_handler pwd_command" "local_handler type_command" "local_handler help_command"
  by (rule local_handlerI; frule same_place_pid;
      auto simp: user_command_def pass_command_cases noop_command_def pwd_command_def
        type_command_def change_type_def help_command_def both_say_def Let_def split: option.splits)+

lemma cwd_target_same:
  assumes "same_place root w v"
  shows "cwd (cwd_target c p w) = cwd (cwd_target c p v)"
  using assms
  by (auto simp: same_place_def cwd_target_def chdir_ptr_def chdir_def split: option.splits)

lemma change_dir_local:
  assumes p: "same_place root w v" and root: "srv_path (server c) = string_of_path root"
  shows "both_say w v (change_dir c path w) (change_dir c path v)"
proof -
  note s = p [unfolded same_place_def]
  have enter: "cwd (snd (chdir (string_of_path root) u)) = root" if "fsys u = fsys w" for u
    using that s chdir_canonical [of "fsys w" root] by (simp add: chdir_def)
  have "getcwd (cwd_target c path w) = getcwd (cwd_target c path v)"
    using cwd_target_same [OF p, of c path] s by (simp add: getcwd_def)
  moreover have "getcwd (snd (chdir (string_of_path root) (cwd_target c path w))) =
      getcwd (snd (chdir (string_of_path root) (cwd_target c path v)))"
    using s by (simp add: getcwd_def enter)
  ultimately show ?thesis
    using s by (auto simp: change_dir_cases both_say_def Let_def root enter split: option.splits)
qed

lemma cwd_local: "local_handler cwd_command" "local_handler cdup_command"
  by (rule local_handlerI; frule same_place_pid;
      auto simp: cwd_command_def cdup_command_def change_dir_local both_say_reply
        both_say_def [of w v "Inl e" for w v e] split: option.splits)+

lemma execute_local:
  assumes "local_command cmd" "same_place root w v" "srv_path (server c) = string_of_path root"
  shows "both_say w v (execute_command os cmd c w) (execute_command os cmd c v)"
proof (cases cmd)
  case None
  then show ?thesis
    using same_place_pid [OF assms(2)]
    by (simp add: execute_command_def not_found_message_def both_say_reply)
next
  case (Some command)
  let ?c = "command\<lparr>name := touppercase (name command)\<rparr>"
  have n: "nul_free command" using assms(1) Some by (simp add: local_command_def)
  show ?thesis
  proof (cases "map_of (command_handlers os) (touppercase (name command))")
    case None
    with Some n show ?thesis
      using same_place_pid [OF assms(2)]
      by (simp add: execute_by_name not_found_message_def both_say_reply)
  next
    case h: (Some h)
    then have "local_handler h"
      using assms(1) Some session_local cwd_local
      by (auto simp: local_command_def command_handlers_def split: if_splits)
    then have "both_say w v (h ?c c w) (h ?c c v)"
      using assms(2,3) by (simp add: local_handler_def)
    with Some n h show ?thesis by (simp add: execute_by_name)
  qed
qed

section \<open>Schedules\<close>

text \<open>The commands of several clients, in the order the server gets them.\<close>

fun run_schedule :: "os \<Rightarrow> (nat \<times> command_t option) list \<Rightarrow> (nat \<Rightarrow> connection_t) \<Rightarrow> world \<Rightarrow>
    ((nat \<Rightarrow> connection_t) \<times> world) result" where
  "run_schedule os [] cs w = Inr (cs, w)"
| "run_schedule os ((i, cmd) # sched) cs w =
     (case execute_command os cmd (cs i) w of
        Inl e \<Rightarrow> Inl e
      | Inr (st, c', w') \<Rightarrow> run_schedule os sched (cs(i := c')) w')"

text \<open>The commands of one of them.\<close>

definition commands_of :: "nat \<Rightarrow> (nat \<times> command_t option) list \<Rightarrow> command_t option list" where
  "commands_of i sched = map snd (filter (\<lambda>(j, cmd). j = i) sched)"

lemma commands_of_simps [simp]:
  "commands_of i [] = []"
  "commands_of i ((j, cmd) # sched) = (if j = i then cmd # commands_of i sched else commands_of i sched)"
  by (simp_all add: commands_of_def)


lemma local_stays:
  assumes "local_command cmd" "execute_command os cmd c w = Inr (st, c', w')"
  shows "st \<noteq> COMMAND_QUIT"
proof (cases cmd)
  case None
  with assms(2) show ?thesis by (auto simp: execute_command_def)
next
  case (Some command)
  then have q: "nul_free command" "touppercase (name command) \<noteq> ''QUIT''"
    using assms(1) by (auto simp: local_command_def)
  from assms(2) show ?thesis
  proof (cases "map_of (command_handlers os) (touppercase (name command))")
    case None
    with assms(2) Some q(1) show ?thesis by (auto simp: execute_by_name)
  next
    case (Some h)
    let ?c = "command\<lparr>name := touppercase (name command)\<rparr>"
    have e: "h ?c c w = Inr (st, c', w')"
      using assms(2) \<open>cmd = Some command\<close> q(1) Some by (simp add: execute_by_name)
    have "h = user_command \<or> h = pass_command \<or> guarded_handler h"
      using map_of_SomeD [OF Some] q(2) command_handlers_guarded [of os] guard_axioms
      by (auto simp: command_handlers_def)
    then show ?thesis
    proof (elim disjE)
      assume "guarded_handler h"
      from guarded_handler.stays [OF this e] show ?thesis .
    qed (use e in \<open>auto simp: user_command_def pass_command_cases Let_def
      split: if_splits option.splits\<close>)
  qed
qed

text \<open>The client \<open>i\<close> in the schedule, from \<open>w\<close>, and alone, from \<open>v\<close>.\<close>

lemma schedule_projection:
  assumes "run_schedule os sched cs w = Inr (cs', w')"
    and "list_all (\<lambda>(i, cmd). local_command cmd) sched" "same_place root w v"
    and "\<And>j. srv_path (server (cs j)) = string_of_path root" "inj (\<lambda>j. client_sockfd (cs j))"
  shows "\<exists>wi es ei. run_session os (commands_of i sched) (cs i) v = Inr (cs' i, wi) \<and>
    trace w' = trace w @ es \<and> trace wi = trace v @ ei \<and>
    bytes_sent (self_pid w) (client_sockfd (cs i)) es = bytes_sent (self_pid w) (client_sockfd (cs i)) ei"
  using assms
proof (induction sched arbitrary: cs w v)
  case Nil
  then show ?case by simp
next
  case (Cons x sched)
  obtain j cmd where x: "x = (j, cmd)" by fastforce
  from Cons.prems(1) x obtain st c1 w1 where e: "execute_command os cmd (cs j) w = Inr (st, c1, w1)"
    and run: "run_schedule os sched (cs(j := c1)) w1 = Inr (cs', w')"
    by (auto split: sum.splits)
  have l: "local_command cmd" "list_all (\<lambda>(i, cmd). local_command cmd) sched" using Cons.prems(2) x by simp_all
  note contract = execute_command_contract [OF e]
  have peer: "server c1 = server (cs j)" "client_sockfd c1 = client_sockfd (cs j)"
    using contract by (simp_all add: same_peer_def)
  have srv: "srv_path (server ((cs(j := c1)) k)) = string_of_path root" for k
    using Cons.prems(4) peer by simp
  have "(\<lambda>k. client_sockfd ((cs(j := c1)) k)) = (\<lambda>k. client_sockfd (cs k))"
    using peer by (auto simp: fun_eq_iff)
  then have inj: "inj (\<lambda>k. client_sockfd ((cs(j := c1)) k))" using Cons.prems(5) by simp
  from execute_local [OF l(1) Cons.prems(3) Cons.prems(4) [of j], of os] e obtain v1 es1 where
    v1: "execute_command os cmd (cs j) v = Inr (st, c1, v1)"
    and t: "trace w1 = trace w @ es1" "trace v1 = trace v @ es1"
    and k: "fsys w1 = fsys w" "cwd w1 = cwd w" "self_pid w1 = self_pid w"
      "fsys v1 = fsys v" "cwd v1 = cwd v" "self_pid v1 = self_pid v"
    by (auto simp: both_say_def)
  show ?case
  proof (cases "j = i")
    case True
    have "same_place root w1 v1" using Cons.prems(3) k by (simp add: same_place_def)
    from Cons.IH [OF run l(2) this srv inj] True peer k(3) obtain wi es ei where
      "run_session os (commands_of i sched) c1 v1 = Inr (cs' i, wi)"
      "trace w' = trace w1 @ es" "trace wi = trace v1 @ ei"
      "bytes_sent (self_pid w) (client_sockfd (cs i)) es = bytes_sent (self_pid w) (client_sockfd (cs i)) ei"
      by auto
    then show ?thesis
      using x True v1 t local_stays [OF l(1) e] by (intro exI [of _ wi]) simp
  next
    case False
    have "same_place root w1 v" using Cons.prems(3) k by (simp add: same_place_def)
    from Cons.IH [OF run l(2) this srv inj] False k(3) obtain wi es ei where
      r: "run_session os (commands_of i sched) (cs i) v = Inr (cs' i, wi)"
      "trace w' = trace w1 @ es" "trace wi = trace v @ ei"
      "bytes_sent (self_pid w) (client_sockfd (cs i)) es = bytes_sent (self_pid w) (client_sockfd (cs i)) ei"
      by auto
    have "client_sockfd (cs i) \<noteq> client_sockfd (cs j)"
      using Cons.prems(5) False by (auto dest: injD)
    then have "bytes_sent (self_pid w) (client_sockfd (cs i)) (trace w1) =
        bytes_sent (self_pid w) (client_sockfd (cs i)) (trace w)"
      using contract by (intro bytes_sent_other [where fd = "client_sockfd (cs j)"]) auto
    then have "bytes_sent (self_pid w) (client_sockfd (cs i)) es1 = []" using t(1) by simp
    with r x False t(1) show ?thesis by (intro exI [of _ wi]) simp
  qed
qed

section \<open>Properties\<close>

text \<open>Property C15: clients do not disturb each other.  In any interleaving of the local commands of
  any number of clients, each client ends with the connection, and has been sent the bytes, that
  its own commands alone, in the same order, would have given it.\<close>

theorem clients_are_independent:
  assumes "run_schedule os sched cs w = Inr (cs', w')"
    and "list_all (\<lambda>(i, cmd). local_command cmd) sched"
    and "dir_path (fsys w) root" "cwd w = root"
    and "\<And>j. srv_path (server (cs j)) = string_of_path root" "inj (\<lambda>j. client_sockfd (cs j))"
  shows "\<exists>wi. run_session os (commands_of i sched) (cs i) w = Inr (cs' i, wi) \<and>
    bytes_sent (self_pid w) (client_sockfd (cs i)) (trace w') =
      bytes_sent (self_pid w) (client_sockfd (cs i)) (trace wi)"
proof -
  have "same_place root w w" using assms(3,4) by (simp add: same_place_def)
  from schedule_projection [OF assms(1,2) this assms(5,6)] show ?thesis by fastforce
qed

text \<open>Two clients: one enters a directory and asks for it, the other asks in between.\<close>

definition demo_clients :: "nat \<Rightarrow> connection_t" where
  "demo_clients i = demo_user\<lparr>client_sockfd := 4 + int i\<rparr>"

definition demo_schedule :: "(nat \<times> command_t option) list" where
  "demo_schedule =
     [(0, Some (demo_command ''CWD'' [''pub''])), (1, Some (demo_command ''PWD'' [])),
      (0, Some (demo_command ''PWD'' []))]"

theorem clients_are_independent_witness:
  "\<exists>cs' w' wi. run_schedule demo_os demo_schedule demo_clients demo_world = Inr (cs', w') \<and>
    run_session demo_os (commands_of 1 demo_schedule) (demo_clients 1) demo_world = Inr (cs' 1, wi) \<and>
    bytes_sent (self_pid demo_world) (client_sockfd (demo_clients 1)) (trace w') =
      bytes_sent (self_pid demo_world) (client_sockfd (demo_clients 1)) (trace wi)"
proof -
  have "\<not> isl (run_schedule demo_os demo_schedule demo_clients demo_world)" by code_simp
  then obtain cs' w' where r: "run_schedule demo_os demo_schedule demo_clients demo_world = Inr (cs', w')"
    by (cases "run_schedule demo_os demo_schedule demo_clients demo_world") auto
  have l: "list_all (\<lambda>(i, cmd). local_command cmd) demo_schedule" by code_simp
  have d: "dir_path (fsys demo_world) [''srv'', ''ftp'']" "cwd demo_world = [''srv'', ''ftp'']"
    using demo_dir_path by (simp_all add: demo_world_def)
  have s: "srv_path (server (demo_clients j)) = string_of_path [''srv'', ''ftp'']" for j
    by (simp add: demo_clients_def demo_user_def demo_conn_def demo_server_def demo_root_path)
  have "inj (\<lambda>j. client_sockfd (demo_clients j))"
    by (rule injI) (simp add: demo_clients_def)
  from clients_are_independent [OF r l d s this, of 1] r show ?thesis by blast
qed

end
