(* ===== verification/Client_Directories.thy ===== *)
theory Client_Directories
  imports Client_Session_Properties
begin

text \<open>
  Directories seen from the client: \<open>ls\<close> against LIST and its child, and \<open>cd\<close> against CWD followed
  by PWD.
\<close>

section \<open>LIST from beginning to end\<close>

text \<open>A directory a LIST is allowed to show: it is found from the directory of the client, its path
  begins with the path of the root, and the check of existence, which is made from the root,
  succeeds too.\<close>

definition listable :: "connection_t \<Rightarrow> world \<Rightarrow> path \<Rightarrow> path \<Rightarrow> string \<Rightarrow> path \<Rightarrow> bool" where
  "listable c w r q path t \<longleftrightarrow>
     at_root c w r q \<and> fs_access (fsys w) r path \<and> fs_chdir (fsys w) q path = Some t \<and>
     dir_path (fsys w) t \<and> prefix (string_of_path r) (string_of_path t)"

lemma list_check_passes:
  assumes "listable c w r q path t" "argv0 cmd = Some path"
  shows "list_check c cmd w = Inr (False, w)"
proof -
  have root: "at_root c w r q" and a: "fs_access (fsys w) r path" "fs_chdir (fsys w) q path = Some t"
    "dir_path (fsys w) t" "prefix (string_of_path r) (string_of_path t)"
    using assms(1) by (simp_all add: listable_def)
  have r: "cwd w = r" "dir_path (fsys w) r" "srv_path (server c) = string_of_path r"
    using root by (simp_all add: at_root_def)
  have there: "snd (chdir_ptr (working_directory c) w) = w\<lparr>cwd := q\<rparr>"
    by (rule at_root_excursion(1) [OF root])
  have target: "chdir path (w\<lparr>cwd := q\<rparr>) = (0, w\<lparr>cwd := t\<rparr>)" using a(2) by (simp add: chdir_def)
  have home: "snd (chdir (string_of_path r) (w\<lparr>cwd := t\<rparr>)) = w"
    using chdir_canonical [OF r(2)] by (simp add: chdir_def r(1) [symmetric])
  have "getcwd (w\<lparr>cwd := t\<rparr>) = Some (string_of_path t)"
    using getcwd_canonical [OF a(3)] by (simp add: getcwd_def)
  moreover have "strncmp (string_of_path t) (string_of_path r) (length (string_of_path r)) = 0"
    using strncmp_prefix [OF dir_path_no_NUL [OF r(2)]] a(4) by simp
  ultimately have "check_directory_access c path w = Inr (COMMAND_SUCCESS, w)"
    by (simp add: check_directory_access_def r(3) there target home Let_def)
  then show ?thesis
    using a(1) r(1) assms(2) by (simp add: list_check_def list_check_exists_def)
qed

lemma list_end_to_end:
  assumes "listable c w r q path t" "argv0 cmd = Some path"
    and "passive_ready os c w ds fd a pid" "stream c \<noteq> None" "fd \<noteq> client_sockfd c"
    and "\<And>v. cwd v = t \<Longrightarrow> os_ls os v = Some listing" "NUL \<notin> set listing"
  shows "\<exists>c' w' j w''. list_command os cmd c w = Inr (COMMAND_SUCCESS, c', w') \<and>
    jobs w' = jobs w @ [j] \<and> run_job os j w' = Inr w'' \<and> fsys w'' = fsys w \<and>
    bytes_sent pid fd (trace w'') = bytes_sent pid fd (trace w') @ listing \<and>
    bytes_sent pid (client_sockfd c) (trace w'') =
      bytes_sent pid (client_sockfd c) (trace w') @ msg_list_start @ msg_list_ok"
proof -
  from execute_passive [OF assms(3)] obtain w'
    where e: "execute_data_socket_command os c Execute_ls_command cmd w =
      Inr (COMMAND_SUCCESS, c\<lparr>data_socket := None\<rparr>, w')"
    and w': "jobs w' = jobs w @ [passive_job c ds fd a pid Execute_ls_command cmd w]"
      "fsys w' = fsys w" "cwd w' = cwd w" by blast
  define j where "j = passive_job c ds fd a pid Execute_ls_command cmd w"
  define v where "v = w'\<lparr>self_pid := job_pid j, cwd := job_cwd j, open_fds := job_fds j\<rparr>"
  let ?c = "job_connection j"
  have j: "data_socket ?c = Some (ds\<lparr>ds_client_sockfd := fd, ds_addr := a\<rparr>)" "job_command j = cmd"
    "client_sockfd ?c = client_sockfd c" "stream ?c = stream c" "job_execution j = Execute_ls_command"
    by (simp_all add: j_def passive_job_def)
  have v: "self_pid v = pid" "trace v = trace w'" "fsys v = fsys w"
    by (simp_all add: v_def j_def passive_job_def w')
  have root: "at_root c w r q" "fs_chdir (fsys w) q path = Some t"
    using assms(1) by (simp_all add: listable_def)
  have there: "snd (chdir_ptr (working_directory ?c) v) = v\<lparr>cwd := q\<rparr>"
    using at_root_excursion(1) [of ?c v r q] root(1)
    by (simp add: at_root_def v_def j_def passive_job_def w')
  have go: "chdir path (v\<lparr>cwd := q\<rparr>) = (0, v\<lparr>cwd := t\<rparr>)" using root(2) v by (simp add: chdir_def)
  have "\<exists>v'. execute_ls_command os ?c cmd v = Inr (COMMAND_SUCCESS, v') \<and> fsys v' = fsys v \<and>
    cwd v' = cwd (snd (chdir (srv_path (server ?c)) (cwd_target ?c path v))) \<and>
    bytes_sent (self_pid v) (ds_client_sockfd (ds\<lparr>ds_client_sockfd := fd, ds_addr := a\<rparr>)) (trace v') =
      bytes_sent (self_pid v) (ds_client_sockfd (ds\<lparr>ds_client_sockfd := fd, ds_addr := a\<rparr>)) (trace v) @
        listing \<and>
    bytes_sent (self_pid v) (client_sockfd ?c) (trace v') =
      bytes_sent (self_pid v) (client_sockfd ?c) (trace v) @ msg_list_start @ msg_list_ok"
    by (rule list_delivers_listing [OF j(1)])
      (use assms(2,5-7) there go in \<open>simp_all add: j cwd_target_def\<close>)
  then obtain v' where v': "execute_ls_command os ?c cmd v = Inr (COMMAND_SUCCESS, v')"
      "fsys v' = fsys w" "bytes_sent pid fd (trace v') = bytes_sent pid fd (trace w') @ listing"
      "bytes_sent pid (client_sockfd c) (trace v') =
        bytes_sent pid (client_sockfd c) (trace w') @ msg_list_start @ msg_list_ok"
    by (auto simp: v j)
  have m: "data_socket_mode ds = PASSIVE" using assms(3) by (simp add: passive_ready_def)
  have "\<exists>w''. run_job os j w' = Inr w'' \<and> fsys w'' = fsys w \<and> trace w'' = trace v'"
    using v'(1,2) assms(4) m
    by (auto simp: run_job_def v_def [symmetric] child_main_def run_execution_def j
        destroy_connection_def destroy_data_socket_def Let_def)
  moreover have "list_command os cmd c w = Inr (COMMAND_SUCCESS, c\<lparr>data_socket := None\<rparr>, w')"
    using list_check_passes [OF assms(1,2)] e root(1) assms(3)
    by (simp add: list_command_def at_root_def passive_ready_def)
  ultimately show ?thesis using w'(1) v'(3,4) j_def by fastforce
qed

section \<open>ls\<close>

text \<open>What a process has shown on its standard output.\<close>

fun displayed :: "event list \<Rightarrow> string" where
  "displayed [] = []"
| "displayed (Printed s # es) = s @ displayed es"
| "displayed (e # es) = displayed es"

lemma displayed_append [simp]: "displayed (es @ es') = displayed es @ displayed es'"
  by (induction es rule: displayed.induct) auto

lemma displayed_map [simp]: "displayed (map (\<lambda>l. Printed (c_str l)) ls) = concat (map c_str ls)"
  by (induction ls) auto

lemma list_replies:
  "plain_line msg_list_start" "plain_line msg_list_ok"
  "has_code ''150'' msg_list_start" "has_code ''226'' msg_list_ok"
  by (simp_all add: plain_line_def has_code_def c_str_def msg_list_start_def msg_list_ok_def
      eval_nat_numeral)

lemma ls_displays:
  assumes "client_ready env s" "net_in w (cl_sockfd c) = [pasv_reply a port, msg_list_start, msg_list_ok]"
    and "0 \<le> port" "port \<le> 65535" "\<And>v. os_recv (env_os env) v s = Some data" "NUL \<notin> set data"
  shows "\<exists>w'. ls_command env cmd c w = Done (COMMAND_SUCCESS, c\<lparr>cl_data_socket := None\<rparr>) w' \<and>
    fsys w' = fsys w \<and> displayed (trace w') = displayed (trace w) @ data \<and>
    bytes_sent (self_pid w) (cl_sockfd c) (trace w') =
      bytes_sent (self_pid w) (cl_sockfd c) (trace w) @ ''PASV'' @ crlf @
        ''LIST '' @ (case client_argv0 cmd of Some p \<Rightarrow> p | None \<Rightarrow> ''.'') @ crlf"
proof -
  let ?ds = "announced_socket s a port"
  let ?c = "c\<lparr>cl_data_socket := Some ?ds\<rparr>"
  let ?path = "case client_argv0 cmd of Some p \<Rightarrow> p | None \<Rightarrow> ''.''"
  let ?w1 = "after_pasv c s [msg_list_start, msg_list_ok] w"
  let ?w2 = "dprintf (cl_sockfd c) (''LIST '' @ ?path @ crlf) ?w1"
  let ?w3 = "?w2\<lparr>net_in := (net_in ?w2)(cl_sockfd c := [msg_list_ok])\<rparr>"
  let ?w4 = "?w2\<lparr>net_in := (net_in ?w2)(cl_sockfd c := [])\<rparr>"
  note ready = client_readyD [OF assms(1)]
  have init: "initialize_client_data_socket env c w = Done (COMMAND_SUCCESS, ?c) ?w1"
    using assms(1-4) by (rule initialize_passive)
  have "read_response env (cl_sockfd c) ?w2 = Done (Some msg_list_start) ?w3"
    using ready list_replies by (intro read_plain_line) simp_all
  moreover have "read_response env (cl_sockfd c) ?w3 =
      Done (Some msg_list_ok) (?w3\<lparr>net_in := (net_in ?w3)(cl_sockfd c := [])\<rparr>)"
    using ready list_replies by (intro read_plain_line) simp_all
  ultimately have check: "check_list_response env (cl_sockfd c) ?w2 = Done COMMAND_SUCCESS ?w4"
    using list_replies by (simp add: check_list_response_def)
  let ?ls = "read_lines getline (length data) data"
  obtain w5 where l: "list_result env s ?w4 = Done () w5"
    and w5_def: "w5 = close s (fold (\<lambda>line w. printf (c_str line) w) ?ls ?w4)"
    using assms(5) ready(3) by (simp add: list_result_def Let_def)
  have whole: "concat (map c_str ?ls) = data"
    using concat_no_NUL [of ?ls] assms(6) by (simp add: getline_reader.read_lines_concat)
  have silent: "bytes_sent p fd (map (\<lambda>l. Printed (c_str l)) ls) = []" for p fd ls
    by (induction ls) auto
  have w5: "displayed (trace w5) = displayed (trace w) @ data" "fsys w5 = fsys w"
    "bytes_sent (self_pid w) (cl_sockfd c) (trace w5) =
      bytes_sent (self_pid w) (cl_sockfd c) (trace w) @ ''PASV'' @ crlf @ ''LIST '' @ ?path @ crlf"
    using whole silent by (simp_all add: w5_def list_loop)
  have "ls_command env cmd c w = Done (COMMAND_SUCCESS, c\<lparr>cl_data_socket := None\<rparr>)
      (client_destroy_data_socket (Some ?ds) w5)"
    using init check l
    by (simp add: ls_command_def client_execute_ls_command_def announced_socket_def Let_def)
  then show ?thesis
    using w5 ready(1) by (simp add: client_destroy_data_socket_def announced_socket_def)
qed


section \<open>cd\<close>

lemma cwd_reply: "plain_line msg_cwd_ok" "has_code ''250'' msg_cwd_ok"
  by (simp_all add: plain_line_def has_code_def c_str_def msg_cwd_ok_def eval_nat_numeral)

lemma cd_displays:
  assumes "client_ready env s" "argc cmd = 1" "client_argv0 cmd = Some path"
    and "net_in w (cl_sockfd c) = [msg_cwd_ok, msg_pwd (Some d)]"
    and "QUOTE \<notin> set d" "LF \<notin> set d" "NUL \<notin> set d" "NUL \<notin> set path"
  shows "\<exists>w'. cd_command env cmd c w = Done (COMMAND_SUCCESS, c) w' \<and>
    trace w' = trace w @ [Sent (self_pid w) (cl_sockfd c) (''CWD '' @ path @ crlf),
      Sent (self_pid w) (cl_sockfd c) (''PWD'' @ crlf), Printed (log_new_directory d)]"
proof -
  note f = client_readyD(3) [OF assms(1)]
  let ?w1 = "dprintf (cl_sockfd c) (''CWD '' @ path @ crlf) w"
  let ?w2 = "?w1\<lparr>net_in := (net_in ?w1)(cl_sockfd c := [msg_pwd (Some d)])\<rparr>"
  let ?w3 = "dprintf (cl_sockfd c) (''PWD'' @ crlf) ?w2"
  have "read_response env (cl_sockfd c) ?w1 = Done (Some msg_cwd_ok) ?w2"
    using assms(4) f cwd_reply by (intro read_plain_line) simp_all
  moreover have "read_response env (cl_sockfd c) ?w3 =
      Done (Some (msg_pwd (Some d))) (?w3\<lparr>net_in := (net_in ?w3)(cl_sockfd c := [])\<rparr>)"
    using f msg_pwd_plain [OF assms(6,7)] by (intro read_plain_line) simp_all
  ultimately show ?thesis
    using assms(2,3) cwd_reply msg_pwd_plain [OF assms(6,7)] quoted_msg_pwd [OF assms(5,7)]
    by (simp add: cd_command_def display_new_path_def cd_display_current_path_def percent_s_def Let_def)
qed

section \<open>Properties\<close>

text \<open>Property C25: \<open>ls\<close> shows what LIST lists.  When the bytes the child of LIST sends are those the
  client receives, and each of its replies comes in a packet of its own, the client displays
  exactly the output of \<open>ls\<close> in the directory asked for, and no file changes on either side.\<close>

theorem ls_displays_listing:
  assumes "listable sc sw r q path t" "argv0 scmd = Some path"
    and "passive_ready os sc sw ds fd a pid" "stream sc \<noteq> None" "fd \<noteq> client_sockfd sc"
    and "\<And>v. cwd v = t \<Longrightarrow> os_ls os v = Some listing" "NUL \<notin> set listing"
    and server: "list_command os scmd sc sw = Inr (st, sc', sw1)" "jobs sw1 = jobs sw @ [j]"
      "run_job os j sw1 = Inr sw2"
    and wire: "bytes_sent pid fd (trace sw2) = bytes_sent pid fd (trace sw1) @ sent"
      "bytes_sent pid (client_sockfd sc) (trace sw2) =
         bytes_sent pid (client_sockfd sc) (trace sw1) @ concat replies"
      "list_all plain_line replies" "\<And>v. os_recv (env_os env) v s = Some sent"
    and client: "client_ready env s" "net_in w (cl_sockfd c) = pasv_reply addr port # replies"
      "0 \<le> port" "port \<le> 65535"
  shows "fsys sw2 = fsys sw \<and>
    (\<exists>w'. ls_command env cmd c w = Done (COMMAND_SUCCESS, c\<lparr>cl_data_socket := None\<rparr>) w' \<and>
      fsys w' = fsys w \<and> displayed (trace w') = displayed (trace w) @ listing)"
proof -
  from list_end_to_end [OF assms(1-7)] server
  have fs: "fsys sw2 = fsys sw"
    and d: "bytes_sent pid fd (trace sw2) = bytes_sent pid fd (trace sw1) @ listing"
    and m: "bytes_sent pid (client_sockfd sc) (trace sw2) =
      bytes_sent pid (client_sockfd sc) (trace sw1) @ msg_list_start @ msg_list_ok" by auto
  have "replies = [msg_list_start, msg_list_ok]"
    using wire(2,3) m list_replies by (intro plain_lines_unique) simp_all
  with client(2) have "net_in w (cl_sockfd c) = [pasv_reply addr port, msg_list_start, msg_list_ok]"
    by simp
  moreover have "sent = listing" using wire(1) d by simp
  ultimately show ?thesis
    using fs ls_displays [OF client(1) _ client(3,4) wire(4)] assms(7) by blast
qed

theorem ls_displays_listing_witness:
  "\<exists>w'. ls_command (demo_env\<lparr>env_os := demo_os\<lparr>os_recv := (\<lambda>_ _. Some ''total 0'')\<rparr>\<rparr>)
      (demo_command ''LS'' [''pub'']) demo_client
      (demo_client_world [] [pasv_reply INADDR_LOOPBACK 40000, msg_list_start, msg_list_ok]) =
      Done (COMMAND_SUCCESS, demo_client\<lparr>cl_data_socket := None\<rparr>) w' \<and>
    displayed (trace w') = ''total 0''"
proof -
  let ?env = "demo_env\<lparr>env_os := demo_os\<lparr>os_recv := (\<lambda>_ _. Some ''total 0'')\<rparr>\<rparr>"
  let ?w = "demo_client_world [] [pasv_reply INADDR_LOOPBACK 40000, msg_list_start, msg_list_ok]"
  let ?cmd = "demo_command ''LIST'' [''pub'']"
  have "fs_access (fsys demo_world) [''srv'', ''ftp''] ''pub''"
    "fs_chdir (fsys demo_world) [''srv'', ''ftp''] ''pub'' = Some [''srv'', ''ftp'', ''pub'']"
    "dir_path (fsys demo_world) [''srv'', ''ftp'', ''pub'']" by code_simp+
  then have l: "listable demo_passive demo_world [''srv'', ''ftp''] [''srv'', ''ftp''] ''pub''
      [''srv'', ''ftp'', ''pub'']"
    using demo_passive_at_root by (simp add: listable_def)
  have cmd: "argv0 ?cmd = Some ''pub''" by (simp add: demo_command_def argv0_def)
  have conn: "stream demo_passive \<noteq> None" "7 \<noteq> client_sockfd demo_passive"
    by (simp_all add: demo_passive_def demo_user_def demo_conn_def)
  have ls: "os_ls demo_os v = Some ''total 0''" for v by (simp add: demo_os_def)
  from list_end_to_end [OF l cmd demo_passive_ready conn ls]
  obtain sc' sw1 j sw2 where server:
      "list_command demo_os ?cmd demo_passive demo_world = Inr (COMMAND_SUCCESS, sc', sw1)"
      "jobs sw1 = jobs demo_world @ [j]" "run_job demo_os j sw1 = Inr sw2"
      "bytes_sent 100 7 (trace sw2) = bytes_sent 100 7 (trace sw1) @ ''total 0''"
      "bytes_sent 100 (client_sockfd demo_passive) (trace sw2) =
        bytes_sent 100 (client_sockfd demo_passive) (trace sw1) @ concat [msg_list_start, msg_list_ok]"
    by auto
  have recv: "os_recv (env_os ?env) v 5 = Some ''total 0''" for v by simp
  have "client_ready ?env 5" by (simp add: client_ready_def demo_env_def demo_os_def)
  moreover have "net_in ?w (cl_sockfd demo_client) =
      pasv_reply INADDR_LOOPBACK 40000 # [msg_list_start, msg_list_ok]"
    by (simp add: demo_client_def demo_client_world_def)
  moreover have "displayed (trace ?w) = []" by (simp add: demo_client_world_def)
  ultimately show ?thesis
    using ls_displays_listing [OF l cmd demo_passive_ready conn ls _ server _ recv, of ?w demo_client
      INADDR_LOOPBACK 40000 "demo_command ''LS'' [''pub'']"] list_replies by auto
qed

text \<open>Property C26: \<open>cd\<close> goes where CWD goes and says so.  The server handles the CWD and the PWD
  that \<open>cd\<close> sends; when the client reads its two replies, \<open>cd\<close> succeeds and displays the directory
  the server has put the client in, the one the path leads to or the root.\<close>

theorem cd_displays_new_directory:
  assumes "at_root sc sw r q" "argc scmd = 1" "argv0 scmd = Some path" "NUL \<notin> set path"
    and "fs_opendir (fsys sw) r path"
    and "(case fs_chdir (fsys sw) q path of None \<Rightarrow> q | Some t \<Rightarrow> t) = t" "dir_path (fsys sw) t"
    and "cwd_command scmd sc sw = Inr (st1, sc1, sw1)" "pwd_command scmd2 sc1 sw1 = Inr (st2, sc2, sw2)"
    and "bytes_sent (self_pid sw) (client_sockfd sc) (trace sw2) =
      bytes_sent (self_pid sw) (client_sockfd sc) (trace sw) @ concat answers"
    and "list_all plain_line answers" "QUOTE \<notin> set (checked_directory r t)"
    and "LF \<notin> set (checked_directory r t)"
    and "client_ready env s" "argc cmd = 1" "client_argv0 cmd = Some path"
    and "net_in w (cl_sockfd c) = answers"
  shows "working_directory sc2 = Some (checked_directory r t) \<and>
    (\<exists>w'. cd_command env cmd c w = Done (COMMAND_SUCCESS, c) w' \<and>
      trace w' = trace w @ [Sent (self_pid w) (cl_sockfd c) (''CWD '' @ path @ crlf),
        Sent (self_pid w) (cl_sockfd c) (''PWD'' @ crlf),
        Printed (log_new_directory (checked_directory r t))])"
proof -
  let ?d = "checked_directory r t"
  have in_: "logged_in sc" using assms(1) by (simp add: at_root_def)
  have nul: "NUL \<notin> set ?d"
    using dir_path_no_NUL assms(1,7) by (auto simp: checked_directory_def at_root_def)
  have "sc1 = sc\<lparr>working_directory := Some ?d\<rparr>" "sw1 = reply sc msg_cwd_ok sw"
    using assms(8) change_dir_canonical [OF assms(1,5,6,7)] in_ assms(2,3)
    by (simp_all add: cwd_command_def)
  then have sc2: "sc2 = sc\<lparr>working_directory := Some ?d\<rparr>"
    and "trace sw2 = trace sw @ [Sent (self_pid sw) (client_sockfd sc) msg_cwd_ok,
      Sent (self_pid sw) (client_sockfd sc) (msg_pwd (Some ?d))]"
    using assms(9) in_ by (auto simp: pwd_command_def)
  then have "concat answers = concat [msg_cwd_ok, msg_pwd (Some ?d)]" using assms(10) by simp
  then have "answers = [msg_cwd_ok, msg_pwd (Some ?d)]"
    using assms(11) cwd_reply msg_pwd_plain [OF assms(13) nul] by (intro plain_lines_unique) simp_all
  with assms(17) have "net_in w (cl_sockfd c) = [msg_cwd_ok, msg_pwd (Some ?d)]" by simp
  from cd_displays [OF assms(14-16) this assms(12,13) nul assms(4)] sc2 show ?thesis by simp
qed

theorem cd_displays_new_directory_witness:
  "\<exists>w'. cd_command demo_env (demo_command ''CD'' [''pub'']) demo_client
      (demo_client_world [] [msg_cwd_ok, msg_pwd (Some ''/srv/ftp/pub'')]) =
      Done (COMMAND_SUCCESS, demo_client) w' \<and>
    trace w' = [Sent 50 3 (''CWD pub'' @ crlf), Sent 50 3 (''PWD'' @ crlf),
      Printed (log_new_directory ''/srv/ftp/pub'')]"
proof -
  let ?r = "[''srv'', ''ftp'']" and ?t = "[''srv'', ''ftp'', ''pub'']"
  let ?cmd = "demo_command ''CWD'' [''pub'']"
  have root: "at_root demo_user demo_world ?r ?r" by (rule demo_at_root)
  have fs: "fs_opendir (fsys demo_world) ?r ''pub''"
    "(case fs_chdir (fsys demo_world) ?r ''pub'' of None \<Rightarrow> ?r | Some t \<Rightarrow> t) = ?t"
    "dir_path (fsys demo_world) ?t" by code_simp+
  have cmd: "argc ?cmd = 1" "argv0 ?cmd = Some ''pub''" "NUL \<notin> set ''pub''"
    by (simp_all add: demo_command_def argv0_def)
  have d: "checked_directory ?r ?t = ''/srv/ftp/pub''" by code_simp
  have in_: "logged_in demo_user" by (simp add: demo_user_def)
  have cwd: "cwd_command ?cmd demo_user demo_world =
      Inr (COMMAND_SUCCESS, demo_user\<lparr>working_directory := Some ''/srv/ftp/pub''\<rparr>,
        reply demo_user msg_cwd_ok demo_world)"
    using change_dir_canonical [OF root fs] cmd in_ d by (simp add: cwd_command_def)
  have pwd: "pwd_command (demo_command ''PWD'' []) (demo_user\<lparr>working_directory := Some ''/srv/ftp/pub''\<rparr>)
      (reply demo_user msg_cwd_ok demo_world) =
    Inr (COMMAND_SUCCESS, demo_user\<lparr>working_directory := Some ''/srv/ftp/pub''\<rparr>,
      reply demo_user (msg_pwd (Some ''/srv/ftp/pub'')) (reply demo_user msg_cwd_ok demo_world))"
    using in_ by (simp add: pwd_command_def reply_def)
  have plain: "list_all plain_line [msg_cwd_ok, msg_pwd (Some ''/srv/ftp/pub'')]"
    using cwd_reply msg_pwd_plain by simp
  have sent: "bytes_sent (self_pid demo_world) (client_sockfd demo_user)
      (trace (reply demo_user (msg_pwd (Some ''/srv/ftp/pub'')) (reply demo_user msg_cwd_ok demo_world))) =
    bytes_sent (self_pid demo_world) (client_sockfd demo_user) (trace demo_world) @
      concat [msg_cwd_ok, msg_pwd (Some ''/srv/ftp/pub'')]" by simp
  from cd_displays_new_directory [OF root cmd fs cwd pwd sent plain, of demo_env 5
      "demo_command ''CD'' [''pub'']" "demo_client_world [] [msg_cwd_ok, msg_pwd (Some ''/srv/ftp/pub'')]"
      demo_client]
  show ?thesis
    using demo_client_ready
    by (simp add: d demo_command_def client_argv0_def demo_client_def demo_client_world_def)
qed

end
