(* ===== verification/Spec2Isabelle.thy ===== *)
theory Spec2Isabelle
  imports Server_Loop Startup Client_Session_Properties Command_Memory Session_Memory Replies
    Transfer_Flow Concurrent_Transfers Client_Independence Client_Directories
begin

text \<open>
  MyFTP: a verification development for the FTP server in \<open>src/\<close> and \<open>include/\<close> and for the FTP
  client in \<open>bonus/\<close>, both written in C.

  \<^bold>\<open>The program.\<close>  The server is one process with one working directory.  A poll loop
  (\<open>src/connection.c\<close>) accepts connections into an array of slots and calls the handler of every
  slot that is ready; a handler (\<open>src/client_handler.c\<close>) reads one line from the buffered stream of
  the connection, parses it (\<open>src/command_parser.c\<close>), looks the command up
  (\<open>src/command_executor.c\<close>) and runs one of fifteen commands (\<open>src/commands/\<close>).  PASV and PORT set
  up a data socket (\<open>src/passive_data_socket.c\<close>, \<open>src/active_data_socket.c\<close>); LIST, RETR and STOR
  fork a child that carries the transfer out (\<open>src/data_socket_executor.c\<close>).  The client reads
  lines from a user, sends commands and shows the replies; it transfers in passive mode only.

  \<^bold>\<open>The model.\<close>  Every function is a HOL function over explicit states.
  \<^item> A server process and a client process each have a \<open>world\<close> (theory World): the files, the
    working directory, the open descriptors, the packets that will arrive on each descriptor, the
    children that were forked and have not run, and the history of what was written.  What the
    kernel decides freely (descriptors, failures, the bytes a peer sends, the output of \<open>ls\<close>,
    allocation failures) is a field of the record \<open>os\<close>, a parameter of every definition that asks
    for it; each field may depend on the whole state.
  \<^item> C strings are lists of characters before their NUL; \<open>int\<close> values are integers with the
    wrap-around written out where a conversion or a shift can reach it (\<open>int32\<close>, \<open>16 word\<close> ports,
    \<open>32 word\<close> addresses).  Pointers that may be NULL are options.
  \<^item> What C leaves undefined and the code does reach is a value: \<open>Inl fault\<close> in the server's
    results, \<open>Crash fault\<close> in the client's runs.
  \<^item> Waiting is a value as well.  A call of the server that need not return (\<open>accept\<close> on a passive
    data socket, where \<open>os_peer\<close> says whether anybody connects; the end of an upload, where
    \<open>os_recv\<close> is \<open>None\<close> when the peer keeps the connection open) gives \<open>Inl Blocked\<close>, which \<open>in_turn\<close>
    turns into a turn of the loop without end, \<open>Inr None\<close>, the same value a \<open>getline\<close> without a line
    has.  In the client both are \<open>Waits\<close>.

  \<^bold>\<open>The theories\<close>, with the files they model.
  \<^item> Prelude: faults, rule collections, list lemmas.  CLib: \<open>strcmp\<close>, \<open>strtok\<close>, \<open>atoi\<close>, \<open>sscanf\<close>,
    \<open>inet_ntoa\<close>, \<open>inet_pton\<close>.  Line_IO: \<open>fgets\<close> and \<open>getline\<close> as a contract (locale
    \<open>line_reader\<close>) and the \<open>getline\<close> of a connection.  Filesys: paths, symbolic links, permissions
    and the calls on them.
  \<^item> Utils: \<open>utils.c\<close>.  Command_Parser: \<open>command_parser.c\<close>, with the token array as cells that may
    be unwritten.
  \<^item> World: \<open>include/myftp.h\<close>, system calls, signals.  File_Stream: filling a file or a socket.
    Directories, Demo: canonical directories; a small installation for the witnesses.
  \<^item> Handler: the contract of the commands (locales \<open>ftp_handler\<close> and \<open>guarded_handler\<close>, interpreted
    for each of the fifteen handlers).  Session_Commands, Directory_Commands, Transfer_Commands:
    \<open>commands/*.c\<close>.  Data_Socket: the two kinds of data sockets (locale \<open>data_socket_provider\<close>),
    the executor and the destructors.
  \<^item> Client_Handler: dispatcher and connection handler.  Server: \<open>connection.c\<close>, \<open>socket.c\<close>,
    \<open>signal.c\<close>, \<open>main.c\<close>.
  \<^item> C_Heap: live blocks, pointers, \<open>malloc\<close>, \<open>strdup\<close> and a strict \<open>free\<close>.  Command_Memory: the
    memory of a command, from \<open>init_command\<close> to the \<open>destroy_command\<close> of the server and of the
    client.  Connection_Memory: the pointer members of \<open>connection_t\<close> in every function that writes
    one, from \<open>init_connection\<close> to \<open>destroy_connection\<close>.  Session_Memory: the handlers against it
    (locale \<open>memory_handler\<close>, interpreted for each handler with the list of calls it makes on the
    memory, \<open>session_events\<close> for a session).
  \<^item> Login, Confinement, Robustness, Control_Input, Host_Port, Transfers, Server_Loop, Startup: the
    properties of the server, by subject.
  \<^item> Client_World, Client_Data_Socket, Client_Login, Client_Commands, Client_Transfers,
    Client_Session: \<open>bonus/src/\<close> in the order of its calls, with the contract of its commands
    (locale \<open>client_command\<close>, interpreted for each of the eight).  Client_Protocol,
    Client_Properties, Client_Session_Properties, Client_Directories: the client against the
    server.
  \<^item> Answers: what each handler writes or leaves to a child (locale \<open>answering_handler\<close>, which
    extends \<open>ftp_handler\<close>, interpreted for each handler), and \<open>SIGPIPE\<close>.  Client_Independence: the
    sessions of several clients in one process.  Transfer_Flow: a download as the steps of two
    processes with a bounded data connection between them.
  \<^item> Replies: the replies of RFC 959 as an automaton on the messages of the server (locale
    \<open>replying_handler\<close>, which extends \<open>answering_handler\<close>, interpreted for each handler).
    Concurrent_Transfers: the iterations of the loops of several children as steps that interleave.

  \<^bold>\<open>What is shown.\<close>
  \<^item> Login: an automaton with three states is the specification (that of \<open>docs/RFC959.md\<close>; the
    example with the password \<open>anonymous\<close> in \<open>docs/commands.md\<close> is refused by the code), and the
    dispatcher refines it; no command but the login reaches files, descriptors or children before it.
  \<^item> Confinement: in every reachable state of the server the directory of each connection begins
    with the path of the root, and the root stays in place; the cases in which this is too weak
    (siblings whose name continues the root's, removed directories, the shared working directory)
    are theorems as well.
  \<^item> Parsing and input: every outcome of the parser, independence of the line read from the
    packets, execution of exactly the command a client wrote.
  \<^item> Transfers: RETR, STOR and LIST from the handler to the end of the child; the addresses of PASV
    and PORT; the life of a data socket.
  \<^item> The loop: an idle client is untouched, a new one takes the first free slot, one unfinished line
    stops the server, and so does a client that does not connect to its passive data socket.  After SIGINT or SIGTERM in any reachable state the loop runs no further turn
    and everything is closed.
  \<^item> Client and server together: the login succeeds on both sides, the client connects where the
    server listens, GET and PUT copy files byte for byte, PWD shows the directory the server
    keeps.  A session of the client writes in its own directory only, and its loops end.
  \<^item> Answers: when the handling of a line ends, the server has sent one complete dialogue of RFC 959
    (at most one preliminary reply and exactly one final one), or a child was started that has sent
    one when it ends; the waits that keep a command or a child from ending are named.  The second
    answer on a connection that was reset ends the server.  Clients whose commands stay in the process (no files, no data
    sockets) do not see each other in any interleaving.
  \<^item> Memory: the parser on the heap computes the parser on values; the server leaks the structure
    of every command and nothing else of it; the memory of a connection is never misused,
    follows every session of the handlers, and is given back unless a set-up stops half-way or a data socket is overwritten.
  \<^item> Downloads with flow control: a file that the data connection can hold is always read to its
    end, a larger one always ends in a deadlock of the client's GET.
  \<^item> Transfers at the same time: every interleaving of the loops of the children ends, with the files
    and the bytes of the children run one after the other, as long as nobody else uses a file that is
    stored (\<open>separate\<close>).
  \<^item> The client's failures: the reply lost between two streams, the freed response of \<open>cd\<close>, the
    download without a file, the data socket that stays.

  \<^bold>\<open>Bounds.\<close>  \<open>walk\<close> follows at most 40 symbolic links, as Linux does; beyond them it fails as the
  kernel does.  \<open>read_lines\<close> has fuel, and \<open>line_reader.read_lines_concat\<close> shows that the length of
  the input is enough, which is the fuel every use gives it.  All other loops are total functions:
  \<open>free_slot\<close> and \<open>process_client_events\<close> by the slots left (\<open>MAX_CLIENTS\<close> is 128), \<open>strtok_loop\<close>
  by the characters left, \<open>login_loop\<close> and \<open>client_loop\<close> by the bytes the user has typed.  The loop
  of the server runs over a list of poll results, one for each turn.

  \<^bold>\<open>Not modelled.\<close>  The failure of \<open>strdup\<close>, which the code never looks at.  In \<open>world\<close> a write
  (\<open>send_chunks\<close> and the replies) never blocks and never fails, so that statements on the end of a
  command or of a child are about its other calls: the two places where this matters have models of
  their own, the full data connection in Transfer_Flow and the reset control connection in Answers
  (with the rule of the kernel as a parameter).  The signals of the server arrive between two turns
  of its loop, not within one.  \<open>getline\<close> and \<open>fgets\<close> are models of the C library, not of code of
  the program.  Likewise
  \<open>world\<close> has values where the C program has pointers; who owns which block is followed in
  Command_Memory and Connection_Memory, where the results of system calls are arguments.  In
  \<open>world\<close> a child runs as one step; Concurrent_Transfers takes the loops of several children apart
  into their reads and writes, for files that are open.  The steps of a child between those of its
  parent are not modelled, nor are two children that write the same file.  The prototypes and include directives of the headers.  The tests.
\<close>

end
